(* ===== verification/Prelude.thy ===== *)
theory Prelude
  imports Complex_Main "HOL-Library.Word"
begin

text \<open>
  What every other theory of the development shares: the named collections that carry the
  component proofs, the two result monads (fallible computation, and fallible computation over
  a mutable state), and the string operations of Rust's standard library that the program uses.
  Rust strings are UTF-8 byte sequences, so a \<^typ>\<open>string\<close> here is the list of the
  bytes; every pattern the program splits, trims or replaces on is ASCII.
\<close>

section \<open>Collections\<close>

named_theorems outcome_simps \<open>inversion of the result monads\<close>
named_theorems text_simps \<open>evaluation of string operations\<close>
named_theorems clean_intros \<open>strings without a frame separator\<close>

section \<open>Machine integers\<close>

type_synonym i64 = "64 word"
type_synonym u64 = "64 word"
type_synonym u16 = "16 word"

text \<open>\<open>i64::saturating_sub\<close>, \<open>i64::max\<close>, \<open>u64::saturating_mul\<close>.\<close>

definition clamp_i64 :: "int \<Rightarrow> int" where
  "clamp_i64 z = max (- (2 ^ 63)) (min (2 ^ 63 - 1) z)"

definition i64_saturating_sub :: "i64 \<Rightarrow> i64 \<Rightarrow> i64" where
  "i64_saturating_sub a b = word_of_int (clamp_i64 (sint a - sint b))"

definition i64_max :: "i64 \<Rightarrow> i64 \<Rightarrow> i64" where
  "i64_max a b = (if sint a < sint b then b else a)"

definition u64_saturating_mul :: "u64 \<Rightarrow> u64 \<Rightarrow> u64" where
  "u64_saturating_mul a b = word_of_nat (min (2 ^ 64 - 1) (unat a * unat b))"

lemma clamp_i64_bounds: "- (2 ^ 63) \<le> clamp_i64 z" "clamp_i64 z < 2 ^ 63"
  by (auto simp: clamp_i64_def)

lemma clamp_i64_id [simp]: "- (2 ^ 63) \<le> z \<Longrightarrow> z < 2 ^ 63 \<Longrightarrow> clamp_i64 z = z"
  by (auto simp: clamp_i64_def)

lemma sint_word_of_int_i64:
  "- (2 ^ 63) \<le> z \<Longrightarrow> z < 2 ^ 63 \<Longrightarrow> sint (word_of_int z :: i64) = z"
  by (simp add: sint_sbintrunc' signed_take_bit_int_eq_self)

lemma sint_i64_saturating_sub [simp]:
  "sint (i64_saturating_sub a b) = clamp_i64 (sint a - sint b)"
  using clamp_i64_bounds unfolding i64_saturating_sub_def by (rule sint_word_of_int_i64)

lemma sint_i64_max [simp]: "sint (i64_max a b) = max (sint a) (sint b)"
  by (auto simp: i64_max_def)

lemma unat_u64_saturating_mul [simp]:
  "unat (u64_saturating_mul a b) = min (2 ^ 64 - 1) (unat a * unat b)"
proof -
  have "min (2 ^ 64 - 1) (unat a * unat b) < 2 ^ 64"
    by (rule le_less_trans[OF min.cobounded1]) simp
  then show ?thesis
    by (simp add: u64_saturating_mul_def unat_of_nat del: min_less_iff_conj)
qed

lemma sint_i64_bounds: "- (2 ^ 63) \<le> sint (x :: i64)" "sint (x :: i64) < 2 ^ 63"
  using sint_ge[of x] sint_lt[of x] by simp_all

lemma uint_i64_nonneg: "0 \<le> sint (x :: i64) \<Longrightarrow> uint x = sint x"
proof -
  assume "0 \<le> sint x"
  moreover have "uint x = uint (word_of_int (sint x) :: i64)" by simp
  moreover have "\<dots> = sint x mod 2 ^ 64" by (subst uint_word_of_int) simp
  ultimately show ?thesis using sint_i64_bounds(2)[of x] by simp
qed

section \<open>Fallible computations\<close>

text \<open>
  \<open>Result<T, E>\<close> is the sum \<open>'e + 'a\<close>; \<open>bindE\<close> is the question mark operator: it
  returns the error at once and otherwise continues with the value. A panic is a value too: code
  that can panic fails with a \<open>fault\<close>, which is an error it returns, a panic, or an
  \<open>await\<close> that never ends: the task stays where it is and nothing after it runs.
\<close>

definition bindE :: "'e + 'a \<Rightarrow> ('a \<Rightarrow> 'e + 'b) \<Rightarrow> 'e + 'b" where
  "bindE r f = (case r of Inl e \<Rightarrow> Inl e | Inr x \<Rightarrow> f x)"

definition mapE :: "('e \<Rightarrow> 'f) \<Rightarrow> 'e + 'a \<Rightarrow> 'f + 'a" where
  "mapE g r = (case r of Inl e \<Rightarrow> Inl (g e) | Inr x \<Rightarrow> Inr x)"

definition of_opt :: "'e \<Rightarrow> 'a option \<Rightarrow> 'e + 'a" where
  "of_opt e x = (case x of None \<Rightarrow> Inl e | Some y \<Rightarrow> Inr y)"

datatype 'e fault = Raised 'e | Panicked string | Stuck

lemma bindE_simps [simp]: "bindE (Inl e) f = Inl e" "bindE (Inr x) f = f x"
  by (simp_all add: bindE_def)

lemma mapE_simps [simp]: "mapE g (Inl e) = Inl (g e)" "mapE g (Inr x) = Inr x"
  by (simp_all add: mapE_def)

lemma of_opt_simps [simp]: "of_opt e None = Inl e" "of_opt e (Some x) = Inr x"
  by (simp_all add: of_opt_def)

lemma bindE_Inr [outcome_simps]: "bindE r f = Inr y \<longleftrightarrow> (\<exists>x. r = Inr x \<and> f x = Inr y)"
  by (cases r) simp_all

lemma bindE_Inl [outcome_simps]:
  "bindE r f = Inl e \<longleftrightarrow> r = Inl e \<or> (\<exists>x. r = Inr x \<and> f x = Inl e)"
  by (cases r) auto

lemma mapE_Inr [outcome_simps]: "mapE g r = Inr y \<longleftrightarrow> r = Inr y"
  by (cases r) simp_all

lemma mapE_Inl [outcome_simps]: "mapE g r = Inl e \<longleftrightarrow> (\<exists>e'. r = Inl e' \<and> e = g e')"
  by (cases r) auto

lemma of_opt_Inr [outcome_simps]: "of_opt e x = Inr y \<longleftrightarrow> x = Some y"
  by (cases x) simp_all

lemma of_opt_Inl [outcome_simps]: "of_opt e x = Inl e' \<longleftrightarrow> x = None \<and> e' = e"
  by (cases x) auto

section \<open>Fallible computations over a state\<close>

text \<open>
  A handler of the daemon is a function from the state to a result and the next state. The state
  reached when an error is returned is kept: what a handler wrote before it failed stays written.
\<close>

type_synonym ('s, 'e, 'a) handler = "'s \<Rightarrow> ('e + 'a) \<times> 's"

definition returnS :: "'a \<Rightarrow> ('s, 'e, 'a) handler" where
  "returnS x s = (Inr x, s)"

definition failS :: "'e \<Rightarrow> ('s, 'e, 'a) handler" where
  "failS e s = (Inl e, s)"

definition bindS :: "('s, 'e, 'a) handler \<Rightarrow> ('a \<Rightarrow> ('s, 'e, 'b) handler) \<Rightarrow> ('s, 'e, 'b) handler" where
  "bindS m f s = (case m s of (Inl e, t) \<Rightarrow> (Inl e, t) | (Inr x, t) \<Rightarrow> f x t)"

definition liftE :: "'e + 'a \<Rightarrow> ('s, 'e, 'a) handler" where
  "liftE r s = (r, s)"

definition getS :: "('s \<Rightarrow> 'a) \<Rightarrow> ('s, 'e, 'a) handler" where
  "getS f s = (Inr (f s), s)"

definition modifyS :: "('s \<Rightarrow> 's) \<Rightarrow> ('s, 'e, unit) handler" where
  "modifyS f s = (Inr (), f s)"

text \<open>A conversion of the error, \<open>map_err\<close> or the one the question mark makes.\<close>

definition failing :: "('e \<Rightarrow> 'f) \<Rightarrow> ('s, 'e, 'a) handler \<Rightarrow> ('s, 'f, 'a) handler" where
  "failing g m s = (case m s of (r, t) \<Rightarrow> (mapE g r, t))"

text \<open>A \<open>for\<close> loop whose body may fail: the first error ends it.\<close>

fun eachS :: "('a \<Rightarrow> ('s, 'e, unit) handler) \<Rightarrow> 'a list \<Rightarrow> ('s, 'e, unit) handler" where
  "eachS f [] = returnS ()"
| "eachS f (x # xs) = bindS (f x) (\<lambda>_. eachS f xs)"

lemma handler_simps [simp]:
  "returnS x s = (Inr x, s)" "failS e s = (Inl e, s)" "liftE r s = (r, s)"
  "getS f s = (Inr (f s), s)" "modifyS g s = (Inr (), g s)"
  by (simp_all add: returnS_def failS_def liftE_def getS_def modifyS_def)

lemma failing_simps [simp]:
  "fst (failing g m s) = mapE g (fst (m s))" "snd (failing g m s) = snd (m s)"
  "failing g m s = (r, t) \<longleftrightarrow> mapE g (fst (m s)) = r \<and> snd (m s) = t"
  by (simp_all add: failing_def split: prod.split)

lemma bindS_simps [simp]:
  "m s = (Inl e, t) \<Longrightarrow> bindS m f s = (Inl e, t)"
  "m s = (Inr x, t) \<Longrightarrow> bindS m f s = f x t"
  by (simp_all add: bindS_def)

text \<open>
  \<open>keeps I m\<close>: the handler \<open>m\<close> preserves the invariant \<open>I\<close>, whether it returns or fails.
  The rules let a component's invariant be proved operation by operation.
\<close>

definition keeps :: "('s \<Rightarrow> bool) \<Rightarrow> ('s, 'e, 'a) handler \<Rightarrow> bool" where
  "keeps I m \<longleftrightarrow> (\<forall>s. I s \<longrightarrow> I (snd (m s)))"

named_theorems keeps_intros \<open>preservation of an invariant by a handler\<close>

lemma keepsD: "keeps I m \<Longrightarrow> I s \<Longrightarrow> I (snd (m s))"
  by (simp add: keeps_def)

lemma keeps_returnS [keeps_intros]: "keeps I (returnS x)"
  and keeps_failS [keeps_intros]: "keeps I (failS e)"
  and keeps_liftE [keeps_intros]: "keeps I (liftE r)"
  and keeps_getS [keeps_intros]: "keeps I (getS f)"
  by (simp_all add: keeps_def)

lemma keeps_modifyS [keeps_intros]: "(\<And>s. I s \<Longrightarrow> I (g s)) \<Longrightarrow> keeps I (modifyS g)"
  by (simp add: keeps_def)

lemma keeps_bindS [keeps_intros]:
  assumes "keeps I m" "\<And>x. keeps I (f x)"
  shows "keeps I (bindS m f)"
  using assms by (auto simp: keeps_def bindS_def split: sum.splits prod.splits)

lemma keeps_failing [keeps_intros]: "keeps I m \<Longrightarrow> keeps I (failing g m)"
  by (simp add: keeps_def)

lemma keeps_eachS [keeps_intros]: "(\<And>x. keeps I (f x)) \<Longrightarrow> keeps I (eachS f xs)"
  by (induction xs) (auto intro!: keeps_intros)

lemma keeps_if [keeps_intros]:
  "(b \<Longrightarrow> keeps I m) \<Longrightarrow> (\<not> b \<Longrightarrow> keeps I n) \<Longrightarrow> keeps I (if b then m else n)"
  by simp

lemma keeps_case_option [keeps_intros]:
  "(x = None \<Longrightarrow> keeps I m) \<Longrightarrow> (\<And>y. x = Some y \<Longrightarrow> keeps I (f y)) \<Longrightarrow>
   keeps I (case x of None \<Rightarrow> m | Some y \<Rightarrow> f y)"
  by (cases x) simp_all

lemma keeps_case_sum [keeps_intros]:
  "(\<And>e. x = Inl e \<Longrightarrow> keeps I (g e)) \<Longrightarrow> (\<And>y. x = Inr y \<Longrightarrow> keeps I (f y)) \<Longrightarrow>
   keeps I (case x of Inl e \<Rightarrow> g e | Inr y \<Rightarrow> f y)"
  by (cases x) simp_all

lemma keeps_case_prod [keeps_intros]:
  "(\<And>a b. p = (a, b) \<Longrightarrow> keeps I (f a b)) \<Longrightarrow> keeps I (case p of (a, b) \<Rightarrow> f a b)"
  by (cases p) simp

section \<open>Strings\<close>

definition tab :: char where "tab = CHR 0x09"
definition newline :: char where "newline = CHR 0x0A"
definition carriage :: char where "carriage = CHR 0x0D"

text \<open>\<open>str::to_ascii_lowercase\<close>\<close>

definition ascii_lower :: "char \<Rightarrow> char" where
  "ascii_lower c = (let n = of_char c :: nat in if 65 \<le> n \<and> n \<le> 90 then char_of (n + 32) else c)"

definition to_ascii_lowercase :: "string \<Rightarrow> string" where
  "to_ascii_lowercase = map ascii_lower"

text \<open>\<open>str::split\<close> with one character: always at least one piece.\<close>

fun split_on :: "char \<Rightarrow> string \<Rightarrow> string list" where
  "split_on c [] = [[]]"
| "split_on c (x # xs) =
    (if x = c then [] # split_on c xs
     else (case split_on c xs of [] \<Rightarrow> [[x]] | w # ws \<Rightarrow> (x # w) # ws))"

fun join_with :: "char \<Rightarrow> string list \<Rightarrow> string" where
  "join_with c [] = []"
| "join_with c [w] = w"
| "join_with c (w # v # ws) = w @ c # join_with c (v # ws)"

text \<open>\<open>str::trim_end_matches\<close> and \<open>str::replace\<close> with a set of characters.\<close>

definition trim_end_matches :: "char list \<Rightarrow> string \<Rightarrow> string" where
  "trim_end_matches cs s = rev (dropWhile (\<lambda>c. c \<in> set cs) (rev s))"

definition replace_chars :: "char list \<Rightarrow> string \<Rightarrow> string \<Rightarrow> string" where
  "replace_chars cs r s = concat (map (\<lambda>c. if c \<in> set cs then r else [c]) s)"

fun starts_with :: "string \<Rightarrow> string \<Rightarrow> bool" where
  "starts_with [] s = True"
| "starts_with (p # ps) [] = False"
| "starts_with (p # ps) (x # xs) = (p = x \<and> starts_with ps xs)"

text \<open>
  \<open>str::trim().is_empty()\<close>: every character is Unicode white space. The bytes are the UTF-8
  encodings of the code points with the property \<open>White_Space\<close>.
\<close>

definition ws1 :: "nat list" where "ws1 = [9, 10, 11, 12, 13, 32]"
definition ws2 :: "(nat \<times> nat) list" where "ws2 = [(0xC2, 0x85), (0xC2, 0xA0)]"
definition ws3 :: "(nat \<times> nat \<times> nat) list" where
  "ws3 = (0xE1, 0x9A, 0x80) # map (\<lambda>k. (0xE2, 0x80, k)) [0x80 ..< 0x8B] @
     [(0xE2, 0x80, 0xA8), (0xE2, 0x80, 0xA9), (0xE2, 0x80, 0xAF), (0xE2, 0x81, 0x9F),
      (0xE3, 0x80, 0x80)]"

fun blank_bytes :: "nat list \<Rightarrow> bool" where
  "blank_bytes [] = True"
| "blank_bytes [a] = (a \<in> set ws1)"
| "blank_bytes [a, b] =
    ((a \<in> set ws1 \<and> blank_bytes [b]) \<or> (a, b) \<in> set ws2)"
| "blank_bytes (a # b # c # s) =
    ((a \<in> set ws1 \<and> blank_bytes (b # c # s)) \<or> ((a, b) \<in> set ws2 \<and> blank_bytes (c # s)) \<or>
     ((a, b, c) \<in> set ws3 \<and> blank_bytes s))"

definition trim_is_empty :: "string \<Rightarrow> bool" where
  "trim_is_empty s = blank_bytes (map of_char s)"

lemma trim_is_empty_Nil [simp]: "trim_is_empty []"
  by (simp add: trim_is_empty_def)

subsection \<open>Fields of a frame\<close>

text \<open>A string is clean when it holds none of the three characters that delimit fields and lines.\<close>

definition clean :: "string \<Rightarrow> bool" where
  "clean s \<longleftrightarrow> tab \<notin> set s \<and> carriage \<notin> set s \<and> newline \<notin> set s"

lemma separators_distinct [simp]:
  "tab \<noteq> newline" "tab \<noteq> carriage" "carriage \<noteq> newline"
  "newline \<noteq> tab" "carriage \<noteq> tab" "newline \<noteq> carriage"
  by (simp_all add: tab_def newline_def carriage_def)

lemmas separator_codes = tab_def newline_def carriage_def

lemma clean_Nil [simp, clean_intros]: "clean []"
  by (simp add: clean_def)

lemma clean_append [simp]: "clean (s @ t) \<longleftrightarrow> clean s \<and> clean t"
  by (auto simp: clean_def)

lemma clean_Cons:
  "clean (c # s) \<longleftrightarrow> c \<noteq> tab \<and> c \<noteq> carriage \<and> c \<noteq> newline \<and> clean s"
  by (auto simp: clean_def)

lemma split_on_nonempty [simp]: "split_on c s \<noteq> []"
  by (induction s) (auto split: list.splits)

lemma split_on_no_sep: "c \<notin> set s \<Longrightarrow> split_on c s = [s]"
  by (induction s) auto

lemma split_on_append:
  "c \<notin> set s \<Longrightarrow> split_on c (s @ c # t) = s # split_on c t"
  by (induction s) auto

lemma split_on_join_with:
  "ws \<noteq> [] \<Longrightarrow> \<forall>w \<in> set ws. c \<notin> set w \<Longrightarrow> split_on c (join_with c ws) = ws"
  by (induction c ws rule: join_with.induct) (auto simp: split_on_no_sep split_on_append)

lemma join_with_split_on: "join_with c (split_on c s) = s"
proof (induction s)
  case (Cons x s)
  obtain w ws where "split_on c s = w # ws" by (cases "split_on c s") auto
  with Cons show ?case by (cases ws) auto
qed simp

lemma split_on_no_sep_pieces: "w \<in> set (split_on c s) \<Longrightarrow> c \<notin> set w"
proof (induction s arbitrary: w)
  case (Cons x s)
  then show ?case by (cases "split_on c s") (auto split: if_splits)
qed simp

lemma set_join_with: "w \<in> set ws \<Longrightarrow> set w \<subseteq> set (join_with c ws)"
  by (induction c ws rule: join_with.induct) auto

lemma trim_end_clean: "trim_end_matches cs (s @ t) = s" if "set t \<subseteq> set cs" "s = [] \<or> last s \<notin> set cs"
proof -
  have "dropWhile (\<lambda>c. c \<in> set cs) (rev t @ rev s) = dropWhile (\<lambda>c. c \<in> set cs) (rev s)"
    using that(1) by (intro dropWhile_append2) auto
  also have "\<dots> = rev s"
    using that(2) by (cases s rule: rev_cases) auto
  finally show ?thesis by (simp add: trim_end_matches_def)
qed

lemma replace_chars_id: "set s \<inter> set cs = {} \<Longrightarrow> replace_chars cs r s = s"
  unfolding replace_chars_def by (induction s) auto

lemma set_replace_chars: "set (replace_chars cs r s) \<subseteq> (set s - set cs) \<union> set r"
  by (auto simp: replace_chars_def split: if_splits)

section \<open>Lists\<close>

lemma distinct_concat_keys:
  assumes "distinct (map k xs)" "\<And>x. length (f x) \<le> 1" "\<And>x y. y \<in> set (f x) \<Longrightarrow> key y = k x"
  shows "distinct (map key (concat (map f xs)))"
  using assms(1)
proof (induction xs)
  case (Cons x xs)
  have "key y \<notin> key ` set (concat (map f xs))" if "y \<in> set (f x)" for y
  proof
    assume "key y \<in> key ` set (concat (map f xs))"
    then obtain z x' where "x' \<in> set xs" "z \<in> set (f x')" "key y = key z" by auto
    then have "k x = k x'" using assms(3)[OF that] assms(3)[of z x'] by simp
    then show False using Cons.prems \<open>x' \<in> set xs\<close> by auto
  qed
  moreover have "distinct (map key (f x))"
    using assms(2)[of x] by (cases "f x") simp_all
  ultimately show ?case using Cons by auto
qed simp

section \<open>Interface: texts of values\<close>

text \<open>
  What the wire protocol needs of a type it prints into a field and reads back: reading undoes
  printing, and a printed value is neither empty (the empty field means an absent value) nor
  breaks the frame. Optional fields follow. The types that provide it are interpreted where they
  are defined: the numbers in \<open>Num_Text\<close> and \<open>F64_Text\<close>, the enumerations in \<open>Model\<close>.
\<close>

definition opt_enc :: "('a \<Rightarrow> string) \<Rightarrow> 'a option \<Rightarrow> string" where
  "opt_enc f x = (case x of None \<Rightarrow> [] | Some y \<Rightarrow> f y)"

definition opt_dec :: "(string \<Rightarrow> 'e + 'a) \<Rightarrow> string \<Rightarrow> 'e + 'a option" where
  "opt_dec g s = (if s = [] then Inr None else bindE (g s) (\<lambda>y. Inr (Some y)))"

locale text_codec =
  fixes enc :: "'a \<Rightarrow> string" and dec :: "string \<Rightarrow> 'e + 'a"
  assumes dec_enc: "dec (enc x) = Inr x"
    and clean_enc: "clean (enc x)"
    and enc_nonempty: "enc x \<noteq> []"
begin

lemma enc_inject: "enc x = enc y \<longleftrightarrow> x = y"
  by (metis dec_enc sum.inject(2))

lemma opt_dec_enc: "opt_dec dec (opt_enc enc y) = Inr y"
  by (cases y) (simp_all add: opt_dec_def opt_enc_def dec_enc enc_nonempty)

lemma clean_opt_enc: "clean (opt_enc enc y)"
  by (cases y) (simp_all add: opt_enc_def clean_enc)

lemma opt_enc_Nil: "opt_enc enc y = [] \<longleftrightarrow> y = None"
  by (cases y) (simp_all add: opt_enc_def enc_nonempty)

end

text \<open>The keywords of an enumeration: printed in lower case, read in any case.\<close>

locale keyword_codec = text_codec +
  assumes enc_lower: "to_ascii_lowercase (enc x) = enc x"
    and dec_any_case: "to_ascii_lowercase s = to_ascii_lowercase t \<Longrightarrow> dec s = Inr x \<Longrightarrow> dec t = Inr x"
begin

lemma dec_of_lower: "to_ascii_lowercase s = enc x \<Longrightarrow> dec s = Inr x"
  by (rule dec_any_case[OF _ dec_enc]) (simp add: enc_lower)

end

end
