(* ===== verification/F64_Round.thy ===== *)
theory F64_Round
  imports Prelude
begin

text \<open>
  The rounding core of Rust's \<open>f64\<close>: IEEE 754 binary64 with rounding to nearest, ties to even.
  \<open>round_raw s n d\<close> computes, on natural numbers, the canonical form of the double nearest to
  \<open>n / d\<close>. The second half gives its meaning in the rationals: it computes \<open>rval\<close>, the rounding
  function, which is monotone, is the identity on doubles, and recovers a double from any fraction
  closer to it than half the gap to its neighbours.
\<close>

section \<open>Rounding a fraction\<close>

named_theorems f64_eval \<open>evaluation of floating-point operations on numerals\<close>

text \<open>Number of binary digits.\<close>

fun bits :: "nat \<Rightarrow> nat" where
  "bits n = (if n = 0 then 0 else Suc (bits (n div 2)))"

declare bits.simps [simp del]

lemma bits_num [simp]:
  "bits 0 = 0" "bits (Suc 0) = 1" "bits 1 = 1"
  "bits (numeral (Num.Bit0 k)) = bits (numeral k) + 1"
  "bits (numeral (Num.Bit1 k)) = bits (numeral k) + 1"
  by (subst bits.simps; simp add: bits.simps)+

text \<open>Shift left; a zero stays small whatever the distance.\<close>

definition shl :: "nat \<Rightarrow> nat \<Rightarrow> nat" where
  "shl m k = (if m = 0 then 0 else m * 2 ^ k)"

text \<open>The integer nearest to \<open>a / b\<close>, the even one in the middle.\<close>

definition rne :: "nat \<Rightarrow> nat \<Rightarrow> nat" where
  "rne a b = (let q = a div b; r = a mod b in
     if 2 * r < b then q else if 2 * r > b then Suc q else if even q then q else Suc q)"

text \<open>\<open>n / d\<close> in units of \<open>2 ^ e\<close>, and the greatest \<open>k\<close> with \<open>2 ^ k \<le> n / d\<close>.\<close>

definition frac_scale :: "nat \<Rightarrow> nat \<Rightarrow> int \<Rightarrow> nat" where
  "frac_scale n d e = (if 0 \<le> e then rne n (d * 2 ^ nat e) else rne (n * 2 ^ nat (- e)) d)"

definition frac_log :: "nat \<Rightarrow> nat \<Rightarrow> int" where
  "frac_log n d = (let k = int (bits n) - int (bits d) in
     if (if 0 \<le> k then d * 2 ^ nat k \<le> n else d \<le> n * 2 ^ nat (- k)) then k else k - 1)"

datatype f64_raw = Nan | Infinite bool | Finite bool nat int

text \<open>
  \<open>Finite s m e\<close> stands for \<open>m * 2 ^ e\<close>, negated when \<open>s\<close>. Canonical significands have 53
  bits, or fewer at the smallest exponent (the subnormal numbers and zero).
\<close>

definition canonical :: "f64_raw \<Rightarrow> bool" where
  "canonical r = (case r of
     Finite s m e \<Rightarrow> m < 2 ^ 53 \<and> -1074 \<le> e \<and> e \<le> 971 \<and> (2 ^ 52 \<le> m \<or> e = -1074)
   | _ \<Rightarrow> True)"

definition round_raw :: "bool \<Rightarrow> nat \<Rightarrow> nat \<Rightarrow> f64_raw" where
  "round_raw s n d =
    (if d = 0 then Nan else if n = 0 then Finite s 0 (-1074) else
     (let e = max (-1074) (frac_log n d - 52); m = frac_scale n d e in
      if m = 2 ^ 53 then (if 971 < e + 1 then Infinite s else Finite s (2 ^ 52) (e + 1))
      else if 971 < e then Infinite s else Finite s m e))"

lemma canonical_simps [simp]:
  "canonical Nan" "canonical (Infinite s)"
  "canonical (Finite s m e) \<longleftrightarrow>
     m < 2 ^ 53 \<and> -1074 \<le> e \<and> e \<le> 971 \<and> (2 ^ 52 \<le> m \<or> e = -1074)"
  by (simp_all add: canonical_def)

subsection \<open>Rounding a rational to an integer\<close>

definition rhe :: "rat \<Rightarrow> int" where
  "rhe q = (let f = \<lfloor>q\<rfloor>; r = q - of_int f in
     if r < 1 / 2 then f else if r > 1 / 2 then f + 1 else if even f then f else f + 1)"

lemma rhe_error: "\<bar>of_int (rhe q) - q\<bar> \<le> 1 / 2"
proof -
  have "of_int \<lfloor>q\<rfloor> \<le> q" "q < of_int \<lfloor>q\<rfloor> + 1" by linarith+
  then show ?thesis unfolding rhe_def Let_def by (auto simp: abs_le_iff)
qed

lemma rhe_near: "\<bar>q - of_int z\<bar> < 1 / 2 \<Longrightarrow> rhe q = z"
proof -
  assume "\<bar>q - of_int z\<bar> < 1 / 2"
  with rhe_error[of q] have "\<bar>of_int (rhe q) - of_int z\<bar> < (1 :: rat)" by linarith
  then have "\<bar>rhe q - z\<bar> < 1" by linarith
  then show ?thesis by simp
qed

lemma rhe_of_int [simp]: "rhe (of_int z) = z"
  by (rule rhe_near) simp

lemma rhe_mono: assumes "p \<le> q" shows "rhe p \<le> rhe q"
proof (rule ccontr)
  assume "\<not> rhe p \<le> rhe q"
  then have "of_int (rhe q) + 1 \<le> (of_int (rhe p) :: rat)" by linarith
  moreover have "of_int (rhe p) \<le> p + 1 / 2" "q - 1 / 2 \<le> of_int (rhe q)"
    using rhe_error[of p] rhe_error[of q] by linarith+
  ultimately have eq: "p = q" using assms by linarith
  with \<open>\<not> rhe p \<le> rhe q\<close> show False by simp
qed

lemma rhe_le: "q \<le> of_int z \<Longrightarrow> rhe q \<le> z"
  using rhe_mono[of q "of_int z"] by simp

lemma rhe_ge: "of_int z \<le> q \<Longrightarrow> z \<le> rhe q"
  using rhe_mono[of "of_int z" q] by simp

lemma rhe_frac:
  assumes "0 < b" shows "int (rne a b) = rhe (of_nat a / of_nat b)"
proof -
  have fl: "\<lfloor>of_nat a / of_nat b :: rat\<rfloor> = int (a div b)"
    by (simp add: floor_divide_of_nat_eq)
  have ab: "(of_nat a :: rat) = of_nat (a div b) * of_nat b + of_nat (a mod b)"
    by (metis div_mult_mod_eq of_nat_add of_nat_mult)
  have r: "of_nat a / of_nat b - of_int (int (a div b)) = (of_nat (a mod b) / of_nat b :: rat)"
    using assms by (subst ab) (simp add: field_simps)
  have lt: "(of_nat (a mod b) / of_nat b :: rat) < 1 / 2 \<longleftrightarrow> 2 * (a mod b) < b"
  proof -
    have "(of_nat (a mod b) / of_nat b :: rat) < 1 / 2 \<longleftrightarrow>
        (of_nat (2 * (a mod b)) :: rat) < of_nat b"
      using assms by (simp add: field_simps)
    then show ?thesis by (simp only: of_nat_less_iff)
  qed
  have gt: "(of_nat (a mod b) / of_nat b :: rat) > 1 / 2 \<longleftrightarrow> 2 * (a mod b) > b"
  proof -
    have "(of_nat (a mod b) / of_nat b :: rat) > 1 / 2 \<longleftrightarrow>
        (of_nat (2 * (a mod b)) :: rat) > of_nat b"
      using assms by (simp add: field_simps)
    then show ?thesis by (simp only: of_nat_less_iff)
  qed
  show ?thesis
    unfolding rhe_def fl Let_def r lt gt rne_def by auto
qed

subsection \<open>The binade of a fraction\<close>

abbreviation frac :: "nat \<Rightarrow> nat \<Rightarrow> rat" where
  "frac n d \<equiv> of_nat n / of_nat d"

lemma bits_bounds: "0 < n \<Longrightarrow> 2 ^ (bits n - 1) \<le> n \<and> n < 2 ^ bits n \<and> 0 < bits n"
proof (induction n rule: bits.induct)
  case (1 n)
  show ?case
  proof (cases "n = 1")
    case False
    define p where "p = (2::nat) ^ (bits (n div 2) - 1)"
    from False 1 have p: "p \<le> n div 2" "n div 2 < 2 ^ bits (n div 2)" "0 < bits (n div 2)"
      by (auto simp: p_def)
    have b: "bits n = Suc (bits (n div 2))"
      using "1.prems" by (subst bits.simps) simp
    have p2: "2 ^ bits (n div 2) = 2 * p"
      using p(3) by (cases "bits (n div 2)") (auto simp: p_def)
    then have "2 ^ (bits n - 1) = 2 * p" "2 ^ bits n = 4 * p" by (simp_all add: b)
    moreover have "2 * p \<le> n" "n < 4 * p" using p(1,2) p2 by presburger+
    ultimately show ?thesis by (simp add: b)
  qed simp
qed

lemma powi_nat: "0 \<le> e \<Longrightarrow> (2 :: rat) powi e = of_nat (2 ^ nat e)"
  by (simp add: power_int_def)

lemma powi_neg: "e < 0 \<Longrightarrow> (2 :: rat) powi e = 1 / of_nat (2 ^ nat (- e))"
  by (simp add: power_int_def field_simps)

lemma powi_pos [simp]: "(0 :: rat) < 2 powi e"
  by (rule zero_less_power_int) simp

lemma powi_not_le [simp]: "\<not> (2 :: rat) powi e \<le> 0"
  by (simp add: not_le)

lemma powi_Suc: "(2 :: rat) powi (e + 1) = 2 * 2 powi e"
  by (simp add: power_int_add)

lemma powi_le: "e \<le> f \<Longrightarrow> (2 :: rat) powi e \<le> 2 powi f"
  by (rule power_int_increasing) auto

lemma powi_less_iff: "(2 :: rat) powi e < 2 powi f \<longleftrightarrow> e < f"
  using powi_le[of f e] power_int_strict_increasing[of e f "2 :: rat"] by fastforce

lemma powi_add: "(2 :: rat) powi e * 2 powi f = 2 powi (e + f)"
  by (simp add: power_int_add)

lemma powi_plus: "(2 :: rat) powi (e + int k) = of_nat (2 ^ k) * 2 powi e"
  by (simp add: power_int_add)

lemma frac_log_test:
  assumes "0 < d"
  shows "(if 0 \<le> k then d * 2 ^ nat k \<le> n else d \<le> n * 2 ^ nat (- k)) \<longleftrightarrow> 2 powi k \<le> frac n d"
proof (cases "0 \<le> k")
  case True
  have "2 powi k \<le> frac n d \<longleftrightarrow> (of_nat (d * 2 ^ nat k) :: rat) \<le> of_nat n"
    using True assms by (simp add: powi_nat field_simps)
  then show ?thesis using True by (simp only: of_nat_le_iff if_True)
next
  case False
  have "2 powi k \<le> frac n d \<longleftrightarrow> (of_nat d :: rat) \<le> of_nat (n * 2 ^ nat (- k))"
    using False assms by (simp add: powi_neg field_simps)
  then show ?thesis using False by (simp only: of_nat_le_iff if_False)
qed

lemma frac_log_bounds:
  assumes "0 < n" "0 < d"
  shows "2 powi frac_log n d \<le> frac n d" "frac n d < 2 powi (frac_log n d + 1)"
proof -
  define k where "k = int (bits n) - int (bits d)"
  note bn = bits_bounds[OF assms(1)] and bd = bits_bounds[OF assms(2)]
  have le: "(of_nat (2 ^ (bits n - 1)) :: rat) \<le> of_nat n" "(of_nat n :: rat) < of_nat (2 ^ bits n)"
    "(of_nat (2 ^ (bits d - 1)) :: rat) \<le> of_nat d" "(of_nat d :: rat) < of_nat (2 ^ bits d)"
    using bn bd by (simp_all only: of_nat_le_iff of_nat_less_iff)
  have pw: "(of_nat (2 ^ (bits n - 1)) :: rat) = 2 powi (int (bits n) - 1)"
    "(of_nat (2 ^ bits n) :: rat) = 2 powi (int (bits n))"
    "(of_nat (2 ^ (bits d - 1)) :: rat) = 2 powi (int (bits d) - 1)"
    "(of_nat (2 ^ bits d) :: rat) = 2 powi (int (bits d))"
    using bn bd by (simp_all add: powi_nat nat_diff_distrib)
  have d0: "(0 :: rat) < of_nat d" using assms by simp
  have lower: "2 powi (k - 1) < frac n d"
  proof -
    have "2 powi (k - 1) * of_nat d < 2 powi (k - 1) * (2 powi int (bits d) :: rat)"
      using le(4) unfolding pw(4) by (rule mult_strict_left_mono) simp
    also have "\<dots> = 2 powi (int (bits n) - 1)"
      unfolding powi_add by (simp add: k_def)
    also have "\<dots> \<le> of_nat n" using le(1) unfolding pw(1) .
    finally show ?thesis using d0 by (simp add: field_simps)
  qed
  have upper: "frac n d < 2 powi (k + 1)"
  proof -
    have "of_nat n < (2 powi int (bits n) :: rat)" using le(2) unfolding pw(2) .
    also have "\<dots> = 2 powi (k + 1) * 2 powi (int (bits d) - 1)"
      unfolding powi_add by (simp add: k_def)
    also have "\<dots> \<le> 2 powi (k + 1) * of_nat d"
      using le(3) unfolding pw(3) by (rule mult_left_mono) (simp add: less_imp_le)
    finally show ?thesis using d0 by (simp add: field_simps)
  qed
  have "frac_log n d = (if 2 powi k \<le> frac n d then k else k - 1)"
    unfolding frac_log_def Let_def k_def[symmetric] frac_log_test[OF assms(2)] ..
  with lower upper show "2 powi frac_log n d \<le> frac n d" "frac n d < 2 powi (frac_log n d + 1)"
    by (auto split: if_splits)
qed

lemma binade_unique:
  assumes "2 powi k \<le> q" "q < 2 powi (k + 1)" "2 powi l \<le> p" "p < 2 powi (l + 1)" "q \<le> (p :: rat)"
  shows "k \<le> l"
proof -
  have "2 powi k < (2 powi (l + 1) :: rat)" using assms by linarith
  then show ?thesis by (simp add: powi_less_iff)
qed

lemma frac_scale_rhe:
  assumes "0 < d" shows "int (frac_scale n d e) = rhe (frac n d / 2 powi e)"
proof (cases "0 \<le> e")
  case True
  have "frac n d / 2 powi e = frac n (d * 2 ^ nat e)"
    using True by (simp add: powi_nat)
  with True assms show ?thesis by (simp only: frac_scale_def rhe_frac if_True) (simp add: rhe_frac)
next
  case False
  have "frac n d / 2 powi e = frac (n * 2 ^ nat (- e)) d"
    using False by (simp add: powi_neg)
  with False assms show ?thesis by (simp only: frac_scale_def rhe_frac if_False)
qed

subsection \<open>Rounding as a function of the rational\<close>

definition rexp :: "rat \<Rightarrow> int" where
  "rexp q = (case quotient_of q of (n, d) \<Rightarrow> max (-1074) (frac_log (nat n) (nat d) - 52))"

definition rval :: "rat \<Rightarrow> rat" where
  "rval q = (if q = 0 then 0 else of_int (rhe (q / 2 powi rexp q)) * 2 powi rexp q)"

lemma rexp_binade:
  assumes "0 < q" "2 powi k \<le> q" "q < 2 powi (k + 1)"
  shows "rexp q = max (-1074) (k - 52)"
proof -
  obtain n d where nd: "quotient_of q = (n, d)" by (cases "quotient_of q")
  have d: "0 < d" using quotient_of_denom_pos[OF nd] .
  have q: "q = of_int n / of_int d" using quotient_of_div[OF nd] .
  with assms(1) d have n: "0 < n" by (simp add: zero_less_divide_iff)
  have fr: "frac (nat n) (nat d) = q" using n d q by simp
  note fl = frac_log_bounds[of "nat n" "nat d", unfolded fr]
  from n d have "2 powi frac_log (nat n) (nat d) \<le> q" "q < 2 powi (frac_log (nat n) (nat d) + 1)"
    by (auto intro!: fl)
  with assms(2,3) have "frac_log (nat n) (nat d) = k"
    using binade_unique[of k q "frac_log (nat n) (nat d)" q]
      binade_unique[of "frac_log (nat n) (nat d)" q k q] by auto
  then show ?thesis by (simp add: rexp_def nd)
qed

lemma binade_exists:
  assumes "0 < (q :: rat)" obtains k where "2 powi k \<le> q" "q < 2 powi (k + 1)"
proof -
  obtain n d where nd: "quotient_of q = (n, d)" by (cases "quotient_of q")
  have d: "0 < d" using quotient_of_denom_pos[OF nd] .
  have q: "q = of_int n / of_int d" using quotient_of_div[OF nd] .
  with assms(1) d have n: "0 < n" by (simp add: zero_less_divide_iff)
  have fr: "frac (nat n) (nat d) = q" using n d q by simp
  show ?thesis
    using frac_log_bounds[of "nat n" "nat d", unfolded fr] n d that by auto
qed

lemma rexp_ge: "-1074 \<le> rexp q"
  by (simp add: rexp_def split: prod.split)

lemma rexp_mono: assumes "0 < p" "p \<le> q" shows "rexp p \<le> rexp q"
proof -
  obtain k where k: "2 powi k \<le> p" "p < 2 powi (k + 1)" using binade_exists[OF assms(1)] .
  obtain l where l: "2 powi l \<le> q" "q < 2 powi (l + 1)"
    using binade_exists[of q] assms by auto
  have "k \<le> l" using binade_unique[OF k l] assms by simp
  with k l assms show ?thesis by (auto simp: rexp_binade)
qed

text \<open>The significand has at most 53 bits, and exactly that many above the subnormal range.\<close>

lemma significand_bounds:
  assumes "0 < q"
  shows "0 \<le> rhe (q / 2 powi rexp q)" "rhe (q / 2 powi rexp q) \<le> 2 ^ 53"
    and "-1074 < rexp q \<Longrightarrow> 2 ^ 52 \<le> rhe (q / 2 powi rexp q)"
proof -
  obtain k where k: "2 powi k \<le> q" "q < 2 powi (k + 1)" using binade_exists[OF assms(1)] .
  have e: "rexp q = max (-1074) (k - 52)" using rexp_binade[OF assms k] .
  show "0 \<le> rhe (q / 2 powi rexp q)" by (rule rhe_ge) (use assms in simp)
  have "q < 2 powi (rexp q + 53)"
    using k(2) powi_le[of "k + 1" "rexp q + 53"] e by linarith
  also have "\<dots> = 2 ^ 53 * 2 powi rexp q" using powi_plus[of "rexp q" 53] by simp
  finally show "rhe (q / 2 powi rexp q) \<le> 2 ^ 53"
    by (intro rhe_le) (simp add: pos_divide_le_eq)
  show "2 ^ 52 \<le> rhe (q / 2 powi rexp q)" if "-1074 < rexp q"
  proof -
    have "rexp q = k - 52" using that e by linarith
    then have "2 ^ 52 * 2 powi rexp q \<le> q" using powi_plus[of "rexp q" 52] k(1) by simp
    then show ?thesis by (intro rhe_ge) (simp add: pos_le_divide_eq)
  qed
qed

lemma of_int_le_pow53: "z \<le> 2 ^ 53 \<Longrightarrow> of_int z \<le> (2 ^ 53 :: rat)"
  and of_int_ge_pow52: "2 ^ 52 \<le> z \<Longrightarrow> (2 ^ 52 :: rat) \<le> of_int z"
  by simp_all

lemma rval_nonneg: "0 \<le> q \<Longrightarrow> 0 \<le> rval q"
  using significand_bounds(1)[of q] by (auto simp: rval_def zero_le_mult_iff less_imp_le)

lemma rval_mono: assumes "0 \<le> p" "p \<le> q" shows "rval p \<le> rval q"
proof (cases "p = 0")
  case True
  then show ?thesis using assms rval_nonneg[of q] by (simp add: rval_def)
next
  case False
  with assms have p: "0 < p" and q: "0 < q" by auto
  have le: "rexp p \<le> rexp q" using rexp_mono[OF p assms(2)] .
  show ?thesis
  proof (cases "rexp p = rexp q")
    case True
    have "rhe (p / 2 powi rexp q) \<le> rhe (q / 2 powi rexp q)"
      using assms by (intro rhe_mono divide_right_mono) (simp_all add: less_imp_le)
    then show ?thesis using p q True by (simp add: rval_def mult_right_mono less_imp_le)
  next
    case False
    with le have lt: "rexp p < rexp q" by simp
    have "rval p \<le> 2 ^ 53 * 2 powi rexp p"
      using mult_right_mono[OF of_int_le_pow53[OF significand_bounds(2)[OF p]], of "2 powi rexp p"] p
      by (simp add: rval_def less_imp_le)
    also have "\<dots> = 2 powi (rexp p + 53)" using powi_plus[of "rexp p" 53] by simp
    also have "\<dots> \<le> 2 powi (rexp q + 52)" using lt by (intro powi_le) simp
    also have "\<dots> = 2 ^ 52 * 2 powi rexp q" using powi_plus[of "rexp q" 52] by simp
    also have "\<dots> \<le> rval q"
      using mult_right_mono[OF of_int_ge_pow52[OF significand_bounds(3)[OF q]], of "2 powi rexp q"]
        q lt rexp_ge[of p] by (simp add: rval_def less_imp_le)
    finally show ?thesis .
  qed
qed

subsection \<open>The rounding routine computes the rounding function\<close>

fun magnitude :: "f64_raw \<Rightarrow> rat" where
  "magnitude (Finite s m e) = of_nat m * 2 powi e"
| "magnitude _ = 0"

text \<open>Canonical forms are unique, and lie below \<open>2 ^ 1024\<close>.\<close>

lemma canonical_less_imp:
  assumes "canonical (Finite s m e)" "canonical (Finite t n f)" "e < f"
  shows "(of_nat m * 2 powi e :: rat) < of_nat n * 2 powi f"
proof -
  have "m < 2 ^ 53" "2 ^ 52 \<le> n" using assms by auto
  then have m: "(of_nat m :: rat) < 2 ^ 53" and n: "(2 ^ 52 :: rat) \<le> of_nat n"
    using of_nat_less_iff[of m "2 ^ 53", where 'a = rat]
      of_nat_le_iff[of "2 ^ 52" n, where 'a = rat] by simp_all
  have "(of_nat m * 2 powi e :: rat) < 2 ^ 53 * 2 powi e"
    using m by (rule mult_strict_right_mono) simp
  also have "\<dots> = 2 powi (e + 53)" using powi_plus[of e 53] by simp
  also have "\<dots> \<le> 2 powi (f + 52)" using assms(3) by (intro powi_le) simp
  also have "\<dots> = 2 ^ 52 * 2 powi f" using powi_plus[of f 52] by simp
  also have "\<dots> \<le> of_nat n * 2 powi f"
    using n by (rule mult_right_mono) (simp add: less_imp_le)
  finally show ?thesis .
qed

lemma canonical_unique:
  assumes "canonical (Finite s m e)" "canonical (Finite t n f)"
    and "(of_nat m * 2 powi e :: rat) = of_nat n * 2 powi f"
  shows "m = n" "e = f"
proof -
  show "e = f"
    using canonical_less_imp[OF assms(1,2)] canonical_less_imp[OF assms(2,1)] assms(3)
    by (cases e f rule: linorder_cases) simp_all
  with assms(3) show "m = n" by simp
qed

lemma canonical_below:
  assumes "canonical (Finite s m e)" shows "(of_nat m * 2 powi e :: rat) < 2 powi 1024"
proof -
  have m: "(of_nat m :: rat) < 2 ^ 53"
    using assms of_nat_less_iff[of m "2 ^ 53", where 'a = rat] by simp
  then have "(of_nat m * 2 powi e :: rat) < 2 ^ 53 * 2 powi e"
    by (rule mult_strict_right_mono) simp
  also have "\<dots> = 2 powi (e + 53)" using powi_plus[of e 53] by simp
  also have "\<dots> \<le> 2 powi 1024" using assms by (intro powi_le) simp
  finally show ?thesis .
qed

definition rounds_to :: "bool \<Rightarrow> rat \<Rightarrow> f64_raw \<Rightarrow> bool" where
  "rounds_to s v r \<longleftrightarrow>
     (if 2 powi 1024 \<le> v then r = Infinite s
      else (\<exists>m e. r = Finite s m e \<and> canonical r \<and> of_nat m * 2 powi e = v))"

lemma rounds_to_unique: "rounds_to s v r \<Longrightarrow> rounds_to s v r' \<Longrightarrow> r = r'"
  unfolding rounds_to_def by (auto split: if_splits dest: canonical_unique)

lemma rounds_to_canonical: "rounds_to s v r \<Longrightarrow> canonical r"
  by (auto simp: rounds_to_def split: if_splits)

lemma round_raw_spec:
  assumes "0 < d" shows "rounds_to s (rval (frac n d)) (round_raw s n d)"
proof (cases "n = 0")
  case True
  have "\<not> (2 :: rat) powi 1024 \<le> 0" by (simp add: not_le)
  then show ?thesis using True assms by (simp add: round_raw_def rounds_to_def rval_def)
next
  case False
  define q where "q = frac n d"
  have q: "0 < q" using False assms by (simp add: q_def)
  define e where "e = max (-1074) (frac_log n d - 52)"
  define m where "m = frac_scale n d e"
  have re: "rexp q = e"
    unfolding e_def q_def
    by (rule rexp_binade) (use False assms frac_log_bounds[of n d] in auto)
  have mi: "int m = rhe (q / 2 powi e)"
    using assms by (simp add: m_def q_def frac_scale_rhe)
  have v: "rval q = of_nat m * 2 powi e"
    using q by (simp add: rval_def re flip: mi)
  have m53: "m \<le> 2 ^ 53" using significand_bounds(2)[OF q] by (simp add: re flip: mi)
  have m52: "2 ^ 52 \<le> m" if "-1074 < e"
    using significand_bounds(3)[OF q] that by (simp add: re flip: mi)
  have e1: "-1074 \<le> e" by (simp add: e_def)
  have r: "round_raw s n d =
     (if m = 2 ^ 53 then (if 971 < e + 1 then Infinite s else Finite s (2 ^ 52) (e + 1))
      else if 971 < e then Infinite s else Finite s m e)"
    using False assms unfolding round_raw_def e_def[symmetric] Let_def m_def[symmetric] by simp
  have big: "2 powi 1024 \<le> rval q" if "971 < e \<or> (m = 2 ^ 53 \<and> 971 < e + 1)"
  proof (cases "m = 2 ^ 53")
    case True
    have "(2 :: rat) powi 1024 \<le> 2 powi (e + 53)" using that by (intro powi_le) auto
    then show ?thesis using powi_plus[of e 53] True by (simp add: v)
  next
    case False
    then have "971 < e" using that by simp
    then have "(2 :: rat) powi 1024 \<le> 2 powi (e + 52)" by (intro powi_le) simp
    also have "\<dots> = of_nat (2 ^ 52) * 2 powi e" using powi_plus[of e 52] by simp
    also have "\<dots> \<le> of_nat m * 2 powi e"
      using m52 \<open>971 < e\<close> by (intro mult_right_mono of_nat_mono) (simp_all add: less_imp_le)
    finally show ?thesis by (simp add: v)
  qed
  have fin: "rounds_to s (rval q) (round_raw s n d)"
    if "\<not> (971 < e \<or> (m = 2 ^ 53 \<and> 971 < e + 1))"
  proof -
    obtain m' e' where r': "round_raw s n d = Finite s m' e'"
      and c: "canonical (Finite s m' e')" and v': "of_nat m' * 2 powi e' = rval q"
    proof (cases "m = 2 ^ 53")
      case True
      show ?thesis
        by (rule that) (use r True \<open>\<not> (971 < e \<or> _)\<close> e1 in \<open>auto simp: v powi_Suc\<close>)
    next
      case False
      show ?thesis
        by (rule that[of m e])
          (use r False \<open>\<not> (971 < e \<or> _)\<close> e1 m53 m52 in \<open>auto simp: v\<close>)
    qed
    from canonical_below[OF c] v' have "\<not> 2 powi 1024 \<le> rval q" by simp
    with r' c v' show ?thesis by (simp add: rounds_to_def)
  qed
  show ?thesis
    using big fin r unfolding q_def[symmetric]
    by (cases "971 < e \<or> (m = 2 ^ 53 \<and> 971 < e + 1)") (auto simp: rounds_to_def)
qed

lemma round_raw_zero_denominator: "round_raw s n 0 = Nan"
  by (simp add: round_raw_def)

lemma canonical_round_raw: "canonical (round_raw s n d)"
  using rounds_to_canonical[OF round_raw_spec] by (cases "d = 0") (auto simp: round_raw_zero_denominator)

text \<open>
  Reading back: a fraction closer to a value than half the gap to its neighbours rounds to the
  value. Below a power of two the gap is half as wide.
\<close>

lemma abs_scaled: "0 < p \<Longrightarrow> \<bar>x / p - z\<bar> = \<bar>x - z * p\<bar> / (p :: rat)"
proof -
  assume "0 < p"
  then have "x / p - z = (x - z * p) / p" by (simp add: field_simps)
  then show ?thesis using \<open>0 < p\<close> by (simp add: abs_divide)
qed

lemma rval_near:
  assumes c: "canonical (Finite s m e)" and m: "0 < m" and x: "0 < x"
    and near: "\<bar>x - of_nat m * 2 powi e\<bar> < 2 powi e / 2"
    and low: "m = 2 ^ 52 \<Longrightarrow> - 1074 < e \<Longrightarrow> of_nat m * 2 powi e - x < 2 powi e / 4"
  shows "rval x = of_nat m * 2 powi e"
proof -
  obtain k where k: "2 powi k \<le> x" "x < 2 powi (k + 1)" using binade_exists[OF x] .
  have re: "rexp x = max (-1074) (k - 52)" using rexp_binade[OF x k] .
  have e1: "-1074 \<le> e" and m53: "m + 1 \<le> 2 ^ 53" using c by auto
  from near have n1: "x - of_nat m * 2 powi e < 2 powi e / 2"
    and n2: "- (x - of_nat m * 2 powi e) < 2 powi e / 2"
    by (simp_all only: abs_less_iff)
  have "x < of_nat m * 2 powi e + 2 powi e" using n1 powi_pos[of e] by linarith
  then have "x < of_nat (m + 1) * 2 powi e" by (simp add: algebra_simps)
  also have "\<dots> \<le> of_nat (2 ^ 53) * 2 powi e"
    using m53 by (intro mult_right_mono of_nat_mono) (simp_all add: less_imp_le)
  also have "\<dots> = 2 powi (e + 53)" using powi_plus[of e 53] by simp
  finally have "2 powi k < (2 powi (e + 53) :: rat)" using k(1) by simp
  then have ke: "k - 52 \<le> e" by (simp add: powi_less_iff)
  show ?thesis
  proof (cases "rexp x = e")
    case True
    have "\<bar>x / 2 powi e - of_int (int m)\<bar> = \<bar>x - of_nat m * 2 powi e\<bar> / 2 powi e"
      by (simp add: abs_scaled)
    also have "\<dots> < 1 / 2" using near by (simp add: pos_divide_less_eq)
    finally show ?thesis using x rhe_near[of "x / 2 powi e" "int m"] by (simp add: rval_def True)
  next
    case False
    with ke e1 re have lt: "k - 52 < e" "-1074 < e" by auto
    then have m52: "2 ^ 52 \<le> m" using c by auto
    have xlt: "x < 2 powi (e + 52)" using k(2) powi_le[of "k + 1" "e + 52"] lt by linarith
    have "m = 2 ^ 52"
    proof (rule ccontr)
      assume "m \<noteq> 2 ^ 52"
      with m52 have up: "of_nat (2 ^ 52 + 1) * 2 powi e \<le> (of_nat m * 2 powi e :: rat)"
        by (intro mult_right_mono of_nat_mono) (simp_all add: less_imp_le)
      moreover have "2 powi (e + 52) = (of_nat (2 ^ 52) * 2 powi e :: rat)"
        using powi_plus[of e 52] by simp
      moreover have "of_nat (2 ^ 52) * 2 powi e + 2 powi e \<le> (of_nat m * 2 powi e :: rat)"
        using up by (simp add: algebra_simps)
      ultimately show False using n2 xlt powi_pos[of e] by linarith
    qed
    have v: "of_nat m * 2 powi e = (2 powi (e + 52) :: rat)"
      using powi_plus[of e 52] \<open>m = 2 ^ 52\<close> by simp
    have half: "2 powi e = 2 * (2 powi (e - 1) :: rat)" using powi_Suc[of "e - 1"] by simp
    have lo: "2 powi (e + 52) - x < 2 powi (e - 1) / 2"
      using low[OF \<open>m = 2 ^ 52\<close> lt(2)] half v by simp
    have xge: "2 powi (e + 51) \<le> x"
    proof -
      have "e + 52 = (e + 51) + 1" by simp
      then have "2 powi (e + 52) = 2 * (2 powi (e + 51) :: rat)" by (simp only: powi_Suc)
      moreover have "(2 :: rat) powi (e - 1) \<le> 2 powi (e + 51)" by (intro powi_le) simp
      ultimately show ?thesis using lo powi_pos[of "e + 51"] by linarith
    qed
    have up53: "2 ^ 53 * 2 powi (e - 1) = (2 powi (e + 52) :: rat)"
      using powi_plus[of "e - 1" 53] by (simp add: add.commute)
    have "rexp x = max (-1074) (e + 51 - 52)"
      by (rule rexp_binade[OF x xge]) (use xlt in \<open>simp add: add.commute\<close>)
    with lt have re': "rexp x = e - 1" by simp
    have "\<bar>x / 2 powi (e - 1) - of_int (2 ^ 53)\<bar> = \<bar>x - 2 ^ 53 * 2 powi (e - 1)\<bar> / 2 powi (e - 1)"
      by (simp add: abs_scaled)
    also note up53
    also have "\<bar>x - 2 powi (e + 52)\<bar> / 2 powi (e - 1) < 1 / 2"
      using lo xlt by (simp add: pos_divide_less_eq)
    finally have "rhe (x / 2 powi (e - 1)) = 2 ^ 53" by (rule rhe_near)
    then show ?thesis using x up53 by (simp add: rval_def re' v)
  qed
qed

lemma rval_canonical:
  assumes "canonical (Finite s m e)" shows "rval (of_nat m * 2 powi e) = of_nat m * 2 powi e"
proof (cases "m = 0")
  case False
  then show ?thesis by (intro rval_near[OF assms]) simp_all
qed (simp add: rval_def)

end
