(* ===== verification/F64.thy ===== *)
theory F64
  imports F64_Round
begin

text \<open>
  Rust's \<open>f64\<close>. A value is not a number, an infinity, or a sign with a significand and an
  exponent in canonical form, so that equal values are equal terms and every term is a value a
  register can hold. All NaNs are one value: the program never looks at a payload. Every
  arithmetic operation computes its exact result as a fraction and rounds it once. Comparisons
  follow \<open>PartialOrd\<close>: they are false on NaN, and the two zeros are equal. Operations evaluate on
  numerals with the collection \<open>f64_eval\<close>; \<open>fval\<close> is the rational a finite value stands for.
\<close>

section \<open>The type\<close>

typedef f64 = "{r. canonical r}"
  morphisms raw_of f64_of_raw
  by (rule exI[of _ Nan]) simp

setup_lifting type_definition_f64

instantiation f64 :: equal
begin

definition equal_f64 :: "f64 \<Rightarrow> f64 \<Rightarrow> bool" where
  "equal_f64 x y \<longleftrightarrow> raw_of x = raw_of y"

instance by standard (simp add: equal_f64_def raw_of_inject)

end

lift_definition of_frac :: "bool \<Rightarrow> nat \<Rightarrow> nat \<Rightarrow> f64" is round_raw
  by (rule canonical_round_raw)

lift_definition f64_nan :: f64 is Nan by simp

lift_definition f64_inf :: "bool \<Rightarrow> f64" is Infinite by simp

lift_definition is_nan :: "f64 \<Rightarrow> bool" is "\<lambda>r. r = Nan" .

lift_definition is_finite :: "f64 \<Rightarrow> bool" is "\<lambda>r. \<exists>s m e. r = Finite s m e" .

definition f64_zero :: f64 where "f64_zero = of_frac False 0 1"
definition f64_one :: f64 where "f64_one = of_frac False 1 1"

text \<open>\<open>f64::EPSILON\<close>\<close>

definition f64_epsilon :: f64 where "f64_epsilon = of_frac False 1 (2 ^ 52)"

lemma canonical_raw_of [simp]: "canonical (raw_of x)"
  using raw_of[of x] by simp

lemma raw_of_f64_of_raw [simp]: "canonical r \<Longrightarrow> raw_of (f64_of_raw r) = r"
  by (simp add: f64_of_raw_inverse)

section \<open>Operations on representations\<close>

definition signed :: "bool \<Rightarrow> nat \<Rightarrow> int" where
  "signed s m = (if s then - int m else int m)"

definition round_dyadic :: "bool \<Rightarrow> nat \<Rightarrow> int \<Rightarrow> f64_raw" where
  "round_dyadic s m e = round_raw s (shl m (nat e)) (2 ^ nat (- e))"

fun raw_le :: "f64_raw \<Rightarrow> f64_raw \<Rightarrow> bool" where
  "raw_le Nan _ = False"
| "raw_le _ Nan = False"
| "raw_le (Infinite True) _ = True"
| "raw_le _ (Infinite False) = True"
| "raw_le (Infinite False) _ = False"
| "raw_le _ (Infinite True) = False"
| "raw_le (Finite s m e) (Finite t n f) =
    (signed s (shl m (nat (e - f))) \<le> signed t (shl n (nat (f - e))))"

fun raw_neg :: "f64_raw \<Rightarrow> f64_raw" where
  "raw_neg Nan = Nan"
| "raw_neg (Infinite s) = Infinite (\<not> s)"
| "raw_neg (Finite s m e) = Finite (\<not> s) m e"

fun raw_abs :: "f64_raw \<Rightarrow> f64_raw" where
  "raw_abs Nan = Nan"
| "raw_abs (Infinite s) = Infinite False"
| "raw_abs (Finite s m e) = Finite False m e"

fun raw_add :: "f64_raw \<Rightarrow> f64_raw \<Rightarrow> f64_raw" where
  "raw_add Nan _ = Nan"
| "raw_add _ Nan = Nan"
| "raw_add (Infinite s) (Infinite t) = (if s = t then Infinite s else Nan)"
| "raw_add (Infinite s) _ = Infinite s"
| "raw_add _ (Infinite t) = Infinite t"
| "raw_add (Finite s m e) (Finite t n f) =
    (if m = 0 \<and> n = 0 then Finite (s \<and> t) 0 (-1074)
     else if m = 0 then Finite t n f
     else if n = 0 then Finite s m e
     else (let g = min e f;
               z = signed s (shl m (nat (e - g))) + signed t (shl n (nat (f - g)))
           in round_dyadic (z < 0) (nat \<bar>z\<bar>) g))"

fun raw_mul :: "f64_raw \<Rightarrow> f64_raw \<Rightarrow> f64_raw" where
  "raw_mul Nan _ = Nan"
| "raw_mul _ Nan = Nan"
| "raw_mul (Infinite s) (Infinite t) = Infinite (s \<noteq> t)"
| "raw_mul (Infinite s) (Finite t n f) = (if n = 0 then Nan else Infinite (s \<noteq> t))"
| "raw_mul (Finite s m e) (Infinite t) = (if m = 0 then Nan else Infinite (s \<noteq> t))"
| "raw_mul (Finite s m e) (Finite t n f) =
    (if m = 0 \<or> n = 0 then Finite (s \<noteq> t) 0 (-1074)
     else round_dyadic (s \<noteq> t) (m * n) (e + f))"

fun raw_div :: "f64_raw \<Rightarrow> f64_raw \<Rightarrow> f64_raw" where
  "raw_div Nan _ = Nan"
| "raw_div _ Nan = Nan"
| "raw_div (Infinite s) (Infinite t) = Nan"
| "raw_div (Infinite s) (Finite t n f) = Infinite (s \<noteq> t)"
| "raw_div (Finite s m e) (Infinite t) = Finite (s \<noteq> t) 0 (-1074)"
| "raw_div (Finite s m e) (Finite t n f) =
    (if n = 0 then (if m = 0 then Nan else Infinite (s \<noteq> t))
     else if m = 0 then Finite (s \<noteq> t) 0 (-1074)
     else round_raw (s \<noteq> t) (shl m (nat (e - f))) (shl n (nat (f - e))))"

text \<open>\<open>f64::round\<close>: to the nearest integer, away from zero in the middle.\<close>

fun raw_round :: "f64_raw \<Rightarrow> f64_raw" where
  "raw_round Nan = Nan"
| "raw_round (Infinite s) = Infinite s"
| "raw_round (Finite s m e) =
    (if 0 \<le> e \<or> m = 0 then Finite s m e
     else round_raw s ((2 * m + 2 ^ nat (- e)) div (2 * 2 ^ nat (- e))) 1)"

text \<open>
  \<open>as i64\<close>: truncation towards zero, saturating, zero on NaN; \<open>as f64\<close> of an integer rounds.
\<close>

fun raw_to_int :: "f64_raw \<Rightarrow> int" where
  "raw_to_int Nan = 0"
| "raw_to_int (Infinite s) = (if s then - (2 ^ 63) else 2 ^ 63 - 1)"
| "raw_to_int (Finite s m e) = clamp_i64 (signed s (shl m (nat e) div 2 ^ nat (- e)))"

section \<open>Operations on values\<close>

lift_definition fle :: "f64 \<Rightarrow> f64 \<Rightarrow> bool" is raw_le .

lift_definition fneg :: "f64 \<Rightarrow> f64" is raw_neg
proof -
  show "canonical (raw_neg r)" if "canonical r" for r using that by (cases r) simp_all
qed

lift_definition fabs :: "f64 \<Rightarrow> f64" is raw_abs
proof -
  show "canonical (raw_abs r)" if "canonical r" for r using that by (cases r) simp_all
qed

lift_definition fadd :: "f64 \<Rightarrow> f64 \<Rightarrow> f64" is raw_add
proof -
  show "canonical (raw_add x y)" if "canonical x" "canonical y" for x y
    using that
    by (cases x; cases y) (simp_all add: round_dyadic_def canonical_round_raw Let_def)
qed

lift_definition fmul :: "f64 \<Rightarrow> f64 \<Rightarrow> f64" is raw_mul
proof -
  show "canonical (raw_mul x y)" if "canonical x" "canonical y" for x y
    by (cases x; cases y) (simp_all add: round_dyadic_def canonical_round_raw)
qed

lift_definition fdiv :: "f64 \<Rightarrow> f64 \<Rightarrow> f64" is raw_div
proof -
  show "canonical (raw_div x y)" if "canonical x" "canonical y" for x y
    by (cases x; cases y) (simp_all add: canonical_round_raw)
qed

lift_definition fround :: "f64 \<Rightarrow> f64" is raw_round
proof -
  show "canonical (raw_round r)" if "canonical r" for r
    using that by (cases r) (simp_all add: canonical_round_raw)
qed

lift_definition f64_to_int :: "f64 \<Rightarrow> int" is raw_to_int .

definition fsub :: "f64 \<Rightarrow> f64 \<Rightarrow> f64" where "fsub x y = fadd x (fneg y)"
definition flt :: "f64 \<Rightarrow> f64 \<Rightarrow> bool" where "flt x y \<longleftrightarrow> fle x y \<and> \<not> fle y x"
definition feq :: "f64 \<Rightarrow> f64 \<Rightarrow> bool" where "feq x y \<longleftrightarrow> fle x y \<and> fle y x"

text \<open>
  \<open>f64::min\<close> and \<open>f64::max\<close> ignore a NaN operand. Which of two zeros of different sign they
  return is left open by the documentation; the model returns the first.
\<close>

definition fmin :: "f64 \<Rightarrow> f64 \<Rightarrow> f64" where
  "fmin x y = (if is_nan x \<or> flt y x then y else x)"

definition fmax :: "f64 \<Rightarrow> f64 \<Rightarrow> f64" where
  "fmax x y = (if is_nan x \<or> flt x y then y else x)"

text \<open>\<open>f64::clamp\<close> panics unless \<open>min <= max\<close>; a NaN stays NaN.\<close>

definition fclamp :: "f64 \<Rightarrow> f64 \<Rightarrow> f64 \<Rightarrow> 'e fault + f64" where
  "fclamp x lo hi =
    (if \<not> fle lo hi then Inl (Panicked ''min > max, or either was NaN'')
     else (let y = (if flt x lo then lo else x) in Inr (if flt hi y then hi else y)))"

definition f64_of_int :: "int \<Rightarrow> f64" where
  "f64_of_int z = of_frac (z < 0) (nat \<bar>z\<bar>) 1"

subsection \<open>Evaluation\<close>

lemmas raw_eval = round_raw_def frac_log_def frac_scale_def rne_def shl_def signed_def
  round_dyadic_def Let_def clamp_i64_def

lemma f64_of_raw_ops [f64_eval]:
  "of_frac s n d = f64_of_raw (round_raw s n d)"
  "f64_nan = f64_of_raw Nan"
  "f64_inf s = f64_of_raw (Infinite s)"
  "canonical x \<Longrightarrow> is_nan (f64_of_raw x) \<longleftrightarrow> x = Nan"
  "canonical x \<Longrightarrow> canonical y \<Longrightarrow> fle (f64_of_raw x) (f64_of_raw y) = raw_le x y"
  "canonical x \<Longrightarrow> fneg (f64_of_raw x) = f64_of_raw (raw_neg x)"
  "canonical x \<Longrightarrow> fabs (f64_of_raw x) = f64_of_raw (raw_abs x)"
  "canonical x \<Longrightarrow> canonical y \<Longrightarrow> fadd (f64_of_raw x) (f64_of_raw y) = f64_of_raw (raw_add x y)"
  "canonical x \<Longrightarrow> canonical y \<Longrightarrow> fmul (f64_of_raw x) (f64_of_raw y) = f64_of_raw (raw_mul x y)"
  "canonical x \<Longrightarrow> canonical y \<Longrightarrow> fdiv (f64_of_raw x) (f64_of_raw y) = f64_of_raw (raw_div x y)"
  "canonical x \<Longrightarrow> fround (f64_of_raw x) = f64_of_raw (raw_round x)"
  "canonical x \<Longrightarrow> f64_to_int (f64_of_raw x) = raw_to_int x"
  by (simp_all add: of_frac_def f64_nan_def f64_inf_def is_nan_def fle_def fneg_def fabs_def
      fadd_def fmul_def fdiv_def fround_def f64_to_int_def)

lemma f64_of_raw_eq [f64_eval]:
  "canonical x \<Longrightarrow> canonical y \<Longrightarrow> f64_of_raw x = f64_of_raw y \<longleftrightarrow> x = y"
  by (simp add: f64_of_raw_inject)

lemmas f64_eval_defs [f64_eval] = raw_eval flt_def feq_def fmin_def fmax_def fclamp_def fsub_def
  f64_of_int_def f64_zero_def f64_one_def f64_epsilon_def

section \<open>Values as rationals\<close>

fun raw_val :: "f64_raw \<Rightarrow> rat" where
  "raw_val (Finite s m e) = (if s then - (of_nat m * 2 powi e) else of_nat m * 2 powi e)"
| "raw_val _ = 0"

lift_definition fval :: "f64 \<Rightarrow> rat" is raw_val .

lemma shl_cross:
  "(of_nat (shl m (nat (e - f))) :: rat) * 2 powi min e f = of_nat m * 2 powi e"
  "(of_nat (shl m (nat (e - f))) :: rat) * 2 powi min f e = of_nat m * 2 powi e"
proof -
  have "(of_nat (shl m (nat (e - f))) :: rat) * 2 powi min e f = of_nat m * 2 powi e"
  proof (cases "f \<le> e")
    case True
    then have "2 powi e = (2 powi (f + int (nat (e - f))) :: rat)" by simp
    also have "\<dots> = of_nat (2 ^ nat (e - f)) * 2 powi f" by (rule powi_plus)
    finally show ?thesis using True by (simp add: shl_def)
  qed (simp add: shl_def)
  then show "(of_nat (shl m (nat (e - f))) :: rat) * 2 powi min e f = of_nat m * 2 powi e"
    "(of_nat (shl m (nat (e - f))) :: rat) * 2 powi min f e = of_nat m * 2 powi e"
    by (simp_all add: min.commute)
qed

lemma signed_shl:
  "(of_int (signed s (shl m (nat (e - f)))) :: rat) * 2 powi min e f = raw_val (Finite s m e)"
  "(of_int (signed s (shl m (nat (e - f)))) :: rat) * 2 powi min f e = raw_val (Finite s m e)"
  by (simp_all add: signed_def shl_cross)

lemma raw_le_Finite:
  "raw_le (Finite s m e) (Finite t n f) \<longleftrightarrow> raw_val (Finite s m e) \<le> raw_val (Finite t n f)"
proof -
  define a where "a = signed s (shl m (nat (e - f)))"
  define b where "b = signed t (shl n (nat (f - e)))"
  have "raw_le (Finite s m e) (Finite t n f) \<longleftrightarrow> (of_int a :: rat) \<le> of_int b"
    by (simp add: a_def b_def)
  also have "\<dots> \<longleftrightarrow> (of_int a :: rat) * 2 powi min e f \<le> of_int b * 2 powi min e f"
    by simp
  also have "\<dots> \<longleftrightarrow> raw_val (Finite s m e) \<le> raw_val (Finite t n f)"
    unfolding a_def b_def signed_shl ..
  finally show ?thesis .
qed

lemma raw_le_iff [simp, f64_eval]:
  "\<not> raw_le Nan r" "\<not> raw_le r Nan"
  "raw_le (Infinite s) (Infinite t) \<longleftrightarrow> s \<or> \<not> t"
  "raw_le (Infinite s) (Finite t n f) \<longleftrightarrow> s"
  "raw_le (Finite s m e) (Infinite t) \<longleftrightarrow> \<not> t"
  by (cases r; cases s; cases t; simp)+

declare raw_le.simps [simp del]

lemma raw_le_Finite_eval [f64_eval]:
  "raw_le (Finite s m e) (Finite t n f) \<longleftrightarrow>
     signed s (shl m (nat (e - f))) \<le> signed t (shl n (nat (f - e)))"
  by (simp add: raw_le.simps)

lemma fle_fval: "is_finite x \<Longrightarrow> is_finite y \<Longrightarrow> fle x y \<longleftrightarrow> fval x \<le> fval y"
  by transfer (auto simp: raw_le_Finite simp del: raw_val.simps)

lemma flt_fval: "is_finite x \<Longrightarrow> is_finite y \<Longrightarrow> flt x y \<longleftrightarrow> fval x < fval y"
  by (auto simp: flt_def fle_fval)

lemma fle_nan [simp]: "is_nan x \<Longrightarrow> \<not> fle x y" "is_nan y \<Longrightarrow> \<not> fle x y"
  by (transfer; simp)+

lemma flt_nan [simp]: "is_nan x \<Longrightarrow> \<not> flt x y" "is_nan y \<Longrightarrow> \<not> flt x y"
  by (simp_all add: flt_def)

lemma raw_le_refl: "r \<noteq> Nan \<Longrightarrow> raw_le r r"
  by (cases r) (simp_all add: raw_le_Finite)

lemma fle_refl: "\<not> is_nan x \<Longrightarrow> fle x x"
  by transfer (rule raw_le_refl)

lemma raw_le_total: "x \<noteq> Nan \<Longrightarrow> y \<noteq> Nan \<Longrightarrow> raw_le x y \<or> raw_le y x"
  by (cases x; cases y) (auto simp: raw_le_Finite simp del: raw_val.simps)

lemma raw_le_trans: "raw_le x y \<Longrightarrow> raw_le y z \<Longrightarrow> raw_le x z"
  by (cases x; cases y; cases z) (auto simp: raw_le_Finite simp del: raw_val.simps)

lemma fle_total: "\<not> is_nan x \<Longrightarrow> \<not> is_nan y \<Longrightarrow> fle x y \<or> fle y x"
  by transfer (rule raw_le_total)

lemma fle_trans: "fle x y \<Longrightarrow> fle y z \<Longrightarrow> fle x z"
  by transfer (rule raw_le_trans)

lemma flt_not_fle: "\<not> is_nan x \<Longrightarrow> \<not> is_nan y \<Longrightarrow> flt x y \<longleftrightarrow> \<not> fle y x"
  using fle_total[of x y] by (auto simp: flt_def)

lemma fle_not_nan: "fle x y \<Longrightarrow> \<not> is_nan x \<and> \<not> is_nan y"
  by auto

lemma flt_imp_fle: "flt x y \<Longrightarrow> fle x y"
  by (simp add: flt_def)

lemma is_finite_not_nan: "is_finite x \<Longrightarrow> \<not> is_nan x"
  by transfer auto

section \<open>Non-negative values and monotone operations\<close>

text \<open>
  \<open>unsigned x\<close>: the sign bit is clear and \<open>x\<close> is a number. On these values every operation the
  sizing code applies is monotone, infinities included.
\<close>

lift_definition unsigned :: "f64 \<Rightarrow> bool" is
  "\<lambda>r. r = Infinite False \<or> (\<exists>m e. r = Finite False m e)" .

lemma unsigned_not_nan: "unsigned x \<Longrightarrow> \<not> is_nan x"
  by transfer auto

lemma rounds_to_le:
  assumes "rounds_to False v r" "rounds_to False w r'" "v \<le> w" shows "raw_le r r'"
  using assms by (auto simp: rounds_to_def raw_le_Finite split: if_splits)

lemma rounds_to_unsigned:
  "rounds_to False v r \<Longrightarrow> r = Infinite False \<or> (\<exists>m e. r = Finite False m e)"
  by (auto simp: rounds_to_def split: if_splits)

lemma round_raw_mono:
  assumes "0 < d" "0 < d'" "frac n d \<le> frac n' d'"
  shows "raw_le (round_raw False n d) (round_raw False n' d')"
proof (rule rounds_to_le[OF round_raw_spec round_raw_spec])
  show "rval (frac n d) \<le> rval (frac n' d')" using assms(3) by (intro rval_mono) simp_all
qed (use assms in simp_all)

lemma round_raw_unsigned:
  "0 < d \<Longrightarrow> round_raw False n d = Infinite False \<or> (\<exists>m e. round_raw False n d = Finite False m e)"
  using rounds_to_unsigned[OF round_raw_spec] .

lemma unsigned_of_frac: "0 < d \<Longrightarrow> unsigned (of_frac False n d)"
  by transfer (rule round_raw_unsigned)

lemma of_frac_mono:
  "0 < d \<Longrightarrow> 0 < d' \<Longrightarrow> frac n d \<le> frac n' d' \<Longrightarrow> fle (of_frac False n d) (of_frac False n' d')"
  by transfer (rule round_raw_mono)

lemma frac_dyadic: "frac (shl k (nat e)) (2 ^ nat (- e)) = of_nat k * 2 powi e"
proof (cases "0 \<le> e")
  case True
  then show ?thesis by (simp add: shl_def powi_nat)
next
  case False
  then show ?thesis by (simp add: shl_def powi_neg)
qed

lemma rounds_canonical:
  "canonical (Finite s m e) \<Longrightarrow> rounds_to s (of_nat m * 2 powi e) (Finite s m e)"
  using canonical_below[of s m e] by (auto simp: rounds_to_def)

lemma round_raw_canonical:
  assumes "canonical (Finite s m e)" "0 < d" "frac n d = of_nat m * 2 powi e"
  shows "round_raw s n d = Finite s m e"
  using round_raw_spec[of d s n] rounds_canonical[OF assms(1)] assms
  by (auto simp: rval_canonical[OF assms(1)] intro: rounds_to_unique)

lemma shl_pos [simp]: "0 < shl n k \<longleftrightarrow> 0 < n"
  by (simp add: shl_def)

lemma raw_div_Finite:
  "0 < n \<Longrightarrow> raw_div (Finite s m e) (Finite t n f) =
     round_raw (s \<noteq> t) (shl m (nat (e - f))) (shl n (nat (f - e)))"
  by (auto simp: shl_def round_raw_def)

lemma raw_mul_Finite:
  "raw_mul (Finite s m e) (Finite t n f) = round_dyadic (s \<noteq> t) (m * n) (e + f)"
  by (auto simp: shl_def round_raw_def round_dyadic_def)

lemma frac_div:
  "0 < n \<Longrightarrow> frac (shl m (nat (e - f))) (shl n (nat (f - e))) =
     (of_nat m * 2 powi e) / (of_nat n * 2 powi f)"
proof -
  assume "0 < n"
  have "frac (shl m (nat (e - f))) (shl n (nat (f - e))) =
    (of_nat (shl m (nat (e - f))) * 2 powi min e f) / (of_nat (shl n (nat (f - e))) * 2 powi min e f)"
    by simp
  then show ?thesis unfolding shl_cross .
qed

definition round_half_up :: "nat \<Rightarrow> int \<Rightarrow> nat" where
  "round_half_up m e = (if 0 \<le> e \<or> m = 0 then shl m (nat e)
     else (2 * m + 2 ^ nat (- e)) div (2 * 2 ^ nat (- e)))"

lemma raw_round_Finite:
  assumes "canonical (Finite s m e)"
  shows "raw_round (Finite s m e) = round_raw s (round_half_up m e) 1"
proof (cases "0 \<le> e \<or> m = 0")
  case True
  have "frac (shl m (nat e)) 1 = of_nat m * 2 powi e"
    using True by (auto simp: shl_def powi_nat)
  with round_raw_canonical[OF assms, of 1] show ?thesis
    using True by (simp add: round_half_up_def)
qed (simp add: round_half_up_def)

lemma round_half_up_floor:
  "int (round_half_up m e) = \<lfloor>of_nat m * 2 powi e + 1 / 2 :: rat\<rfloor>"
proof (cases "0 \<le> e \<or> m = 0")
  case True
  then have "of_nat m * 2 powi e = (of_nat (shl m (nat e)) :: rat)"
    by (auto simp: shl_def powi_nat)
  moreover have "\<lfloor>of_nat k + 1 / 2 :: rat\<rfloor> = int k" for k by linarith
  ultimately show ?thesis using True by (simp add: round_half_up_def)
next
  case False
  define b :: nat where "b = 2 ^ nat (- e)"
  have b: "0 < b" by (simp add: b_def)
  have "of_nat m * 2 powi e + 1 / 2 = (of_nat (2 * m + b) / of_nat (2 * b) :: rat)"
    using False b by (simp add: powi_neg b_def[symmetric] field_simps)
  then show ?thesis using False
    by (simp add: round_half_up_def b_def[symmetric] floor_divide_of_nat_eq
        del: of_nat_add of_nat_mult)
qed

lemma round_half_up_mono:
  "(of_nat m * 2 powi e :: rat) \<le> of_nat n * 2 powi f \<Longrightarrow> round_half_up m e \<le> round_half_up n f"
  using floor_mono[of "of_nat m * 2 powi e + 1 / 2 :: rat" "of_nat n * 2 powi f + 1 / 2"]
  by (simp flip: round_half_up_floor)

lemma raw_val_nonneg: "(0 :: rat) \<le> of_nat m * 2 powi e"
  by (simp add: less_imp_le)

lemma raw_le_unsigned:
  "raw_le (Finite False m e) (Finite False n f) \<longleftrightarrow> (of_nat m * 2 powi e :: rat) \<le> of_nat n * 2 powi f"
  by (simp add: raw_le_Finite)

text \<open>Each operation on unsigned values is one rounding of a rational.\<close>

lemma raw_div_unsigned:
  assumes "0 < n"
  shows "rounds_to False (rval ((of_nat m * 2 powi e) / (of_nat n * 2 powi f)))
    (raw_div (Finite False m e) (Finite False n f))"
  using assms round_raw_spec[of "shl n (nat (f - e))" False "shl m (nat (e - f))"]
  by (simp add: raw_div_Finite frac_div del: raw_div.simps)

lemma raw_mul_unsigned:
  "rounds_to False (rval ((of_nat m * 2 powi e) * (of_nat n * 2 powi f)))
    (raw_mul (Finite False m e) (Finite False n f))"
  using round_raw_spec[of "2 ^ nat (- (e + f))" False "shl (m * n) (nat (e + f))"]
  unfolding frac_dyadic
  by (simp add: raw_mul_Finite round_dyadic_def power_int_add ac_simps del: raw_mul.simps)

lemma raw_round_unsigned:
  assumes "canonical (Finite False m e)"
  shows "rounds_to False (rval (of_nat (round_half_up m e))) (raw_round (Finite False m e))"
  using round_raw_spec[of 1 False "round_half_up m e"] assms
  by (simp add: raw_round_Finite del: raw_round.simps canonical_simps)

lemma flt_zero_iff:
  "flt f64_zero x \<longleftrightarrow> raw_of x = Infinite False \<or> (\<exists>m e. raw_of x = Finite False m e \<and> 0 < m)"
proof -
  have z: "raw_of f64_zero = Finite False 0 (-1074)"
    unfolding f64_zero_def by transfer (simp add: round_raw_def)
  have le: "raw_le (Finite False 0 (-1074)) r \<and> \<not> raw_le r (Finite False 0 (-1074)) \<longleftrightarrow>
      r = Infinite False \<or> (\<exists>m e. r = Finite False m e \<and> 0 < m)" for r
  proof (cases r)
    case (Finite s m e)
    have "(of_nat m * 2 powi e :: rat) \<le> 0 \<longleftrightarrow> m = 0"
      using powi_pos[of e] by (auto simp: mult_le_0_iff simp del: powi_pos)
    with Finite raw_val_nonneg[of m e] show ?thesis by (cases s) (simp_all add: raw_le_Finite)
  qed auto
  show ?thesis unfolding flt_def fle.rep_eq z by (rule le)
qed

lemma unsigned_if_pos: "flt f64_zero x \<Longrightarrow> unsigned x"
  unfolding flt_zero_iff unsigned.rep_eq by auto

lemma unsigned_zero [simp]: "unsigned f64_zero"
  by (simp add: f64_zero_def unsigned_of_frac)

lemma positive_finiteE:
  assumes "is_finite x" "flt f64_zero x"
  obtains m e where "raw_of x = Finite False m e" "0 < m"
  using assms by (auto simp: flt_zero_iff is_finite.rep_eq)

lemma fdiv_mono:
  assumes "unsigned x" "unsigned y" "fle x y" "is_finite s" "flt f64_zero s"
  shows "fle (fdiv x s) (fdiv y s)" "unsigned (fdiv x s)"
proof -
  obtain n f where s: "raw_of s = Finite False n f" "0 < n" using positive_finiteE[OF assms(4,5)] .
  have u: "unsigned (fdiv z s)" if "unsigned z" for z
    using that
    unfolding unsigned.rep_eq fdiv.rep_eq s(1)
    by (elim disjE exE) (simp, simp only: rounds_to_unsigned[OF raw_div_unsigned[OF s(2)]])
  then show "unsigned (fdiv x s)" using assms(1) .
  show "fle (fdiv x s) (fdiv y s)"
  proof (cases "raw_of y = Infinite False")
    case True
    then have "raw_of (fdiv y s) = Infinite False" by (simp add: fdiv.rep_eq s)
    with u[OF assms(1)] show ?thesis by (auto simp: fle.rep_eq unsigned.rep_eq)
  next
    case False
    with assms(1,2,3) obtain m e k g where x: "raw_of x = Finite False m e"
      and y: "raw_of y = Finite False k g" by (auto simp: unsigned.rep_eq fle.rep_eq)
    have le: "(of_nat m * 2 powi e :: rat) / (of_nat n * 2 powi f) \<le> (of_nat k * 2 powi g) / (of_nat n * 2 powi f)"
      using assms(3) s(2) by (intro divide_right_mono) (simp_all add: fle.rep_eq x y raw_le_unsigned less_imp_le)
    have "rval ((of_nat m * 2 powi e) / (of_nat n * 2 powi f)) \<le> rval ((of_nat k * 2 powi g) / (of_nat n * 2 powi f))"
      by (rule rval_mono[OF _ le]) (simp add: less_imp_le)
    then show ?thesis
      unfolding fle.rep_eq fdiv.rep_eq x y s(1)
      by (rule rounds_to_le[OF raw_div_unsigned[OF s(2)] raw_div_unsigned[OF s(2)]])
  qed
qed

lemma fmul_mono:
  assumes "unsigned x" "unsigned y" "fle x y" "is_finite s" "flt f64_zero s"
  shows "fle (fmul x s) (fmul y s)" "unsigned (fmul x s)"
proof -
  obtain n f where s: "raw_of s = Finite False n f" "0 < n" using positive_finiteE[OF assms(4,5)] .
  have u: "unsigned (fmul z s)" if "unsigned z" for z
    using that
    unfolding unsigned.rep_eq fmul.rep_eq s(1)
    by (elim disjE exE) (use s(2) in simp, simp only: rounds_to_unsigned[OF raw_mul_unsigned])
  then show "unsigned (fmul x s)" using assms(1) .
  show "fle (fmul x s) (fmul y s)"
  proof (cases "raw_of y = Infinite False")
    case True
    then have "raw_of (fmul y s) = Infinite False" using s(2) by (simp add: fmul.rep_eq s(1))
    with u[OF assms(1)] show ?thesis by (auto simp: fle.rep_eq unsigned.rep_eq)
  next
    case False
    with assms(1,2,3) obtain m e k g where x: "raw_of x = Finite False m e"
      and y: "raw_of y = Finite False k g" by (auto simp: unsigned.rep_eq fle.rep_eq)
    have le: "(of_nat m * 2 powi e :: rat) * (of_nat n * 2 powi f) \<le> (of_nat k * 2 powi g) * (of_nat n * 2 powi f)"
      using assms(3) s(2) by (intro mult_right_mono) (simp_all add: fle.rep_eq x y raw_le_unsigned less_imp_le)
    have "rval ((of_nat m * 2 powi e) * (of_nat n * 2 powi f)) \<le> rval ((of_nat k * 2 powi g) * (of_nat n * 2 powi f))"
      by (rule rval_mono[OF _ le]) (simp add: less_imp_le)
    then show ?thesis
      unfolding fle.rep_eq fmul.rep_eq x y s(1)
      by (rule rounds_to_le[OF raw_mul_unsigned raw_mul_unsigned])
  qed
qed

lemma fround_mono:
  assumes "unsigned x" "unsigned y" "fle x y"
  shows "fle (fround x) (fround y)" "unsigned (fround x)"
proof -
  have u: "unsigned (fround z)" if "unsigned z" for z
    using that canonical_raw_of[of z]
    unfolding unsigned.rep_eq fround.rep_eq
    by (elim disjE exE) (simp, simp only: rounds_to_unsigned[OF raw_round_unsigned])
  then show "unsigned (fround x)" using assms(1) .
  show "fle (fround x) (fround y)"
  proof (cases "raw_of y = Infinite False")
    case True
    then have "raw_of (fround y) = Infinite False" by (simp add: fround.rep_eq)
    with u[OF assms(1)] show ?thesis by (auto simp: fle.rep_eq unsigned.rep_eq)
  next
    case False
    with assms(1,2,3) obtain m e k g where x: "raw_of x = Finite False m e"
      and y: "raw_of y = Finite False k g" by (auto simp: unsigned.rep_eq fle.rep_eq)
    have c: "canonical (Finite False m e)" "canonical (Finite False k g)"
      using canonical_raw_of[of x] canonical_raw_of[of y] by (simp_all only: x y)
    have "round_half_up m e \<le> round_half_up k g"
      using assms(3) by (intro round_half_up_mono) (simp add: fle.rep_eq x y raw_le_unsigned)
    then have "rval (of_nat (round_half_up m e)) \<le> rval (of_nat (round_half_up k g))"
      by (intro rval_mono) simp_all
    then show ?thesis
      unfolding fle.rep_eq fround.rep_eq x y
      by (rule rounds_to_le[OF raw_round_unsigned[OF c(1)] raw_round_unsigned[OF c(2)]])
  qed
qed

lemma is_finite_f64_of_raw [f64_eval]:
  "canonical (Finite s m e) \<Longrightarrow> is_finite (f64_of_raw (Finite s m e))"
  by (simp add: is_finite.rep_eq f64_of_raw_inverse)

lemma unsigned_ops:
  "unsigned x \<Longrightarrow> is_finite s \<Longrightarrow> flt f64_zero s \<Longrightarrow> unsigned (fdiv x s)"
  "unsigned x \<Longrightarrow> is_finite s \<Longrightarrow> flt f64_zero s \<Longrightarrow> unsigned (fmul x s)"
  "unsigned x \<Longrightarrow> unsigned (fround x)"
  using fdiv_mono(2)[of x x s] fmul_mono(2)[of x x s] fround_mono(2)[of x x]
  by (simp_all add: fle_refl unsigned_not_nan)

lemma zero_le_unsigned: "unsigned x \<Longrightarrow> fle f64_zero x"
proof -
  have "raw_of f64_zero = Finite False 0 (-1074)"
    unfolding f64_zero_def by transfer (simp add: round_raw_def)
  then show "unsigned x \<Longrightarrow> fle f64_zero x"
    unfolding unsigned.rep_eq fle.rep_eq by (auto simp: raw_le_unsigned raw_val_nonneg)
qed

lemma not_fle_zero_pos: "\<not> is_nan x \<Longrightarrow> \<not> fle x f64_zero \<Longrightarrow> flt f64_zero x"
  by (simp add: flt_not_fle unsigned_not_nan)

lemma fclamp_Inr:
  assumes "fclamp x lo hi = Inr y" "\<not> is_nan x"
  shows "fle lo y" "fle y hi" "\<not> is_nan y"
proof -
  have lh: "fle lo hi" using assms(1) by (auto simp: fclamp_def split: if_splits)
  have y: "y = (let z = if flt x lo then lo else x in if flt hi z then hi else z)"
    using assms(1) lh by (simp add: fclamp_def Let_def)
  note n = fle_not_nan[OF lh]
  have "fle lo lo" "fle hi hi" "\<not> flt x lo \<Longrightarrow> fle lo x" "\<not> flt hi x \<Longrightarrow> fle x hi" "\<not> flt hi lo"
    using n assms(2) lh by (simp_all add: fle_refl flt_not_fle)
  then have "fle lo y \<and> fle y hi"
    using lh by (simp add: y Let_def)
  then show "fle lo y" "fle y hi" "\<not> is_nan y" by auto
qed

lemma fclamp_mono:
  assumes "fclamp x lo hi = Inr y" "fclamp x' lo hi = Inr y'" "fle x x'" shows "fle y y'"
proof -
  have n: "\<not> is_nan x" "\<not> is_nan x'" using fle_not_nan[OF assms(3)] by auto
  have lh: "fle lo hi" using assms(1) by (auto simp: fclamp_def split: if_splits)
  note b = fclamp_Inr[OF assms(1) n(1)] fclamp_Inr[OF assms(2) n(2)]
  consider "y = lo" | "y' = hi" | "y = x" "y' = x'" | "y = x" "y' = lo" "flt x' lo"
    | "y = hi" "flt hi x" "y' = x'" | "y = hi" "flt hi x" "y' = lo" "flt x' lo"
    using assms(1,2) lh flt_def[of hi lo] by (auto simp: fclamp_def Let_def split: if_splits)
  then show ?thesis
  proof cases
    case 4
    then show ?thesis using assms(3) fle_trans flt_imp_fle by blast
  next
    case 5
    then show ?thesis using assms(3) fle_trans flt_imp_fle by blast
  next
    case 6
    then show ?thesis using assms(3) fle_trans flt_imp_fle by blast
  qed (use b assms(3) in auto)
qed

lemma fmin_fmax_bounds:
  assumes "unsigned u" "\<not> is_nan x"
  shows "fle (fmax (fmin x u) f64_zero) u" "\<not> is_nan (fmax (fmin x u) f64_zero)"
  using assms unsigned_not_nan[OF assms(1)] zero_le_unsigned[OF assms(1)] fle_refl
  by (auto simp: fmin_def fmax_def flt_not_fle unsigned_not_nan)

lemma flt_fle_trans: "flt x y \<Longrightarrow> fle y z \<Longrightarrow> flt x z"
  unfolding flt_def using fle_trans by blast

end
