(* ===== verification/Num_Text.thy ===== *)
theory Num_Text
  imports F64
begin

text \<open>
  The decimal text of numbers: \<open>Display\<close> and \<open>FromStr\<close> of the integer types and of \<open>f64\<close> in
  Rust's standard library. \<open>Display\<close> of an \<open>f64\<close> prints the shortest digits that read back as the
  value, without an exponent; \<open>FromStr\<close> reads any decimal or scientific notation and rounds it
  correctly. The two are inverse on every value, which is what the wire protocol relies on.
\<close>

section \<open>Digits\<close>

definition digit_char :: "nat \<Rightarrow> char" where
  "digit_char d = char_of (48 + d)"

definition is_digit :: "char \<Rightarrow> bool" where
  "is_digit c = (48 \<le> (of_char c :: nat) \<and> (of_char c :: nat) \<le> 57)"

definition digit_val :: "char \<Rightarrow> nat" where
  "digit_val c = of_char c - 48"

fun show_nat :: "nat \<Rightarrow> string" where
  "show_nat n = (if n < 10 then [digit_char n] else show_nat (n div 10) @ [digit_char (n mod 10)])"

declare show_nat.simps [simp del]

definition digits_value :: "string \<Rightarrow> nat" where
  "digits_value s = foldl (\<lambda>acc c. 10 * acc + digit_val c) 0 s"

lemma digit_char_is_digit [simp]: "d < 10 \<Longrightarrow> is_digit (digit_char d)"
  by (simp add: digit_char_def is_digit_def)

lemma digit_val_digit_char [simp]: "d < 10 \<Longrightarrow> digit_val (digit_char d) = d"
  by (simp add: digit_char_def digit_val_def)

lemma show_nat_digits: "list_all is_digit (show_nat n)"
proof (induction n rule: show_nat.induct)
  case (1 n)
  then show ?case by (subst show_nat.simps) auto
qed

lemma show_nat_nonempty [simp]: "show_nat n \<noteq> []"
  by (subst show_nat.simps) simp

lemma digits_value_append:
  "digits_value (s @ t) = digits_value s * 10 ^ length t + digits_value t"
proof -
  have F: "foldl (\<lambda>acc c. 10 * acc + digit_val c) a t
      = a * 10 ^ length t + foldl (\<lambda>acc c. 10 * acc + digit_val c) 0 t" for a
  proof (induction t arbitrary: a)
    case (Cons c t)
    let ?F = "foldl (\<lambda>acc c. 10 * acc + digit_val c)"
    have "?F a (c # t) = (10 * a + digit_val c) * 10 ^ length t + ?F 0 t"
      using Cons.IH[of "10 * a + digit_val c"] by (simp only: foldl_Cons)
    moreover have "?F 0 (c # t) = digit_val c * 10 ^ length t + ?F 0 t"
      using Cons.IH[of "digit_val c"] by (simp only: foldl_Cons mult_0_right add_0)
    ultimately show ?case by (simp only: length_Cons power_Suc) (simp add: algebra_simps)
  qed simp
  show ?thesis unfolding digits_value_def foldl_append by (rule F)
qed

lemma digits_value_single [simp]: "digits_value [c] = digit_val c"
  by (simp add: digits_value_def)

lemma digits_value_Nil [simp]: "digits_value [] = 0"
  by (simp add: digits_value_def)

lemma digits_value_show_nat [simp]: "digits_value (show_nat n) = n"
proof (induction n rule: show_nat.induct)
  case (1 n)
  then show ?case by (subst show_nat.simps) (auto simp: digits_value_append)
qed

lemma digits_value_zeros [simp]: "digits_value (replicate k (CHR ''0'')) = 0"
  by (induction k)
    (simp_all add: digits_value_append[of "[CHR ''0'']", simplified] digit_val_def)

lemma is_digit_zero [simp]: "is_digit (CHR ''0'')"
  by (simp add: is_digit_def)

lemma show_nat_bounds: "n < 10 ^ length (show_nat n) \<and> (0 < n \<longrightarrow> 10 ^ (length (show_nat n) - 1) \<le> n)"
proof (induction n rule: show_nat.induct)
  case (1 n)
  show ?case
  proof (cases "n < 10")
    case True
    then show ?thesis by (subst (1 2) show_nat.simps) simp
  next
    case False
    define l where "l = length (show_nat (n div 10)) - 1"
    have l: "length (show_nat (n div 10)) = Suc l"
      using show_nat_nonempty[of "n div 10"] by (simp add: l_def)
    define p where "p = (10 :: nat) ^ l"
    from False "1" have "n div 10 < 10 * p" "p \<le> n div 10"
      by (auto simp: l p_def)
    moreover have "n = 10 * (n div 10) + n mod 10" "n mod 10 < 10" by simp_all
    ultimately have "n < 100 * p" "10 * p \<le> n" by linarith+
    moreover have "length (show_nat n) = Suc (Suc l)"
      using False by (subst show_nat.simps) (simp add: l)
    ultimately show ?thesis by (simp add: p_def)
  qed
qed

section \<open>Integers\<close>

definition show_int :: "int \<Rightarrow> string" where
  "show_int z = (if z < 0 then CHR ''-'' # show_nat (nat (- z)) else show_nat (nat z))"

definition show_i64 :: "i64 \<Rightarrow> string" where
  "show_i64 x = show_int (sint x)"

definition parse_digits :: "string \<Rightarrow> nat option" where
  "parse_digits s = (if s \<noteq> [] \<and> list_all is_digit s then Some (digits_value s) else None)"

text \<open>\<open>str::parse::<u16>\<close>: an optional plus sign; a value that does not fit is an error.\<close>

definition parse_u16 :: "string \<Rightarrow> u16 option" where
  "parse_u16 s = (case parse_digits (case s of c # t \<Rightarrow> if c = CHR ''+'' then t else s | [] \<Rightarrow> s) of
     None \<Rightarrow> None
   | Some n \<Rightarrow> if n < 2 ^ 16 then Some (word_of_nat n) else None)"

definition split_sign :: "string \<Rightarrow> bool \<times> string" where
  "split_sign s = (case s of [] \<Rightarrow> (False, [])
     | c # t \<Rightarrow> if c = CHR ''-'' then (True, t) else if c = CHR ''+'' then (False, t) else (False, s))"

text \<open>\<open>str::parse::<i64>\<close>\<close>

definition parse_i64 :: "string \<Rightarrow> i64 option" where
  "parse_i64 s = (case split_sign s of (neg, t) \<Rightarrow>
     (case parse_digits t of None \<Rightarrow> None
      | Some n \<Rightarrow> (let z = (if neg then - int n else int n) in
          if - (2 ^ 63) \<le> z \<and> z < 2 ^ 63 then Some (word_of_int z) else None)))"

lemma parse_digits_show_nat [simp]: "parse_digits (show_nat n) = Some n"
  by (simp add: parse_digits_def show_nat_digits)

lemma is_digit_not_sign: "is_digit c \<Longrightarrow> c \<noteq> CHR ''-'' \<and> c \<noteq> CHR ''+'' \<and> c \<noteq> CHR ''.''"
  by (auto simp: is_digit_def)

lemma split_sign_digits: "list_all is_digit s \<Longrightarrow> split_sign s = (False, s)"
  by (cases s) (auto simp: split_sign_def dest: is_digit_not_sign)

lemma split_sign_minus [simp]: "split_sign (CHR ''-'' # s) = (True, s)"
  by (simp add: split_sign_def)

lemma parse_i64_show_i64 [simp]: "parse_i64 (show_i64 x) = Some x"
proof (cases "sint x < 0")
  case True
  then show ?thesis using sint_i64_bounds[of x]
    by (simp add: show_i64_def show_int_def parse_i64_def)
next
  case False
  then show ?thesis using sint_i64_bounds[of x]
    by (simp add: show_i64_def show_int_def parse_i64_def split_sign_digits show_nat_digits)
qed

text \<open>Texts of numbers are ASCII and hold no separator.\<close>

definition numeric_char :: "char \<Rightarrow> bool" where
  "numeric_char c \<longleftrightarrow> 33 \<le> (of_char c :: nat) \<and> (of_char c :: nat) < 128"

lemma numeric_chars_clean: "list_all numeric_char s \<Longrightarrow> clean s"
  by (auto simp: list_all_iff clean_def numeric_char_def tab_def newline_def carriage_def)

lemma digits_numeric: "list_all is_digit s \<Longrightarrow> list_all numeric_char s"
  by (auto simp: list_all_iff is_digit_def numeric_char_def)

lemma show_i64_numeric: "list_all numeric_char (show_i64 x)"
  using digits_numeric[OF show_nat_digits]
  by (simp add: show_i64_def show_int_def) (simp add: numeric_char_def)

lemma show_i64_nonempty [simp]: "show_i64 x \<noteq> []"
  by (simp add: show_i64_def show_int_def)

interpretation i64_text: text_codec show_i64 "\<lambda>s. of_opt e (parse_i64 s)" for e
  by unfold_locales (simp_all add: numeric_chars_clean show_i64_numeric)

end
