(* ===== verification/F64_Text.thy ===== *)
theory F64_Text
  imports Num_Text
begin

text \<open>
  \<open>Display\<close> and \<open>FromStr\<close> of \<open>f64\<close>. Printing takes the shortest significand of at most 17
  decimal digits that reads back as the value (of two, the closer one, upwards in the middle) and
  writes it in positional notation; reading accepts the grammar of \<open>core::num::dec2flt\<close> and rounds
  once. Seventeen digits always suffice, so reading what was printed gives the value back.
\<close>

section \<open>Reading\<close>

text \<open>The double nearest to \<open>n * 10 ^ k\<close>.\<close>

definition decimal_f64 :: "bool \<Rightarrow> nat \<Rightarrow> int \<Rightarrow> f64" where
  "decimal_f64 s n k = of_frac s (n * 10 ^ nat k) (10 ^ nat (- k))"

definition parse_exponent :: "string \<Rightarrow> int option" where
  "parse_exponent s = (case split_sign s of (neg, t) \<Rightarrow>
     (case parse_digits t of None \<Rightarrow> None | Some n \<Rightarrow> Some (if neg then - int n else int n)))"

definition parse_number :: "bool \<Rightarrow> string \<Rightarrow> f64 option" where
  "parse_number s t =
    (let ip = takeWhile is_digit t; r = dropWhile is_digit t;
         fp = (case r of c # u \<Rightarrow> if c = CHR ''.'' then takeWhile is_digit u else [] | [] \<Rightarrow> []);
         r2 = (case r of c # u \<Rightarrow> if c = CHR ''.'' then dropWhile is_digit u else r | [] \<Rightarrow> []);
         n = digits_value (ip @ fp)
     in if ip @ fp = [] then None
        else (case r2 of [] \<Rightarrow> Some (decimal_f64 s n (- int (length fp)))
          | c # u \<Rightarrow> if c = CHR ''e'' \<or> c = CHR ''E''
              then (case parse_exponent u of None \<Rightarrow> None
                    | Some x \<Rightarrow> Some (decimal_f64 s n (x - int (length fp))))
              else None))"

definition parse_inf_nan :: "bool \<Rightarrow> string \<Rightarrow> f64 option" where
  "parse_inf_nan s t = (let l = to_ascii_lowercase t in
     if l = ''nan'' then Some f64_nan
     else if l = ''inf'' \<or> l = ''infinity'' then Some (f64_inf s) else None)"

definition parse_f64_str :: "string \<Rightarrow> f64 option" where
  "parse_f64_str v = (case split_sign v of (s, t) \<Rightarrow>
     (case parse_number s t of Some x \<Rightarrow> Some x | None \<Rightarrow> parse_inf_nan s t))"

section \<open>Printing\<close>

text \<open>The \<open>k\<close> with \<open>10 ^ (k - 1) \<le> a / b < 10 ^ k\<close>.\<close>

definition decimal_point :: "nat \<Rightarrow> nat \<Rightarrow> int" where
  "decimal_point a b =
    (if b \<le> a then int (length (show_nat (a div b)))
     else 1 - int (length (show_nat ((b - 1) div a))))"

text \<open>Numerator and denominator of \<open>a / b\<close> in units of \<open>10 ^ p\<close>.\<close>

definition unit_num :: "nat \<Rightarrow> int \<Rightarrow> nat" where "unit_num a p = a * 10 ^ nat (- p)"
definition unit_den :: "nat \<Rightarrow> int \<Rightarrow> nat" where "unit_den b p = b * 10 ^ nat p"

text \<open>The candidate with \<open>j\<close> digits, if one of the two neighbours reads back as \<open>x\<close>.\<close>

definition digits_candidate :: "f64 \<Rightarrow> bool \<Rightarrow> nat \<Rightarrow> nat \<Rightarrow> nat \<Rightarrow> (nat \<times> int) option" where
  "digits_candidate x s a b j =
    (let p = decimal_point a b - int j;
         f = unit_num a p div unit_den b p; r = unit_num a p mod unit_den b p;
         down = decimal_f64 s f p = x; up = decimal_f64 s (Suc f) p = x
     in if down \<and> up then Some (if unit_den b p \<le> 2 * r then Suc f else f, p)
        else if down then Some (f, p) else if up then Some (Suc f, p) else None)"

fun first_some :: "('a \<Rightarrow> 'b option) \<Rightarrow> 'a list \<Rightarrow> 'b option" where
  "first_some g [] = None"
| "first_some g (x # xs) = (case g x of None \<Rightarrow> first_some g xs | Some y \<Rightarrow> Some y)"

definition shortest_digits :: "f64 \<Rightarrow> bool \<Rightarrow> nat \<Rightarrow> nat \<Rightarrow> nat \<times> int" where
  "shortest_digits x s a b =
    (case first_some (digits_candidate x s a b) [1 ..< 18] of Some c \<Rightarrow> c | None \<Rightarrow> (0, 0))"

function strip_zeros :: "nat \<Rightarrow> int \<Rightarrow> nat \<times> int" where
  "strip_zeros m p = (if m \<noteq> 0 \<and> m mod 10 = 0 then strip_zeros (m div 10) (p + 1) else (m, p))"
  by pat_completeness auto
termination by (relation "measure fst") auto

declare strip_zeros.simps [simp del]

definition positional :: "nat \<Rightarrow> int \<Rightarrow> string" where
  "positional m p =
    (let ds = show_nat m; l = length ds; q = nat (- p) in
     if 0 \<le> p then ds @ replicate (nat p) (CHR ''0'')
     else if q < l then take (l - q) ds @ CHR ''.'' # drop (l - q) ds
     else ''0.'' @ replicate (q - l) (CHR ''0'') @ ds)"

fun show_finite :: "f64 \<Rightarrow> nat \<Rightarrow> int \<Rightarrow> bool \<Rightarrow> string" where
  "show_finite x m e s =
    (if m = 0 then ''0''
     else (case shortest_digits x s (shl m (nat e)) (2 ^ nat (- e)) of (d, p) \<Rightarrow>
       (case strip_zeros d p of (d', p') \<Rightarrow> positional d' p')))"

definition show_f64 :: "f64 \<Rightarrow> string" where
  "show_f64 x = (case raw_of x of
     Nan \<Rightarrow> ''NaN''
   | Infinite s \<Rightarrow> (if s then ''-inf'' else ''inf'')
   | Finite s m e \<Rightarrow> (if s then ''-'' else '''') @ show_finite x m e s)"

section \<open>Decimal fractions as rationals\<close>

lemma pow10_nat: "0 \<le> e \<Longrightarrow> (10 :: rat) powi e = of_nat (10 ^ nat e)"
  by (simp add: power_int_def)

lemma pow10_neg: "e < 0 \<Longrightarrow> (10 :: rat) powi e = 1 / of_nat (10 ^ nat (- e))"
  by (simp add: power_int_def field_simps)

lemma pow10_pos [simp]: "(0 :: rat) < 10 powi e"
  by (rule zero_less_power_int) simp

lemma pow10_add: "(10 :: rat) powi e * 10 powi f = 10 powi (e + f)"
  by (simp add: power_int_add)

lemma frac_decimal: "frac (n * 10 ^ nat k) (10 ^ nat (- k)) = of_nat n * 10 powi k"
  by (cases "0 \<le> k") (simp_all add: pow10_nat pow10_neg)

lemma decimal_f64_cong:
  assumes "of_nat n * 10 powi k = (of_nat m * 10 powi l :: rat)"
  shows "decimal_f64 s n k = decimal_f64 s m l"
proof -
  have "round_raw s (n * 10 ^ nat k) (10 ^ nat (- k)) = round_raw s (m * 10 ^ nat l) (10 ^ nat (- l))"
    using round_raw_spec[of "10 ^ nat (- k)" s "n * 10 ^ nat k"]
      round_raw_spec[of "10 ^ nat (- l)" s "m * 10 ^ nat l"]
    unfolding frac_decimal assms by (auto intro: rounds_to_unique)
  then show ?thesis by (simp add: decimal_f64_def of_frac_def)
qed

lemma decimal_f64_reads:
  assumes "canonical (Finite s m e)" "rval (of_nat n * 10 powi k) = of_nat m * 2 powi e"
  shows "decimal_f64 s n k = f64_of_raw (Finite s m e)"
proof -
  have "round_raw s (n * 10 ^ nat k) (10 ^ nat (- k)) = Finite s m e"
    using round_raw_spec[of "10 ^ nat (- k)" s "n * 10 ^ nat k"] rounds_canonical[OF assms(1)]
    unfolding frac_decimal assms(2) by (auto intro: rounds_to_unique)
  then show ?thesis by (simp add: decimal_f64_def of_frac_def)
qed

lemma floor_frac: "0 < b \<Longrightarrow> (of_nat (a div b) :: rat) \<le> frac a b \<and> frac a b < of_nat (a div b) + 1"
proof -
  assume b: "0 < b"
  have "int (a div b) = \<lfloor>frac a b\<rfloor>" by (simp add: floor_divide_of_nat_eq)
  moreover have "of_int \<lfloor>frac a b\<rfloor> \<le> frac a b" "frac a b < of_int \<lfloor>frac a b\<rfloor> + 1" by linarith+
  ultimately show ?thesis by (metis of_int_of_nat_eq)
qed

lemma show_nat_length:
  assumes "0 < n"
  shows "(10 :: rat) powi (int (length (show_nat n)) - 1) \<le> of_nat n"
    and "of_nat n + 1 \<le> (10 :: rat) powi int (length (show_nat n))"
proof -
  obtain k where k: "length (show_nat n) = Suc k"
    using show_nat_nonempty[of n] by (cases "length (show_nat n)") auto
  have le: "10 ^ k \<le> n" "n + 1 \<le> 10 ^ Suc k"
    using show_nat_bounds[of n] assms by (auto simp: k)
  have "(of_nat (10 ^ k) :: rat) \<le> of_nat n" "(of_nat (n + 1) :: rat) \<le> of_nat (10 ^ Suc k)"
    using le by (simp_all only: of_nat_le_iff)
  moreover have "(10 :: rat) powi (int (Suc k) - 1) = of_nat (10 ^ k)" by simp
  moreover have "(10 :: rat) powi int (Suc k) = of_nat (10 ^ Suc k)"
    by (simp only: power_int_of_nat of_nat_power) simp
  ultimately show "(10 :: rat) powi (int (length (show_nat n)) - 1) \<le> of_nat n"
    "of_nat n + 1 \<le> (10 :: rat) powi int (length (show_nat n))"
    unfolding k by (simp_all only: of_nat_add of_nat_1)
qed

lemma decimal_point_bounds:
  assumes "0 < a" "0 < b"
  shows "10 powi (decimal_point a b - 1) \<le> frac a b" "frac a b < 10 powi decimal_point a b"
proof -
  have "10 powi (decimal_point a b - 1) \<le> frac a b \<and> frac a b < 10 powi decimal_point a b"
  proof (cases "b \<le> a")
    case True
    then have pos: "0 < a div b" using assms by (simp add: div_greater_zero_iff)
    show ?thesis
      using floor_frac[OF assms(2), of a] show_nat_length[OF pos] True
      by (auto simp: decimal_point_def)
  next
    case False
    define n where "n = (b - 1) div a"
    define l where "l = int (length (show_nat n))"
    have pos: "0 < n" using False assms by (simp add: n_def div_greater_zero_iff)
    have n1: "n * a < b" "b \<le> (n + 1) * a"
    proof -
      have q: "n * a + (b - 1) mod a = b - 1" "(b - 1) mod a < a"
        using assms by (simp_all add: n_def)
      then show "n * a < b" using assms by linarith
      show "b \<le> (n + 1) * a" using q assms unfolding add_mult_distrib by linarith
    qed
    have r: "(of_nat n * of_nat a :: rat) < of_nat b" "(of_nat b :: rat) \<le> (of_nat n + 1) * of_nat a"
      using n1 of_nat_less_iff[of "n * a" b, where 'a = rat]
        of_nat_le_iff[of b "(n + 1) * a", where 'a = rat] by (simp_all add: algebra_simps)
    have a0: "(0 :: rat) < of_nat a" and b0: "(0 :: rat) < of_nat b" using assms by simp_all
    have "10 powi (l - 1) * of_nat a \<le> (of_nat n :: rat) * of_nat a"
      using show_nat_length(1)[OF pos] a0 by (simp add: l_def)
    with r(1) have lo: "10 powi (l - 1) * of_nat a < (of_nat b :: rat)" by linarith
    have "(of_nat n + 1) * of_nat a \<le> (10 powi l :: rat) * of_nat a"
      using show_nat_length(2)[OF pos] by (intro mult_right_mono) (simp_all add: l_def)
    with r(2) have hi: "of_nat b \<le> (10 powi l :: rat) * of_nat a" by linarith
    have inv: "(10 :: rat) powi (- l) * 10 powi l = 1" "(10 :: rat) powi (1 - l) * 10 powi (l - 1) = 1"
      by (simp_all add: pow10_add)
    have "10 powi (- l) * of_nat b \<le> (10 powi (- l) * 10 powi l :: rat) * of_nat a"
      using mult_left_mono[OF hi, of "10 powi (- l)"] by (simp add: less_imp_le ac_simps)
    moreover have "(10 powi (1 - l) * 10 powi (l - 1) :: rat) * of_nat a < 10 powi (1 - l) * of_nat b"
      using mult_strict_left_mono[OF lo, of "10 powi (1 - l)"] by (simp add: ac_simps)
    ultimately have "10 powi (- l) * of_nat b \<le> (of_nat a :: rat)"
      "(of_nat a :: rat) < 10 powi (1 - l) * of_nat b" unfolding inv by simp_all
    moreover have "decimal_point a b = 1 - l" using False by (simp add: decimal_point_def l_def n_def)
    ultimately show ?thesis using b0 by (simp add: pos_le_divide_eq pos_divide_less_eq)
  qed
  then show "10 powi (decimal_point a b - 1) \<le> frac a b" "frac a b < 10 powi decimal_point a b"
    by auto
qed

section \<open>Printed digits read back\<close>

lemma frac_units:
  assumes "0 < b"
  shows "frac (unit_num a p) (unit_den b p) = frac a b / 10 powi p" "0 < unit_den b p"
  using assms by (cases "0 \<le> p"; simp add: unit_num_def unit_den_def pow10_nat pow10_neg)+

text \<open>A decimal within half a unit of the 17th digit reads back as the value.\<close>

lemma near_decimal_reads:
  assumes c: "canonical (Finite s m e)" and m: "0 < m"
    and u: "10 ^ 16 * 10 powi p \<le> (of_nat m * 2 powi e :: rat)" and d: "0 < d"
    and near: "\<bar>of_nat d * 10 powi p - of_nat m * 2 powi e\<bar> \<le> (10 powi p / 2 :: rat)"
  shows "decimal_f64 s d p = f64_of_raw (Finite s m e)"
proof (rule decimal_f64_reads[OF c], rule rval_near[OF c m])
  define w where "w = (2 powi e :: rat)"
  define t where "t = (10 powi p :: rat)"
  have w: "0 < w" and t: "0 < t" by (simp_all add: w_def t_def)
  have "(of_nat m :: rat) < 2 ^ 53"
    using c of_nat_less_iff[of m "2 ^ 53", where 'a = rat] by simp
  then have "of_nat m * w < 2 ^ 53 * w" using w by (rule mult_strict_right_mono)
  moreover have "10 ^ 16 * t \<le> of_nat m * w" using u by (simp only: w_def t_def)
  ultimately have tw: "10 ^ 16 * t < 2 ^ 53 * w" by linarith
  show "\<bar>of_nat d * 10 powi p - of_nat m * 2 powi e\<bar> < (2 powi e / 2 :: rat)"
    using near tw w unfolding w_def[symmetric] t_def[symmetric] by simp
  show "(0 :: rat) < of_nat d * 10 powi p" using d by simp
  show "of_nat m * 2 powi e - of_nat d * 10 powi p < (2 powi e / 4 :: rat)" if "m = 2 ^ 52"
  proof -
    have "10 ^ 16 * t \<le> 2 ^ 52 * w" using u that by (simp add: w_def t_def)
    moreover have "of_nat m * w - of_nat d * t \<le> t / 2"
      using near unfolding w_def[symmetric] t_def[symmetric] abs_le_iff by linarith
    ultimately show ?thesis using w unfolding w_def[symmetric] t_def[symmetric] by simp
  qed
qed

lemma digits_candidate_reads:
  "digits_candidate x s a b j = Some (d, p) \<Longrightarrow> decimal_f64 s d p = x"
  by (auto simp: digits_candidate_def Let_def split: if_splits)

lemma digits_candidate_17:
  assumes x: "raw_of x = Finite s m e" and m: "0 < m"
  shows "digits_candidate x s (shl m (nat e)) (2 ^ nat (- e)) 17 \<noteq> None"
proof -
  have c: "canonical (Finite s m e)" using canonical_raw_of[of x] by (simp only: x)
  define a where "a = shl m (nat e)"
  define b :: nat where "b = 2 ^ nat (- e)"
  have ab: "0 < a" "0 < b" using m by (simp_all add: a_def b_def)
  define v where "v = (of_nat m * 2 powi e :: rat)"
  have v: "frac a b = v" unfolding a_def b_def v_def by (rule frac_dyadic)
  define p where "p = decimal_point a b - 17"
  define u where "u = (10 powi p :: rat)"
  define f where "f = unit_num a p div unit_den b p"
  have u: "0 < u" by (simp add: u_def)
  have "10 ^ 16 * u = 10 powi (decimal_point a b - 1)"
    using pow10_add[of 16 p] by (simp add: u_def p_def)
  with decimal_point_bounds(1)[OF ab] v have uv: "10 ^ 16 * u \<le> v" by simp
  have fr: "frac (unit_num a p) (unit_den b p) = v / u"
    unfolding v[symmetric] u_def by (rule frac_units(1)[OF ab(2)])
  have "of_nat f \<le> v / u \<and> v / u < of_nat f + 1"
    using floor_frac[OF frac_units(2)[OF ab(2)], of "unit_num a p" p] unfolding fr f_def[symmetric] .
  then have f: "of_nat f * u \<le> v" "v < (of_nat f + 1) * u"
    using u by (simp_all add: pos_le_divide_eq pos_divide_less_eq)
  have f1: "0 < f"
  proof (rule ccontr)
    assume "\<not> 0 < f"
    with f(2) uv u show False by simp
  qed
  have reads: "decimal_f64 s d p = x"
    if "\<bar>of_nat d * u - v\<bar> \<le> u / 2" "0 < d" for d
    using near_decimal_reads[OF c m _ that(2), of p] that(1) uv x raw_of_inverse[of x]
    by (simp add: u_def v_def)
  have "decimal_f64 s f p = x \<or> decimal_f64 s (Suc f) p = x"
  proof (cases "v - of_nat f * u \<le> u / 2")
    case True
    then show ?thesis using reads[of f] f1 f by (simp add: abs_le_iff)
  next
    case False
    have "of_nat (Suc f) * u = of_nat f * u + u" by (simp add: algebra_simps)
    then have "\<bar>of_nat (Suc f) * u - v\<bar> \<le> u / 2"
      using False f(2) by (simp only: abs_le_iff) (simp add: algebra_simps)
    then show ?thesis using reads[of "Suc f"] by simp
  qed
  then show ?thesis
    unfolding digits_candidate_def a_def[symmetric] b_def[symmetric]
    by (auto simp: Let_def p_def f_def)
qed

lemma first_some_Some: "first_some g xs = Some y \<Longrightarrow> \<exists>x \<in> set xs. g x = Some y"
  by (induction xs) (auto split: option.splits)

lemma first_some_None: "first_some g xs = None \<Longrightarrow> x \<in> set xs \<Longrightarrow> g x = None"
  by (induction xs) (auto split: option.splits)

lemma shortest_digits_reads:
  assumes "raw_of x = Finite s m e" "0 < m"
    and "shortest_digits x s (shl m (nat e)) (2 ^ nat (- e)) = (d, p)"
  shows "decimal_f64 s d p = x"
proof (cases "first_some (digits_candidate x s (shl m (nat e)) (2 ^ nat (- e))) [1 ..< 18]")
  case None
  from first_some_None[OF this, of 17] digits_candidate_17[OF assms(1,2)] show ?thesis by simp
next
  case (Some q)
  with assms(3) show ?thesis
    by (auto simp: shortest_digits_def dest!: first_some_Some digits_candidate_reads)
qed

section \<open>Printing and reading are inverse\<close>

lemma point_not_digit [simp]: "\<not> is_digit (CHR ''.'')"
  by (simp add: is_digit_def)

lemma span_digits:
  assumes "list_all is_digit s"
  shows "takeWhile is_digit s = s" "dropWhile is_digit s = []"
    "takeWhile is_digit (s @ CHR ''.'' # t) = s" "dropWhile is_digit (s @ CHR ''.'' # t) = CHR ''.'' # t"
  using assms by (induction s) simp_all

lemma parse_number_plain:
  "list_all is_digit ip \<Longrightarrow> ip \<noteq> [] \<Longrightarrow> parse_number s ip = Some (decimal_f64 s (digits_value ip) 0)"
  by (simp add: parse_number_def span_digits Let_def)

lemma parse_number_point:
  "list_all is_digit ip \<Longrightarrow> list_all is_digit fp \<Longrightarrow> ip \<noteq> [] \<Longrightarrow>
   parse_number s (ip @ CHR ''.'' # fp) = Some (decimal_f64 s (digits_value (ip @ fp)) (- int (length fp)))"
  by (simp add: parse_number_def span_digits Let_def)

lemma strip_zeros_value:
  "strip_zeros m p = (m', p') \<Longrightarrow> of_nat m' * 10 powi p' = (of_nat m * 10 powi p :: rat)"
proof (induction m p rule: strip_zeros.induct)
  case (1 m p)
  show ?case
  proof (cases "m \<noteq> 0 \<and> m mod 10 = 0")
    case True
    with 1 have "of_nat m' * 10 powi p' = (of_nat (m div 10) * 10 powi (p + 1) :: rat)"
      by (simp add: strip_zeros.simps[of m p])
    also have "10 powi (p + 1) = (10 * 10 powi p :: rat)" by (simp add: power_int_add)
    also have "of_nat (m div 10) * (10 * 10 powi p) = (of_nat (m div 10 * 10) * 10 powi p :: rat)"
      by simp
    also have "m div 10 * 10 = m" using True by (simp add: mod_eq_0_iff_dvd)
    finally show ?thesis .
  next
    case False
    with "1.prems" show ?thesis by (subst (asm) strip_zeros.simps) (simp split: if_splits)
  qed
qed

lemma positional_reads: "parse_number s (positional m p) = Some (decimal_f64 s m p)"
proof -
  define ds where "ds = show_nat m"
  have ds: "list_all is_digit ds" "ds \<noteq> []" "digits_value ds = m"
    by (simp_all add: ds_def show_nat_digits)
  have zs: "list_all is_digit (replicate k (CHR ''0''))" for k
    by (simp add: list_all_iff)
  consider "0 \<le> p" | "p < 0" "nat (- p) < length ds" | "p < 0" "length ds \<le> nat (- p)" by linarith
  then show ?thesis
  proof cases
    case 1
    then have "positional m p = ds @ replicate (nat p) (CHR ''0'')"
      by (simp add: positional_def ds_def Let_def)
    moreover have "decimal_f64 s (digits_value (ds @ replicate (nat p) (CHR ''0''))) 0 = decimal_f64 s m p"
      by (rule decimal_f64_cong) (use 1 ds in \<open>simp add: digits_value_append pow10_nat\<close>)
    ultimately show ?thesis using ds zs by (simp add: parse_number_plain)
  next
    case 2
    define k where "k = length ds - nat (- p)"
    have pos: "positional m p = take k ds @ CHR ''.'' # drop k ds"
      using 2 by (simp add: positional_def ds_def[symmetric] k_def Let_def)
    have "list_all is_digit (take k ds)" "list_all is_digit (drop k ds)" "take k ds \<noteq> []"
      using ds 2 by (auto simp: list_all_iff k_def dest: in_set_takeD in_set_dropD)
    then show ?thesis
      using 2 ds by (simp add: pos parse_number_point k_def)
  next
    case 3
    define z where "z = replicate (nat (- p) - length ds) (CHR ''0'')"
    have pos: "positional m p = ''0'' @ CHR ''.'' # (z @ ds)"
      using 3 by (simp add: positional_def ds_def[symmetric] z_def Let_def)
    have "list_all is_digit (z @ ds)" "list_all is_digit ''0''"
      using ds zs by (simp_all add: z_def)
    then have "parse_number s (positional m p) =
        Some (decimal_f64 s (digits_value (''0'' @ z @ ds)) (- int (length (z @ ds))))"
      unfolding pos by (intro parse_number_point) simp_all
    moreover have "digits_value (''0'' @ z @ ds) = m"
      by (simp only: digits_value_append ds z_def digits_value_zeros) (simp add: digit_val_def)
    moreover have "- int (length (z @ ds)) = p" using 3 by (simp add: z_def)
    ultimately show ?thesis by simp
  qed
qed

lemma positional_head: "\<exists>c t. positional m p = c # t \<and> is_digit c"
proof -
  obtain c t where ct: "show_nat m = c # t" "is_digit c"
    using show_nat_digits[of m] show_nat_nonempty[of m] by (cases "show_nat m") auto
  then show ?thesis by (auto simp: positional_def Let_def take_Cons')
qed

lemma split_sign_digit: "is_digit c \<Longrightarrow> split_sign (c # t) = (False, c # t)"
  by (auto simp: split_sign_def dest: is_digit_not_sign)

lemma show_finite_reads:
  assumes "raw_of x = Finite s m e"
  shows "parse_number s (show_finite x m e s) = Some x \<and> (\<exists>c t. show_finite x m e s = c # t \<and> is_digit c)"
proof (cases "m = 0")
  case True
  with assms canonical_raw_of[of x] have e: "e = -1074" by (simp del: canonical_raw_of)
  have "decimal_f64 s 0 0 = f64_of_raw (Finite s 0 (-1074))"
    by (rule decimal_f64_reads) (simp_all add: rval_def)
  moreover have "parse_number s ''0'' = Some (decimal_f64 s 0 0)"
    using parse_number_plain[of "''0''" s] by (simp add: digit_val_def)
  ultimately show ?thesis using True e assms raw_of_inverse[of x] by simp
next
  case False
  obtain d p where dp: "shortest_digits x s (shl m (nat e)) (2 ^ nat (- e)) = (d, p)" by fastforce
  obtain d' p' where dp': "strip_zeros d p = (d', p')" by fastforce
  have "decimal_f64 s d' p' = decimal_f64 s d p"
    by (rule decimal_f64_cong) (rule strip_zeros_value[OF dp'])
  with shortest_digits_reads[OF assms _ dp] False
  show ?thesis using positional_head[of d' p'] by (auto simp: dp dp' positional_reads)
qed

theorem parse_show_f64 [simp]: "parse_f64_str (show_f64 x) = Some x"
proof (cases "raw_of x")
  case Nan
  then have "x = f64_nan" by (simp add: f64_nan.rep_eq flip: raw_of_inject)
  moreover have "parse_f64_str ''NaN'' = Some f64_nan" by code_simp
  ultimately show ?thesis using Nan by (simp add: show_f64_def)
next
  case (Infinite s)
  then have "x = f64_inf s" by (simp add: f64_inf.rep_eq flip: raw_of_inject)
  moreover have "parse_f64_str ''-inf'' = Some (f64_inf True)"
    "parse_f64_str ''inf'' = Some (f64_inf False)" by code_simp+
  ultimately show ?thesis using Infinite by (simp add: show_f64_def)
next
  case (Finite s m e)
  then show ?thesis
    using show_finite_reads[OF Finite]
    by (cases s) (auto simp: show_f64_def parse_f64_str_def split_sign_digit)
qed

lemma positional_numeric: "list_all numeric_char (positional m p)"
proof -
  have "list_all numeric_char (show_nat m)" by (rule digits_numeric[OF show_nat_digits])
  moreover have "numeric_char (CHR ''0'')" "numeric_char (CHR ''.'')"
    by (simp_all add: numeric_char_def)
  ultimately show ?thesis
    by (auto simp: positional_def Let_def list_all_iff dest: in_set_takeD in_set_dropD)
qed

lemma show_f64_numeric: "list_all numeric_char (show_f64 x)"
proof -
  have "list_all numeric_char (show_finite x m e s)" for m e s
    by (simp add: positional_numeric numeric_char_def split: prod.split)
  then show ?thesis by (auto simp: show_f64_def numeric_char_def split: f64_raw.split)
qed

lemma show_f64_nonempty [simp]: "show_f64 x \<noteq> []"
proof
  assume "show_f64 x = []"
  with parse_show_f64[of x] show False by (simp add: parse_f64_str_def split_sign_def
        parse_number_def parse_inf_nan_def to_ascii_lowercase_def)
qed

interpretation f64_text: text_codec show_f64 "\<lambda>s. of_opt e (parse_f64_str s)" for e
  by unfold_locales (simp_all add: numeric_chars_clean show_f64_numeric)

end
