(* ===== verification/Model.thy ===== *)
theory Model
  imports F64_Text
begin

text \<open>
  The platform-neutral data of \<open>crates/copier-core/src/model.rs\<close>: the enumerations with their
  \<open>Display\<close> and \<open>FromStr\<close>, the master's trade event and its validation, the command sent to a
  follower, the follower's acknowledgement, and the binding that ties a source order to the
  follower's order. Struct fields carry a prefix per struct (\<open>ev_\<close>, \<open>cmd_\<close>, \<open>ack_\<close>, \<open>mb_\<close>).
\<close>

section \<open>Enumerations\<close>

datatype platform = Trinity | Mt4 | Mt5 | CTrader
datatype side = Buy | Sell
datatype trade_action = Open | Modify | Reduce | Close
datatype ack_status = Accepted | Filled | Rejected | Unknown

datatype model_error =
    Missing string
  | InvalidPlatform string
  | InvalidSide string
  | InvalidAction string
  | InvalidAckStatus string
  | InvalidVolume f64

fun platform_to_string :: "platform \<Rightarrow> string" where
  "platform_to_string Trinity = ''trinity''"
| "platform_to_string Mt4 = ''mt4''"
| "platform_to_string Mt5 = ''mt5''"
| "platform_to_string CTrader = ''ctrader''"

definition platform_from_str :: "string \<Rightarrow> model_error + platform" where
  "platform_from_str value =
    (let v = to_ascii_lowercase value in
     if v = ''trinity'' \<or> v = ''trinityr'' then Inr Trinity
     else if v = ''mt4'' then Inr Mt4
     else if v = ''mt5'' then Inr Mt5
     else if v = ''ctrader'' \<or> v = ''c_trader'' then Inr CTrader
     else Inl (InvalidPlatform value))"

fun reversed :: "side \<Rightarrow> side" where
  "reversed Buy = Sell"
| "reversed Sell = Buy"

fun side_to_string :: "side \<Rightarrow> string" where
  "side_to_string Buy = ''buy''"
| "side_to_string Sell = ''sell''"

definition side_from_str :: "string \<Rightarrow> model_error + side" where
  "side_from_str value =
    (let v = to_ascii_lowercase value in
     if v = ''buy'' \<or> v = ''long'' then Inr Buy
     else if v = ''sell'' \<or> v = ''short'' then Inr Sell
     else Inl (InvalidSide value))"

fun action_to_string :: "trade_action \<Rightarrow> string" where
  "action_to_string Open = ''open''"
| "action_to_string Modify = ''modify''"
| "action_to_string Reduce = ''reduce''"
| "action_to_string Close = ''close''"

definition action_from_str :: "string \<Rightarrow> model_error + trade_action" where
  "action_from_str value =
    (let v = to_ascii_lowercase value in
     if v = ''open'' then Inr Open
     else if v = ''modify'' then Inr Modify
     else if v = ''reduce'' \<or> v = ''partial_close'' then Inr Reduce
     else if v = ''close'' then Inr Close
     else Inl (InvalidAction value))"

fun ack_status_to_string :: "ack_status \<Rightarrow> string" where
  "ack_status_to_string Accepted = ''accepted''"
| "ack_status_to_string Filled = ''filled''"
| "ack_status_to_string Rejected = ''rejected''"
| "ack_status_to_string Unknown = ''unknown''"

definition ack_status_from_str :: "string \<Rightarrow> model_error + ack_status" where
  "ack_status_from_str value =
    (let v = to_ascii_lowercase value in
     if v = ''accepted'' then Inr Accepted
     else if v = ''filled'' then Inr Filled
     else if v = ''rejected'' then Inr Rejected
     else if v = ''unknown'' then Inr Unknown
     else Inl (InvalidAckStatus value))"

subsection \<open>The enumerations are keywords of the wire protocol\<close>

lemmas lower_eval = to_ascii_lowercase_def ascii_lower_def Let_def

lemma lower_keywords [simp]:
  "to_ascii_lowercase (platform_to_string p) = platform_to_string p"
  "to_ascii_lowercase (side_to_string s) = side_to_string s"
  "to_ascii_lowercase (action_to_string a) = action_to_string a"
  "to_ascii_lowercase (ack_status_to_string k) = ack_status_to_string k"
  by (cases p; simp add: lower_eval) (cases s; cases a; cases k; simp add: lower_eval)+

lemma clean_keywords:
  "clean (platform_to_string p)" "clean (side_to_string s)"
  "clean (action_to_string a)" "clean (ack_status_to_string k)"
  by (cases p; simp add: clean_def tab_def newline_def carriage_def)
    (cases s; cases a; cases k; simp add: clean_def tab_def newline_def carriage_def)+

interpretation platform_text: keyword_codec platform_to_string "\<lambda>s. mapE g (platform_from_str s)" for g
proof
  show "mapE g (platform_from_str (platform_to_string x)) = Inr x" for x :: platform
    by (cases x) (simp_all add: platform_from_str_def lower_eval)
  show "platform_to_string x \<noteq> []" for x by (cases x) simp_all
qed (auto simp: clean_keywords platform_from_str_def Let_def split: if_splits)

interpretation side_text: keyword_codec side_to_string "\<lambda>s. mapE g (side_from_str s)" for g
proof
  show "mapE g (side_from_str (side_to_string x)) = Inr x" for x
    by (cases x) (simp_all add: side_from_str_def lower_eval)
  show "side_to_string x \<noteq> []" for x by (cases x) simp_all
qed (auto simp: clean_keywords side_from_str_def Let_def split: if_splits)

interpretation action_text: keyword_codec action_to_string "\<lambda>s. mapE g (action_from_str s)" for g
proof
  show "mapE g (action_from_str (action_to_string x)) = Inr x" for x
    by (cases x) (simp_all add: action_from_str_def lower_eval)
  show "action_to_string x \<noteq> []" for x by (cases x) simp_all
qed (auto simp: clean_keywords action_from_str_def Let_def split: if_splits)

interpretation ack_status_text:
  keyword_codec ack_status_to_string "\<lambda>s. mapE g (ack_status_from_str s)" for g
proof
  show "mapE g (ack_status_from_str (ack_status_to_string x)) = Inr x" for x
    by (cases x) (simp_all add: ack_status_from_str_def lower_eval)
  show "ack_status_to_string x \<noteq> []" for x by (cases x) simp_all
qed (auto simp: clean_keywords ack_status_from_str_def Let_def split: if_splits)

section \<open>Events, commands, acknowledgements, bindings\<close>

record trade_event =
  ev_event_id :: string
  ev_source_account_id :: string
  ev_platform :: platform
  ev_action :: trade_action
  ev_source_order_id :: string
  ev_symbol :: string
  ev_side :: "side option"
  ev_volume :: f64
  ev_remaining_volume :: "f64 option"
  ev_price :: "f64 option"
  ev_stop_loss :: "f64 option"
  ev_take_profit :: "f64 option"
  ev_timestamp_unix_ns :: i64
  ev_origin_command_id :: "string option"

definition event_validate :: "trade_event \<Rightarrow> model_error + unit" where
  "event_validate e =
    (if ev_event_id e = [] then Inl (Missing ''event_id'')
     else if ev_source_account_id e = [] then Inl (Missing ''source_account_id'')
     else if ev_source_order_id e = [] then Inl (Missing ''source_order_id'')
     else if ev_symbol e = [] then Inl (Missing ''symbol'')
     else if ev_action e \<in> {Open, Reduce} \<and> fle (ev_volume e) f64_zero
       then Inl (InvalidVolume (ev_volume e))
     else if ev_action e = Open \<and> ev_side e = None then Inl (Missing ''side'')
     else Inr ())"

record execution_command =
  cmd_command_id :: string
  cmd_origin_event_id :: string
  cmd_route_id :: string
  cmd_source_account_id :: string
  cmd_source_order_id :: string
  cmd_target_account_id :: string
  cmd_action :: trade_action
  cmd_target_order_id :: "string option"
  cmd_symbol :: string
  cmd_side :: "side option"
  cmd_volume :: f64
  cmd_source_volume :: f64
  cmd_source_remaining_volume :: "f64 option"
  cmd_price :: "f64 option"
  cmd_stop_loss :: "f64 option"
  cmd_take_profit :: "f64 option"
  cmd_created_unix_ns :: i64

record execution_ack =
  ack_command_id :: string
  ack_account_id :: string
  ack_status :: ack_status
  ack_external_id :: "string option"
  ack_timestamp_unix_ns :: i64
  ack_message :: "string option"

record mirror_binding =
  mb_route_id :: string
  mb_source_account_id :: string
  mb_source_order_id :: string
  mb_target_account_id :: string
  mb_target_order_id :: string
  mb_source_open_volume :: f64
  mb_source_remaining_volume :: f64
  mb_target_open_volume :: f64
  mb_target_remaining_volume :: f64

text \<open>\<open>MirrorBinding::key\<close> joins the three ids with the unit separator \<open>U+001F\<close>.\<close>

definition unit_separator :: char where "unit_separator = CHR 0x1F"

definition binding_key_of :: "string \<Rightarrow> string \<Rightarrow> string \<Rightarrow> string" where
  "binding_key_of source_account_id source_order_id target_account_id =
     source_account_id @ unit_separator # source_order_id @ unit_separator # target_account_id"

definition binding_key :: "mirror_binding \<Rightarrow> string" where
  "binding_key b =
     binding_key_of (mb_source_account_id b) (mb_source_order_id b) (mb_target_account_id b)"

subsection \<open>Lemmas\<close>

lemma reversed_reversed [simp]: "reversed (reversed s) = s"
  by (cases s) simp_all

lemma reversed_neq [simp]: "reversed s \<noteq> s"
  by (cases s) simp_all

lemma event_validate_Inr:
  "event_validate e = Inr () \<longleftrightarrow>
     ev_event_id e \<noteq> [] \<and> ev_source_account_id e \<noteq> [] \<and> ev_source_order_id e \<noteq> [] \<and>
     ev_symbol e \<noteq> [] \<and> (ev_action e \<in> {Open, Reduce} \<longrightarrow> \<not> fle (ev_volume e) f64_zero) \<and>
     (ev_action e = Open \<longrightarrow> ev_side e \<noteq> None)"
  by (auto simp: event_validate_def)

lemma append_sep_cancel:
  "c \<notin> set s \<Longrightarrow> c \<notin> set s' \<Longrightarrow> s @ c # t = s' @ c # t' \<longleftrightarrow> s = s' \<and> t = t'"
proof (induction s arbitrary: s')
  case Nil
  then show ?case by (cases s') auto
next
  case (Cons x s)
  then show ?case by (cases s') auto
qed

lemma binding_key_of_inject:
  assumes "unit_separator \<notin> set a" "unit_separator \<notin> set o'"
    and "unit_separator \<notin> set b" "unit_separator \<notin> set p"
  shows "binding_key_of a o' t = binding_key_of b p u \<longleftrightarrow> a = b \<and> o' = p \<and> t = u"
  using assms by (simp add: binding_key_of_def append_sep_cancel)

end
