(* ===== verification/Routing.thy ===== *)
theory Routing
  imports Model
begin

text \<open>
  Copy rules and the copy engine of \<open>crates/copier-core/src/routing.rs\<close>: validation of a rule, the
  symbol and direction filters, sizing and its rounding to the volume step, the routing table, and
  the construction of the command a follower receives. SHA-256 (the \<open>sha2\<close> crate) is a parameter
  of everything that derives a command id. A \<open>HashMap\<close> of symbols is an association list: the code
  looks keys up and asks whether any entry is bad, which no iteration order changes.
\<close>

section \<open>Rules\<close>

datatype sizing_mode = Mirror | Fixed | Multiplier

record route_rule =
  rr_id :: string
  rr_source_account_id :: string
  rr_target_account_id :: string
  rr_enabled :: bool
  rr_sizing :: sizing_mode
  rr_size_value :: f64
  rr_reverse :: bool
  rr_copy_sl_tp :: bool
  rr_min_volume :: f64
  rr_max_volume :: f64
  rr_volume_step :: f64
  rr_allow_buy :: bool
  rr_allow_sell :: bool
  rr_allow_symbols :: "string list"
  rr_deny_symbols :: "string list"
  rr_symbol_map :: "(string \<times> string) list"
  rr_symbol_prefix :: string
  rr_symbol_suffix :: string
  rr_max_event_age_ms :: u64

datatype route_error =
    InvalidRule string
  | SelfRoute string
  | InvalidVolumePolicy string
  | MissingMirror string
  | InvalidMirror string
  | InvalidSymbolMap string

definition default_true :: bool where "default_true = True"
definition default_one :: f64 where "default_one = of_frac False 1 1"
definition default_max_volume :: f64 where "default_max_volume = of_frac False 100000 1"
definition default_volume_step :: f64 where "default_volume_step = of_frac False 1 100"

text \<open>The rule a configuration gives that names only the ids: every other field has its default.\<close>

definition minimal_rule :: "string \<Rightarrow> string \<Rightarrow> string \<Rightarrow> route_rule" where
  "minimal_rule i source target =
    \<lparr>rr_id = i, rr_source_account_id = source, rr_target_account_id = target,
     rr_enabled = default_true, rr_sizing = Mirror, rr_size_value = default_one,
     rr_reverse = False, rr_copy_sl_tp = default_true, rr_min_volume = f64_zero,
     rr_max_volume = default_max_volume, rr_volume_step = default_volume_step,
     rr_allow_buy = False, rr_allow_sell = False, rr_allow_symbols = [], rr_deny_symbols = [],
     rr_symbol_map = [], rr_symbol_prefix = [], rr_symbol_suffix = [], rr_max_event_age_ms = 0\<rparr>"

definition rule_validate :: "route_rule \<Rightarrow> route_error + unit" where
  "rule_validate r =
    (if rr_id r = [] \<or> rr_source_account_id r = [] \<or> rr_target_account_id r = []
       then Inl (InvalidRule (rr_id r))
     else if rr_source_account_id r = rr_target_account_id r then Inl (SelfRoute (rr_id r))
     else if fle (rr_max_volume r) f64_zero \<or> fle (rr_volume_step r) f64_zero \<or>
             flt (rr_min_volume r) f64_zero
       then Inl (InvalidVolumePolicy (rr_id r))
     else if rr_sizing r \<noteq> Mirror \<and> fle (rr_size_value r) f64_zero
       then Inl (InvalidVolumePolicy (rr_id r))
     else if list_ex (\<lambda>(source, target). trim_is_empty source \<or> trim_is_empty target) (rr_symbol_map r)
       then Inl (InvalidSymbolMap (rr_id r))
     else Inr ())"

definition allows :: "route_rule \<Rightarrow> trade_event \<Rightarrow> bool" where
  "allows r e =
    (if \<not> rr_enabled r then False
     else if rr_allow_symbols r \<noteq> [] \<and> \<not> list_ex (\<lambda>s. s = ev_symbol e) (rr_allow_symbols r) then False
     else if list_ex (\<lambda>s. s = ev_symbol e) (rr_deny_symbols r) then False
     else (case ev_side e of
         Some Buy \<Rightarrow> \<not> (rr_allow_sell r \<and> \<not> rr_allow_buy r)
       | Some Sell \<Rightarrow> \<not> (rr_allow_buy r \<and> \<not> rr_allow_sell r)
       | None \<Rightarrow> True))"

definition target_symbol :: "route_rule \<Rightarrow> string \<Rightarrow> string" where
  "target_symbol r source =
    (case map_of (rr_symbol_map r) source of
       Some mapped \<Rightarrow> mapped
     | None \<Rightarrow> rr_symbol_prefix r @ source @ rr_symbol_suffix r)"

section \<open>Sizing\<close>

definition hundred_million :: f64 where "hundred_million = of_frac False 100000000 1"

definition normalize_step :: "f64 \<Rightarrow> f64 \<Rightarrow> f64" where
  "normalize_step value step =
    (if fle value f64_zero then f64_zero
     else fdiv (fround (fmul (fmul (fround (fdiv value step)) step) hundred_million)) hundred_million)"

definition normalize_open_volume :: "route_rule \<Rightarrow> f64 \<Rightarrow> 'e fault + f64" where
  "normalize_open_volume r raw =
    bindE (fclamp raw (rr_min_volume r) (rr_max_volume r)) (\<lambda>clamped.
      Inr (normalize_step clamped (rr_volume_step r)))"

definition raw_open_volume :: "route_rule \<Rightarrow> f64 \<Rightarrow> f64" where
  "raw_open_volume r source_volume =
    (case rr_sizing r of
       Mirror \<Rightarrow> source_volume
     | Fixed \<Rightarrow> rr_size_value r
     | Multiplier \<Rightarrow> fmul source_volume (rr_size_value r))"

definition open_volume :: "route_rule \<Rightarrow> f64 \<Rightarrow> 'e fault + f64" where
  "open_volume r source_volume = normalize_open_volume r (raw_open_volume r source_volume)"

definition normalize_reduce_volume :: "route_rule \<Rightarrow> f64 \<Rightarrow> f64 \<Rightarrow> f64" where
  "normalize_reduce_volume r raw remaining =
     normalize_step (fmax (fmin raw remaining) f64_zero) (rr_volume_step r)"

section \<open>Command ids\<close>

type_synonym sha256 = "string \<Rightarrow> 8 word list"

definition hex_digit :: "nat \<Rightarrow> char" where
  "hex_digit d = (if d < 10 then char_of (48 + d) else char_of (87 + d))"

definition hex_byte :: "8 word \<Rightarrow> string" where
  "hex_byte b = [hex_digit (unat b div 16), hex_digit (unat b mod 16)]"

definition nul :: char where "nul = CHR 0x00"

definition command_id_input :: "string \<Rightarrow> string \<Rightarrow> string \<Rightarrow> string" where
  "command_id_input event_id route_id target =
     ''copierr:v1'' @ nul # event_id @ nul # route_id @ nul # target"

definition command_id :: "sha256 \<Rightarrow> trade_event \<Rightarrow> route_rule \<Rightarrow> string" where
  "command_id sha e r =
     concat (map hex_byte (take 16
       (sha (command_id_input (ev_event_id e) (rr_id r) (rr_target_account_id r)))))"

section \<open>The copy engine\<close>

record copy_engine =
  routes_by_source :: "string \<rightharpoonup> route_rule list"

definition push_route :: "(string \<rightharpoonup> route_rule list) \<Rightarrow> route_rule \<Rightarrow> (string \<rightharpoonup> route_rule list)" where
  "push_route m r =
    m(rr_source_account_id r \<mapsto>
      (case m (rr_source_account_id r) of None \<Rightarrow> [] | Some rs \<Rightarrow> rs) @ [r])"

fun add_routes :: "(string \<rightharpoonup> route_rule list) \<Rightarrow> route_rule list \<Rightarrow> route_error + (string \<rightharpoonup> route_rule list)" where
  "add_routes m [] = Inr m"
| "add_routes m (r # rs) = bindE (rule_validate r) (\<lambda>_. add_routes (push_route m r) rs)"

definition engine_new :: "route_rule list \<Rightarrow> route_error + copy_engine" where
  "engine_new routes =
     bindE (add_routes Map.empty routes) (\<lambda>m. Inr \<lparr>routes_by_source = m\<rparr>)"

definition routes_for :: "copy_engine \<Rightarrow> string \<Rightarrow> route_rule list" where
  "routes_for eng source_account_id =
     (case routes_by_source eng source_account_id of None \<Rightarrow> [] | Some rs \<Rightarrow> rs)"

definition event_age_ns :: "trade_event \<Rightarrow> i64 \<Rightarrow> u64" where
  "event_age_ns e now = i64_max (i64_saturating_sub now (ev_timestamp_unix_ns e)) 0"

definition stale :: "route_rule \<Rightarrow> trade_event \<Rightarrow> i64 \<Rightarrow> bool" where
  "stale r e now \<longleftrightarrow>
     0 < unat (rr_max_event_age_ms r) \<and>
     unat (u64_saturating_mul (rr_max_event_age_ms r) 1000000) < unat (event_age_ns e now)"

definition require_mirror :: "route_rule \<Rightarrow> mirror_binding option \<Rightarrow> route_error fault + mirror_binding" where
  "require_mirror r mirror = of_opt (Raised (MissingMirror (rr_id r))) mirror"

definition command_target ::
    "trade_event \<Rightarrow> route_rule \<Rightarrow> mirror_binding option \<Rightarrow> route_error fault + string option \<times> f64" where
  "command_target e r mirror =
    (case ev_action e of
       Open \<Rightarrow> bindE (open_volume r (ev_volume e)) (\<lambda>v. Inr (None, v))
     | Modify \<Rightarrow> bindE (require_mirror r mirror) (\<lambda>b.
         Inr (Some (mb_target_order_id b), mb_target_remaining_volume b))
     | Reduce \<Rightarrow> bindE (require_mirror r mirror) (\<lambda>b.
         if fle (mb_source_open_volume b) f64_zero then Inl (Raised (InvalidMirror (rr_id r)))
         else (let ratio = fdiv (ev_volume e) (mb_source_open_volume b);
                   target_reduce = fmul (mb_target_open_volume b) ratio
               in Inr (Some (mb_target_order_id b),
                    normalize_reduce_volume r target_reduce (mb_target_remaining_volume b))))
     | Close \<Rightarrow> bindE (require_mirror r mirror) (\<lambda>b.
         Inr (Some (mb_target_order_id b), mb_target_remaining_volume b)))"

definition make_command ::
    "sha256 \<Rightarrow> trade_event \<Rightarrow> route_rule \<Rightarrow> string option \<Rightarrow> f64 \<Rightarrow> i64 \<Rightarrow> execution_command" where
  "make_command sha e r target_order_id volume now =
    \<lparr>cmd_command_id = command_id sha e r,
     cmd_origin_event_id = ev_event_id e,
     cmd_route_id = rr_id r,
     cmd_source_account_id = ev_source_account_id e,
     cmd_source_order_id = ev_source_order_id e,
     cmd_target_account_id = rr_target_account_id r,
     cmd_action = ev_action e,
     cmd_target_order_id = target_order_id,
     cmd_symbol = target_symbol r (ev_symbol e),
     cmd_side = map_option (\<lambda>s. if rr_reverse r then reversed s else s) (ev_side e),
     cmd_volume = volume,
     cmd_source_volume = ev_volume e,
     cmd_source_remaining_volume = ev_remaining_volume e,
     cmd_price = ev_price e,
     cmd_stop_loss = (if rr_copy_sl_tp r then ev_stop_loss e else None),
     cmd_take_profit = (if rr_copy_sl_tp r then ev_take_profit e else None),
     cmd_created_unix_ns = now\<rparr>"

definition build_command ::
    "sha256 \<Rightarrow> trade_event \<Rightarrow> route_rule \<Rightarrow> mirror_binding option \<Rightarrow> i64
      \<Rightarrow> route_error fault + execution_command option" where
  "build_command sha e r mirror now =
    (if \<not> allows r e then Inr None
     else if stale r e now then Inr None
     else bindE (command_target e r mirror) (\<lambda>(target_order_id, volume).
       if ev_action e \<in> {Open, Reduce} \<and> fle volume f64_zero then Inr None
       else Inr (Some (make_command sha e r target_order_id volume now))))"

section \<open>The routing table\<close>

lemma routes_push: "(case push_route m r a of None \<Rightarrow> [] | Some rs \<Rightarrow> rs) =
    (case m a of None \<Rightarrow> [] | Some rs \<Rightarrow> rs) @ (if rr_source_account_id r = a then [r] else [])"
  by (simp add: push_route_def split: option.splits)

lemma add_routes_Inr:
  "add_routes m rs = Inr m' \<longleftrightarrow> list_all (\<lambda>r. rule_validate r = Inr ()) rs \<and> m' = foldl push_route m rs"
  by (induction rs arbitrary: m) (auto simp: outcome_simps)

lemma add_routes_Inl:
  "add_routes m rs = Inl e \<longleftrightarrow> (\<exists>pre r post. rs = pre @ r # post \<and>
     list_all (\<lambda>r. rule_validate r = Inr ()) pre \<and> rule_validate r = Inl e)"
proof (induction rs arbitrary: m)
  case (Cons r rs)
  show ?case
  proof (cases "rule_validate r")
    case (Inl e')
    then show ?thesis by (force simp: Cons_eq_append_conv)
  next
    case (Inr u)
    let ?ok = "list_all (\<lambda>r. rule_validate r = Inr ())"
    have "add_routes m (r # rs) = Inl e \<longleftrightarrow>
        (\<exists>pre q post. rs = pre @ q # post \<and> ?ok pre \<and> rule_validate q = Inl e)"
      by (simp add: Inr Cons)
    also have "\<dots> \<longleftrightarrow> (\<exists>pre q post. r # rs = pre @ q # post \<and> ?ok pre \<and> rule_validate q = Inl e)"
    proof (intro iffI; elim exE conjE)
      fix pre q post assume "rs = pre @ q # post" "?ok pre" "rule_validate q = Inl e"
      then have "r # rs = (r # pre) @ q # post \<and> ?ok (r # pre) \<and> rule_validate q = Inl e"
        using Inr by simp
      then show "\<exists>pre q post. r # rs = pre @ q # post \<and> ?ok pre \<and> rule_validate q = Inl e" by blast
    next
      fix pre q post assume "r # rs = pre @ q # post" "?ok pre" "rule_validate q = Inl e"
      then show "\<exists>pre q post. rs = pre @ q # post \<and> ?ok pre \<and> rule_validate q = Inl e"
        using Inr by (cases pre) auto
    qed
    finally show ?thesis .
  qed
qed simp

lemma routes_foldl_push: "(case foldl push_route m rs a of None \<Rightarrow> [] | Some l \<Rightarrow> l) =
    (case m a of None \<Rightarrow> [] | Some l \<Rightarrow> l) @ filter (\<lambda>r. rr_source_account_id r = a) rs"
  by (induction rs arbitrary: m) (auto simp: routes_push)

lemma engine_new_Inr:
  "engine_new rs = Inr eng \<longleftrightarrow>
     list_all (\<lambda>r. rule_validate r = Inr ()) rs \<and> routes_by_source eng = foldl push_route Map.empty rs"
  by (cases eng) (auto simp: engine_new_def outcome_simps add_routes_Inr)

lemma engine_new_Inl: "engine_new rs = Inl e \<longleftrightarrow> add_routes Map.empty rs = Inl e"
  by (simp add: engine_new_def outcome_simps)

lemma routes_for_engine:
  assumes "engine_new rs = Inr eng"
  shows "routes_for eng a = filter (\<lambda>r. rr_source_account_id r = a) rs"
  using assms routes_foldl_push[of Map.empty rs a] by (simp add: engine_new_Inr routes_for_def)

lemma rule_validate_Inr:
  "rule_validate r = Inr () \<longleftrightarrow>
     rr_id r \<noteq> [] \<and> rr_source_account_id r \<noteq> [] \<and> rr_target_account_id r \<noteq> [] \<and>
     rr_source_account_id r \<noteq> rr_target_account_id r \<and>
     \<not> fle (rr_max_volume r) f64_zero \<and> \<not> fle (rr_volume_step r) f64_zero \<and>
     \<not> flt (rr_min_volume r) f64_zero \<and> (rr_sizing r \<noteq> Mirror \<longrightarrow> \<not> fle (rr_size_value r) f64_zero) \<and>
     (\<forall>(a, b) \<in> set (rr_symbol_map r). \<not> trim_is_empty a \<and> \<not> trim_is_empty b)"
  by (auto simp: rule_validate_def list_ex_iff)

lemma routes_for_target:
  "engine_new rs = Inr eng \<Longrightarrow> r \<in> set (routes_for eng a) \<Longrightarrow>
     rr_source_account_id r = a \<and> rr_target_account_id r \<noteq> a \<and> rule_validate r = Inr ()"
  using rule_validate_Inr[of r] by (auto simp: routes_for_engine engine_new_Inr list_all_iff)

section \<open>Freshness\<close>

lemma unat_event_age_ns:
  "int (unat (event_age_ns e now)) = max 0 (min (2 ^ 63 - 1) (sint now - sint (ev_timestamp_unix_ns e)))"
proof -
  have s: "sint (event_age_ns e now) = max 0 (min (2 ^ 63 - 1) (sint now - sint (ev_timestamp_unix_ns e)))"
    using sint_i64_bounds[of now] sint_i64_bounds[of "ev_timestamp_unix_ns e"]
    by (simp add: event_age_ns_def clamp_i64_def)
  then have "0 \<le> sint (event_age_ns e now)" by simp
  then show ?thesis using s uint_i64_nonneg by simp
qed

lemma stale_iff:
  "stale r e now \<longleftrightarrow> 0 < unat (rr_max_event_age_ms r) \<and>
     int (unat (rr_max_event_age_ms r)) * 1000000
       < min (2 ^ 63 - 1) (sint now - sint (ev_timestamp_unix_ns e))"
proof -
  let ?n = "unat (rr_max_event_age_ms r)"
  have "unat (u64_saturating_mul (rr_max_event_age_ms r) 1000000) = min (2 ^ 64 - 1) (?n * 1000000)"
    by simp
  moreover have "min (2 ^ 64 - 1) (?n * 1000000) < unat (event_age_ns e now) \<longleftrightarrow>
      int (min (2 ^ 64 - 1) (?n * 1000000)) < int (unat (event_age_ns e now))"
    by (simp only: of_nat_less_iff)
  moreover have "int (min (2 ^ 64 - 1) (?n * 1000000)) = min (2 ^ 64 - 1) (int ?n * 1000000)"
    by (simp add: of_nat_min)
  ultimately show ?thesis
    unfolding stale_def unat_event_age_ns by (auto simp: min_def max_def)
qed

section \<open>Volumes\<close>

lemma hundred_million_pos: "is_finite hundred_million" "flt f64_zero hundred_million"
  by (simp_all add: hundred_million_def f64_eval)

text \<open>The step of a rule that the rounding works with: a positive finite number.\<close>

definition good_step :: "f64 \<Rightarrow> bool" where
  "good_step s \<longleftrightarrow> is_finite s \<and> flt f64_zero s"

lemma normalize_step_unsigned:
  assumes "good_step s" "\<not> is_nan x" shows "unsigned (normalize_step x s)"
proof (cases "fle x f64_zero")
  case False
  then have u: "unsigned x" using assms by (intro unsigned_if_pos not_fle_zero_pos) auto
  show ?thesis
    using False u assms hundred_million_pos
    by (simp add: normalize_step_def good_step_def unsigned_ops)
qed (simp add: normalize_step_def)

lemma normalize_step_mono:
  assumes "good_step s" "fle x y" shows "fle (normalize_step x s) (normalize_step y s)"
proof (cases "fle x f64_zero")
  case True
  then show ?thesis
    using normalize_step_unsigned[OF assms(1), of y] fle_not_nan[OF assms(2)]
    by (simp add: normalize_step_def[of x] zero_le_unsigned)
next
  case False
  have ny: "\<not> fle y f64_zero" using False assms(2) fle_trans by blast
  have u: "unsigned x" "unsigned y"
    using False ny fle_not_nan[OF assms(2)] by (auto intro: unsigned_if_pos not_fle_zero_pos)
  show ?thesis
    using False ny u assms hundred_million_pos
    by (simp add: normalize_step_def good_step_def unsigned_ops fdiv_mono fmul_mono fround_mono)
qed

lemma open_volume_Inr:
  "(open_volume r v :: 'e fault + f64) = Inr w \<longleftrightarrow>
     (\<exists>c. (fclamp (raw_open_volume r v) (rr_min_volume r) (rr_max_volume r) :: 'e fault + f64) = Inr c \<and>
        w = normalize_step c (rr_volume_step r))"
  by (auto simp: open_volume_def normalize_open_volume_def outcome_simps)

lemma open_volume_panics:
  "open_volume r v = Inl f \<longleftrightarrow> \<not> fle (rr_min_volume r) (rr_max_volume r) \<and>
     f = Panicked ''min > max, or either was NaN''"
  by (auto simp: open_volume_def normalize_open_volume_def outcome_simps fclamp_def Let_def)

section \<open>Commands\<close>

lemma build_command_Some:
  "build_command sha e r m now = Inr (Some c) \<longleftrightarrow>
     allows r e \<and> \<not> stale r e now \<and>
     (\<exists>t v. command_target e r m = Inr (t, v) \<and> c = make_command sha e r t v now \<and>
        (ev_action e \<in> {Open, Reduce} \<longrightarrow> \<not> fle v f64_zero))"
  by (auto simp: build_command_def outcome_simps split: if_splits)

lemma build_command_Inl:
  "build_command sha e r m now = Inl f \<longleftrightarrow>
     allows r e \<and> \<not> stale r e now \<and> command_target e r m = Inl f"
  by (auto simp: build_command_def outcome_simps split: if_splits)

lemma make_command_ids [simp]:
  "cmd_command_id (make_command sha e r t v now) = command_id sha e r"
  "cmd_origin_event_id (make_command sha e r t v now) = ev_event_id e"
  "cmd_route_id (make_command sha e r t v now) = rr_id r"
  "cmd_source_account_id (make_command sha e r t v now) = ev_source_account_id e"
  "cmd_source_order_id (make_command sha e r t v now) = ev_source_order_id e"
  "cmd_target_account_id (make_command sha e r t v now) = rr_target_account_id r"
  "cmd_action (make_command sha e r t v now) = ev_action e"
  "cmd_volume (make_command sha e r t v now) = v"
  "cmd_target_order_id (make_command sha e r t v now) = t"
  by (simp_all add: make_command_def)

lemma build_command_ids:
  assumes "build_command sha e r m now = Inr (Some c)"
  shows "cmd_command_id c = command_id sha e r" "cmd_origin_event_id c = ev_event_id e"
    "cmd_route_id c = rr_id r" "cmd_source_account_id c = ev_source_account_id e"
    "cmd_source_order_id c = ev_source_order_id e" "cmd_target_account_id c = rr_target_account_id r"
    "cmd_action c = ev_action e"
  using assms by (auto simp: build_command_Some)

text \<open>Which binding a command refers to: the one of the event's order on the rule's target.\<close>

lemma command_target_order:
  "command_target e r m = Inr (t, v) \<Longrightarrow>
     t = (if ev_action e = Open then None else map_option mb_target_order_id m) \<and>
     (ev_action e \<noteq> Open \<longrightarrow> m \<noteq> None)"
  by (cases "ev_action e")
    (auto simp: command_target_def require_mirror_def outcome_simps Let_def split: if_splits)

lemma command_target_carry:
  "command_target e r (Some b) = Inr (t, v) \<Longrightarrow> ev_action e \<in> {Modify, Close} \<Longrightarrow>
     v = mb_target_remaining_volume b"
  by (auto simp: command_target_def require_mirror_def outcome_simps)

section \<open>Command ids\<close>

definition hex_chars :: string where "hex_chars = ''0123456789abcdef''"

lemma hex_digit_in: "d < 16 \<Longrightarrow> hex_digit d \<in> set hex_chars"
proof -
  have "list_all (\<lambda>d. hex_digit d \<in> set hex_chars) [0 ..< 16]" by code_simp
  then show "d < 16 \<Longrightarrow> hex_digit d \<in> set hex_chars" by (simp add: list_all_iff)
qed

lemma of_char_hex_digit: "d < 16 \<Longrightarrow> (of_char (hex_digit d) :: nat) = (if d < 10 then 48 + d else 87 + d)"
  by (simp add: hex_digit_def)

lemma hex_digit_inject:
  assumes "c < 16" "d < 16" "hex_digit c = hex_digit d" shows "c = d"
proof -
  have "(of_char (hex_digit c) :: nat) = of_char (hex_digit d)" by (simp only: assms(3))
  then have "(if c < 10 then 48 + c else 87 + c) = (if d < 10 then 48 + d else 87 + d)"
    by (simp only: of_char_hex_digit[OF assms(1)] of_char_hex_digit[OF assms(2)])
  then show ?thesis by presburger
qed

lemma hex_byte_parts: "unat (b :: 8 word) div 16 < 16" "unat b mod 16 < 16"
proof -
  have "unat b < 2 ^ LENGTH(8)" by (rule unsigned_less)
  then show "unat b div 16 < 16" by simp
qed simp

lemma hex_byte_inject: "hex_byte a = hex_byte b \<Longrightarrow> a = b"
proof -
  assume "hex_byte a = hex_byte b"
  then have "unat a div 16 = unat b div 16" "unat a mod 16 = unat b mod 16"
    using hex_digit_inject hex_byte_parts by (simp_all add: hex_byte_def)
  then have "unat a = unat b" by (metis div_mult_mod_eq)
  then show "a = b" by (simp add: word_unat_eq_iff)
qed

lemma hex_bytes_inject: "concat (map hex_byte xs) = concat (map hex_byte ys) \<Longrightarrow> xs = ys"
proof (induction xs arbitrary: ys)
  case Nil
  then show ?case by (cases ys) (simp_all add: hex_byte_def)
next
  case (Cons x xs)
  have len: "length (hex_byte b) = 2" for b by (simp add: hex_byte_def)
  obtain y zs where ys: "ys = y # zs" using Cons.prems len[of x] by (cases ys) auto
  with Cons.prems have "hex_byte x = hex_byte y \<and> concat (map hex_byte xs) = concat (map hex_byte zs)"
    by (simp add: len append_eq_append_conv)
  then show ?case using Cons.IH ys hex_byte_inject by blast
qed

lemma set_hex_bytes: "set (concat (map hex_byte xs)) \<subseteq> set hex_chars"
  using hex_digit_in hex_byte_parts by (auto simp: hex_byte_def)

lemma length_hex_bytes: "length (concat (map hex_byte xs)) = 2 * length xs"
  by (induction xs) (simp_all add: hex_byte_def)

lemma command_id_input_inject:
  assumes "nul \<notin> set e" "nul \<notin> set r" "nul \<notin> set e'" "nul \<notin> set r'"
    and "command_id_input e r t = command_id_input e' r' t'"
  shows "e = e' \<and> r = r' \<and> t = t'"
  using assms by (simp add: command_id_input_def append_sep_cancel)

text \<open>
  What the code relies on of SHA-256: a digest is 32 bytes, and the inputs in use do not collide
  on the first 16 of them.
\<close>

definition digest_length :: "sha256 \<Rightarrow> bool" where
  "digest_length sha \<longleftrightarrow> (\<forall>x. length (sha x) = 32)"

definition collision_free :: "sha256 \<Rightarrow> string set \<Rightarrow> bool" where
  "collision_free sha X \<longleftrightarrow> (\<forall>x \<in> X. \<forall>y \<in> X. take 16 (sha x) = take 16 (sha y) \<longrightarrow> x = y)"

lemma command_id_inject:
  assumes "collision_free sha X"
    and "command_id_input (ev_event_id e) (rr_id r) (rr_target_account_id r) \<in> X"
    and "command_id_input (ev_event_id e') (rr_id r') (rr_target_account_id r') \<in> X"
    and "nul \<notin> set (ev_event_id e)" "nul \<notin> set (rr_id r)" "nul \<notin> set (ev_event_id e')" "nul \<notin> set (rr_id r')"
    and "command_id sha e r = command_id sha e' r'"
  shows "ev_event_id e = ev_event_id e' \<and> rr_id r = rr_id r' \<and>
    rr_target_account_id r = rr_target_account_id r'"
proof -
  have "take 16 (sha (command_id_input (ev_event_id e) (rr_id r) (rr_target_account_id r))) =
      take 16 (sha (command_id_input (ev_event_id e') (rr_id r') (rr_target_account_id r')))"
    using assms(8) hex_bytes_inject unfolding command_id_def by blast
  then have "command_id_input (ev_event_id e) (rr_id r) (rr_target_account_id r) =
      command_id_input (ev_event_id e') (rr_id r') (rr_target_account_id r')"
    using assms(1-3) unfolding collision_free_def by blast
  then show ?thesis using command_id_input_inject assms(4-7) by blast
qed

section \<open>Properties\<close>

text \<open>The rule, the events and the binding of \<open>tests/routing.rs\<close>.\<close>

definition test_rule :: route_rule where
  "test_rule = \<lparr>rr_id = ''r1'', rr_source_account_id = ''master'',
     rr_target_account_id = ''follower'', rr_enabled = True, rr_sizing = Multiplier,
     rr_size_value = of_frac False 2 1, rr_reverse = True, rr_copy_sl_tp = True,
     rr_min_volume = of_frac False 1 100, rr_max_volume = of_frac False 10 1,
     rr_volume_step = of_frac False 1 100, rr_allow_buy = False, rr_allow_sell = False,
     rr_allow_symbols = [], rr_deny_symbols = [], rr_symbol_map = [(''XAUUSD'', ''XAUUSD.a'')],
     rr_symbol_prefix = [], rr_symbol_suffix = [], rr_max_event_age_ms = 0\<rparr>"

definition test_event :: "trade_action \<Rightarrow> f64 \<Rightarrow> trade_event" where
  "test_event a v = \<lparr>ev_event_id = ''evt-1'', ev_source_account_id = ''master'',
     ev_platform = Mt5, ev_action = a, ev_source_order_id = ''100'', ev_symbol = ''XAUUSD'',
     ev_side = Some Buy, ev_volume = v, ev_remaining_volume = Some (of_frac False 3 4),
     ev_price = None, ev_stop_loss = Some (of_frac False 2300 1),
     ev_take_profit = Some (of_frac False 2400 1), ev_timestamp_unix_ns = 1,
     ev_origin_command_id = None\<rparr>"

definition test_mirror :: mirror_binding where
  "test_mirror = \<lparr>mb_route_id = ''r1'', mb_source_account_id = ''master'',
     mb_source_order_id = ''100'', mb_target_account_id = ''follower'',
     mb_target_order_id = ''900'', mb_source_open_volume = of_frac False 1 1,
     mb_source_remaining_volume = of_frac False 1 1, mb_target_open_volume = of_frac False 2 1,
     mb_target_remaining_volume = of_frac False 2 1\<rparr>"

lemmas test_defs = test_rule_def test_event_def test_mirror_def

lemma test_rule_valid: "rule_validate test_rule = Inr ()"
proof -
  have "\<not> trim_is_empty ''XAUUSD''" "\<not> trim_is_empty ''XAUUSD.a''" by code_simp+
  then show ?thesis by (simp add: rule_validate_Inr test_rule_def f64_eval)
qed

lemma test_rule_allows: "allows test_rule (test_event a v)" "\<not> stale test_rule (test_event a v) now"
  by (simp_all add: allows_def test_defs stale_def)

lemma test_open: "command_target (test_event Open (of_frac False 1 2)) test_rule None = Inr (None, of_frac False 1 1)"
  by (simp add: command_target_def test_defs open_volume_def normalize_open_volume_def
      raw_open_volume_def normalize_step_def hundred_million_def f64_eval)

lemma test_reduce: "command_target (test_event Reduce (of_frac False 1 4)) test_rule (Some test_mirror) =
    Inr (Some ''900'', of_frac False 1 2)"
  by (simp add: command_target_def test_defs require_mirror_def normalize_reduce_volume_def
      normalize_step_def hundred_million_def f64_eval)

text \<open>A digest that tells short inputs apart by their length.\<close>

definition length_digest :: sha256 where
  "length_digest x = word_of_nat (length x) # replicate 31 0"

lemma test_open_command:
  "build_command length_digest (test_event Open (of_frac False 1 2)) test_rule None 2 =
     Inr (Some (make_command length_digest (test_event Open (of_frac False 1 2)) test_rule None (of_frac False 1 1) 2))"
proof -
  have "\<not> fle (of_frac False 1 1) f64_zero" by (simp add: f64_eval)
  then show ?thesis
    using test_rule_allows test_open unfolding build_command_Some by blast
qed

text \<open>
  The routing table is built exactly from the configured rules. Building fails with the error of
  the first invalid rule; otherwise every rule is valid, and the routes of a source account are
  the rules that name it, in the order of the configuration, with none lost, added or duplicated.
\<close>

theorem engine_new_exact:
  "(engine_new rs = Inr eng) =
     (list_all (\<lambda>r. rule_validate r = Inr ()) rs \<and>
      routes_by_source eng = (\<lambda>a. let l = filter (\<lambda>r. rr_source_account_id r = a) rs in
        if l = [] then None else Some l)) \<and>
   (engine_new rs = Inl err) =
     (\<exists>pre r post. rs = pre @ r # post \<and> list_all (\<lambda>q. rule_validate q = Inr ()) pre \<and>
        rule_validate r = Inl err)"
proof -
  have ne: "foldl push_route m rs a \<noteq> Some []" if "m a \<noteq> Some []" for m a
    using that by (induction rs arbitrary: m) (auto simp: push_route_def split: option.splits)
  have none: "foldl push_route m rs a = None \<longleftrightarrow> m a = None \<and> filter (\<lambda>r. rr_source_account_id r = a) rs = []"
    for m a
    by (induction rs arbitrary: m) (auto simp: push_route_def)
  have "foldl push_route Map.empty rs a = (let l = filter (\<lambda>r. rr_source_account_id r = a) rs in
        if l = [] then None else Some l)" for a
    using routes_foldl_push[of Map.empty rs a] none[of Map.empty a]
    by (auto simp: Let_def split: option.splits)
  then have "foldl push_route Map.empty rs = (\<lambda>a. let l = filter (\<lambda>r. rr_source_account_id r = a) rs in
        if l = [] then None else Some l)" by (rule ext)
  then show ?thesis
    by (simp add: engine_new_Inr engine_new_Inl add_routes_Inl)
qed

text \<open>
  The age limit of a route is exact on every pair of clock readings: an event is dropped as
  stale just when the limit is set and the elapsed nanoseconds, as mathematical integers, exceed
  it (the largest \<open>i64\<close> caps the age). In particular nothing wraps around, and an event from the
  future is never stale.
\<close>

theorem freshness_exact:
  "stale r e now =
     (0 < unat (rr_max_event_age_ms r) \<and>
      int (unat (rr_max_event_age_ms r)) * 1000000
        < min (2 ^ 63 - 1) (sint now - sint (ev_timestamp_unix_ns e)))"
  by (rule stale_iff)

text \<open>
  C25. What a follower receives, and when. The engine builds a command exactly when the route allows the event, the
  event is fresh, and, by its action: an opening finds the route's minimum at most its maximum, and its
  sized, clamped and rounded volume is above zero; a reduction has a mirror that was opened with a positive
  source volume, and its share of the follower's volume, at most what remains there and rounded, is above zero; a
  modification or a close has a mirror, whose whole remaining volume it carries. The command is then this one: the
  ids of the event and the route, the target account of the route, the order of the mirror (none for an
  opening), the mapped symbol, the event's side or its opposite, the event's volumes and price, and
  the stop loss and take profit if the route copies them.
\<close>

theorem follower_command:
  "(build_command sha e r m now = Inr (Some c)) =
    (allows r e \<and> \<not> stale r e now \<and>
     (\<exists>volume.
       (case ev_action e of
          Open \<Rightarrow> fle (rr_min_volume r) (rr_max_volume r) \<and>
            (let raw = (case rr_sizing r of Mirror \<Rightarrow> ev_volume e | Fixed \<Rightarrow> rr_size_value r
                 | Multiplier \<Rightarrow> fmul (ev_volume e) (rr_size_value r));
                 low = (if flt raw (rr_min_volume r) then rr_min_volume r else raw)
             in volume = normalize_step (if flt (rr_max_volume r) low then rr_max_volume r else low) (rr_volume_step r)) \<and>
            \<not> fle volume f64_zero
        | Reduce \<Rightarrow> (\<exists>b. m = Some b \<and> \<not> fle (mb_source_open_volume b) f64_zero \<and>
            volume = normalize_step (fmax (fmin (fmul (mb_target_open_volume b) (fdiv (ev_volume e) (mb_source_open_volume b)))
              (mb_target_remaining_volume b)) f64_zero) (rr_volume_step r)) \<and> \<not> fle volume f64_zero
        | _ \<Rightarrow> map_option mb_target_remaining_volume m = Some volume) \<and>
       c = \<lparr>cmd_command_id = command_id sha e r, cmd_origin_event_id = ev_event_id e, cmd_route_id = rr_id r,
         cmd_source_account_id = ev_source_account_id e, cmd_source_order_id = ev_source_order_id e,
         cmd_target_account_id = rr_target_account_id r, cmd_action = ev_action e,
         cmd_target_order_id = (if ev_action e = Open then None else map_option mb_target_order_id m),
         cmd_symbol = (case map_of (rr_symbol_map r) (ev_symbol e) of Some s \<Rightarrow> s
           | None \<Rightarrow> rr_symbol_prefix r @ ev_symbol e @ rr_symbol_suffix r),
         cmd_side = (if rr_reverse r then map_option reversed (ev_side e) else ev_side e),
         cmd_volume = volume, cmd_source_volume = ev_volume e,
         cmd_source_remaining_volume = ev_remaining_volume e, cmd_price = ev_price e,
         cmd_stop_loss = (if rr_copy_sl_tp r then ev_stop_loss e else None),
         cmd_take_profit = (if rr_copy_sl_tp r then ev_take_profit e else None), cmd_created_unix_ns = now\<rparr>))"
proof -
  have sides: "map_option (\<lambda>s. if rr_reverse r then reversed s else s) (ev_side e) =
      (if rr_reverse r then map_option reversed (ev_side e) else ev_side e)"
    by (simp add: option.map_ident)
  show ?thesis
    unfolding build_command_Some command_target_def open_volume_def normalize_open_volume_def raw_open_volume_def
      normalize_reduce_volume_def require_mirror_def make_command_def target_symbol_def sides
    by (cases "ev_action e"; cases m) (auto simp: outcome_simps fclamp_def Let_def)
qed

theorem follower_command_witness:
  "\<exists>c. build_command length_digest (test_event Open (of_frac False 1 2)) test_rule None 2 = Inr (Some c) \<and>
     cmd_symbol c = ''XAUUSD.a'' \<and> cmd_side c = Some Sell \<and> cmd_created_unix_ns c = 2 \<and> \<not> fle (cmd_volume c) f64_zero"
proof -
  have "cmd_symbol c = ''XAUUSD.a'' \<and> cmd_side c = Some Sell \<and> cmd_created_unix_ns c = 2 \<and> \<not> fle (cmd_volume c) f64_zero"
    if "build_command length_digest (test_event Open (of_frac False 1 2)) test_rule None 2 = Inr (Some c)" for c
    using that unfolding follower_command by (auto simp: test_event_def test_rule_def)
  then show ?thesis using test_open_command by blast
qed

text \<open>
  C26. The failures of the engine are exactly these. For an event the route allows and that is
  fresh: without a mirror, every action but opening fails with \<open>MissingMirror\<close>; a reduction on a
  mirror whose source volume is zero or less fails with \<open>InvalidMirror\<close>; and an opening panics,
  exactly when the route's minimum is not at most its maximum. Nothing else fails.
\<close>

theorem build_failures_exact:
  "(build_command sha e r m now = Inl f) =
     (allows r e \<and> \<not> stale r e now \<and>
      (case ev_action e of
         Open \<Rightarrow> \<not> fle (rr_min_volume r) (rr_max_volume r) \<and>
           f = Panicked ''min > max, or either was NaN''
       | Reduce \<Rightarrow> (case m of None \<Rightarrow> f = Raised (MissingMirror (rr_id r))
           | Some b \<Rightarrow> fle (mb_source_open_volume b) f64_zero \<and> f = Raised (InvalidMirror (rr_id r)))
       | _ \<Rightarrow> m = None \<and> f = Raised (MissingMirror (rr_id r))))"
  unfolding build_command_Inl
  by (cases "ev_action e"; cases m)
    (auto simp: command_target_def require_mirror_def outcome_simps open_volume_panics Let_def)

text \<open>A rule the engine accepts and on which every opening event panics.\<close>

definition inverted_rule :: route_rule where
  "inverted_rule = test_rule\<lparr>rr_min_volume := of_frac False 20 1\<rparr>"

lemma inverted_rule_panics:
  "rule_validate inverted_rule = Inr ()"
  "build_command sha (test_event Open v) inverted_rule m now = Inl (Panicked ''min > max, or either was NaN'')"
proof -
  have "\<not> flt (of_frac False 20 1) f64_zero" "\<not> fle (of_frac False 20 1) (of_frac False 10 1)"
    by (simp_all add: f64_eval)
  then show "rule_validate inverted_rule = Inr ()"
    "build_command sha (test_event Open v) inverted_rule m now = Inl (Panicked ''min > max, or either was NaN'')"
    using test_rule_valid test_rule_allows
    by (simp_all add: inverted_rule_def rule_validate_Inr build_command_Inl command_target_def
        bindE_Inl open_volume_panics allows_def stale_def test_event_def) (simp_all add: test_rule_def)
qed

text \<open>
  C28. Sizing keeps the order of volumes: for a route with a positive finite step and, where it
  multiplies, a positive finite factor, a larger source volume never opens a smaller position on
  the follower. It holds for the rounded binary64 arithmetic of the code, overflow included.
\<close>

theorem open_volume_monotone:
  assumes "good_step (rr_volume_step r)" "rr_sizing r \<noteq> Mirror \<Longrightarrow> good_step (rr_size_value r)"
    and "flt f64_zero v" "fle v w"
    and "open_volume r v = (Inr x :: route_error fault + f64)"
    and "open_volume r w = (Inr y :: route_error fault + f64)"
  shows "fle x y"
proof -
  have u: "unsigned v" "unsigned w"
    using assms(3,4) flt_fle_trans unsigned_if_pos by blast+
  have raw: "fle (raw_open_volume r v) (raw_open_volume r w)"
    using assms(2,4) u fmul_mono[of v w "rr_size_value r"]
    by (cases "rr_sizing r")
      (auto simp: raw_open_volume_def good_step_def intro: fle_refl is_finite_not_nan)
  obtain c d where c: "fclamp (raw_open_volume r v) (rr_min_volume r) (rr_max_volume r) =
        (Inr c :: route_error fault + f64)"
      "x = normalize_step c (rr_volume_step r)"
    and d: "fclamp (raw_open_volume r w) (rr_min_volume r) (rr_max_volume r) =
        (Inr d :: route_error fault + f64)"
      "y = normalize_step d (rr_volume_step r)"
    using open_volume_Inr[THEN iffD1, OF assms(5)] open_volume_Inr[THEN iffD1, OF assms(6)] by blast
  show ?thesis
    unfolding c(2) d(2) by (intro normalize_step_mono assms(1) fclamp_mono[OF c(1) d(1) raw])
qed

theorem open_volume_monotone_witness:
  "fle (of_frac False 1 1) (of_frac False 2 1)"
  by (rule open_volume_monotone[of test_rule "of_frac False 1 2" "of_frac False 1 1"])
    (simp_all add: test_rule_def good_step_def open_volume_def normalize_open_volume_def
      raw_open_volume_def normalize_step_def hundred_million_def f64_eval)

text \<open>
  C27. The volume of an opening command stays within the rounded limits of its route: it lies
  between the minimum and the maximum of the rule, each rounded to the volume step as the
  volume itself is. The bound is the rounded maximum, which can be above the configured one.
\<close>

theorem open_volume_within_limits:
  assumes "good_step (rr_volume_step r)" "\<not> is_nan (raw_open_volume r v)"
    and "open_volume r v = (Inr x :: route_error fault + f64)"
  shows "fle (normalize_step (rr_min_volume r) (rr_volume_step r)) x \<and>
    fle x (normalize_step (rr_max_volume r) (rr_volume_step r))"
proof -
  obtain c where c: "fclamp (raw_open_volume r v) (rr_min_volume r) (rr_max_volume r) =
      (Inr c :: route_error fault + f64)" "x = normalize_step c (rr_volume_step r)"
    using open_volume_Inr[THEN iffD1, OF assms(3)] by blast
  show ?thesis
    unfolding c(2) by (intro conjI normalize_step_mono assms(1) fclamp_Inr[OF c(1) assms(2)])
qed

theorem open_volume_within_limits_witness:
  "fle (of_frac False 1 100) (of_frac False 1 1) \<and> fle (of_frac False 1 1) (of_frac False 10 1)"
  using open_volume_within_limits[of test_rule "of_frac False 1 2" "of_frac False 1 1"]
  by (simp add: test_rule_def good_step_def open_volume_def normalize_open_volume_def
      raw_open_volume_def normalize_step_def hundred_million_def f64_eval)

text \<open>The rounded maximum exceeds the configured one: a limit of 0.015 with a step of 0.01 opens 0.02.\<close>

definition coarse_rule :: route_rule where
  "coarse_rule = test_rule\<lparr>rr_max_volume := of_frac False 15 1000\<rparr>"

lemma coarse_rule_exceeds_max:
  "open_volume coarse_rule (of_frac False 1 1) = Inr (of_frac False 2 100)"
  "flt (rr_max_volume coarse_rule) (of_frac False 2 100)"
  by (simp_all add: coarse_rule_def test_rule_def open_volume_def normalize_open_volume_def
      raw_open_volume_def normalize_step_def hundred_million_def f64_eval)

text \<open>
  C29. A reducing command never asks for more than the follower still holds, up to the rounding to
  the volume step: the volume is non-negative, a number, and at most the remaining volume
  of the mirror rounded to the step.
\<close>

theorem reduce_volume_bounded:
  assumes "good_step (rr_volume_step r)" "unsigned remaining" "\<not> is_nan raw"
  shows "unsigned (normalize_reduce_volume r raw remaining) \<and>
    fle (normalize_reduce_volume r raw remaining) (normalize_step remaining (rr_volume_step r))"
  unfolding normalize_reduce_volume_def
  using normalize_step_unsigned[OF assms(1)] normalize_step_mono[OF assms(1)] fmin_fmax_bounds[OF assms(2,3)]
  by blast

theorem reduce_volume_bounded_witness:
  "unsigned (of_frac False 1 2) \<and> fle (of_frac False 1 2) (of_frac False 2 1)"
  using reduce_volume_bounded[of test_rule "of_frac False 2 1" "of_frac False 1 2"]
  by (simp add: test_rule_def good_step_def normalize_reduce_volume_def normalize_step_def
      hundred_million_def unsigned_of_frac) (simp add: f64_eval)

text \<open>
  C31. A command id is printable and has a fixed form: 32 lower-case hexadecimal digits, so it is
  never empty and always survives the wire and the journal unchanged.
\<close>

theorem command_id_shape:
  assumes "digest_length sha"
  shows "length (command_id sha e r) = 32 \<and> set (command_id sha e r) \<subseteq> set ''0123456789abcdef'' \<and>
    clean (command_id sha e r) \<and> nul \<notin> set (command_id sha e r)"
proof -
  have s: "set (command_id sha e r) \<subseteq> set hex_chars"
    unfolding command_id_def by (rule set_hex_bytes)
  have "tab \<notin> set hex_chars" "carriage \<notin> set hex_chars" "newline \<notin> set hex_chars" "nul \<notin> set hex_chars"
    by (simp_all add: hex_chars_def separator_codes nul_def)
  then show ?thesis
    using assms s by (auto simp: clean_def command_id_def length_hex_bytes digest_length_def hex_chars_def)
qed

theorem command_id_shape_witness:
  "length (command_id length_digest (test_event Open f64_one) test_rule) = 32"
  using command_id_shape[of length_digest] by (simp add: digest_length_def length_digest_def)

text \<open>
  C30. Two commands have the same id only if they come from the same event id, the same route and
  the same target account. This rests on SHA-256 not colliding, on the first 16 bytes of the
  digests, among the inputs in use, and on the ids holding no NUL byte, the separator of the
  hashed text.
\<close>

theorem command_id_identifies:
  assumes "collision_free sha X"
    and "command_id_input (ev_event_id e) (rr_id r) (rr_target_account_id r) \<in> X"
    and "command_id_input (ev_event_id e') (rr_id r') (rr_target_account_id r') \<in> X"
    and "nul \<notin> set (ev_event_id e)" "nul \<notin> set (rr_id r)" "nul \<notin> set (ev_event_id e')" "nul \<notin> set (rr_id r')"
    and "command_id sha e r = command_id sha e' r'"
  shows "ev_event_id e = ev_event_id e' \<and> rr_id r = rr_id r' \<and>
    rr_target_account_id r = rr_target_account_id r'"
  by (rule command_id_inject[OF assms])

theorem command_id_identifies_witness:
  "collision_free length_digest {command_id_input ''evt-1'' ''r1'' ''follower'', command_id_input ''evt-22'' ''r1'' ''follower''} \<and>
   command_id length_digest (test_event Open f64_one) test_rule \<noteq>
     command_id length_digest (test_event Open f64_one\<lparr>ev_event_id := ''evt-22''\<rparr>) test_rule"
proof -
  let ?X = "{command_id_input ''evt-1'' ''r1'' ''follower'', command_id_input ''evt-22'' ''r1'' ''follower''}"
  have "collision_free length_digest ?X"
    by (simp add: collision_free_def command_id_input_def length_digest_def)
  moreover have "nul \<notin> set ''evt-1''" "nul \<notin> set ''evt-22''" "nul \<notin> set ''r1''"
    by (simp_all add: nul_def)
  ultimately show ?thesis
    using command_id_identifies[of length_digest ?X "test_event Open f64_one" test_rule
        "test_event Open f64_one\<lparr>ev_event_id := ''evt-22''\<rparr>" test_rule]
    by (auto simp: test_event_def test_rule_def)
qed

text \<open>Without that condition the ids are ambiguous: the NUL byte can move between event and route.\<close>

lemma command_id_nul_ambiguous:
  "command_id sha (e\<lparr>ev_event_id := ''a'' @ [nul] @ ''b''\<rparr>) (r\<lparr>rr_id := ''c''\<rparr>) =
   command_id sha (e\<lparr>ev_event_id := ''a''\<rparr>) (r\<lparr>rr_id := ''b'' @ [nul] @ ''c''\<rparr>)"
  by (simp add: command_id_def command_id_input_def)

section \<open>Volumes that are not numbers\<close>

text \<open>An event whose volume is NaN passes the validation and opens a position with volume NaN.\<close>

lemma nan_ops: "fmul f64_nan x = f64_nan" "fdiv f64_nan x = f64_nan" "fround f64_nan = f64_nan"
  by (transfer; simp)+

lemma normalize_step_nan: "normalize_step f64_nan s = f64_nan"
  by (simp add: normalize_step_def nan_ops) (simp add: f64_eval)

lemma nan_volume_is_copied:
  "event_validate (test_event Open f64_nan) = Inr ()"
  "\<exists>c. build_command sha (test_event Open f64_nan) test_rule None now = Inr (Some c) \<and> is_nan (cmd_volume c)"
proof -
  have nan: "is_nan f64_nan" by (simp add: f64_eval)
  then show "event_validate (test_event Open f64_nan) = Inr ()"
    by (simp add: event_validate_Inr test_event_def)
  have "fle (of_frac False 1 100) (of_frac False 10 1)" by (simp add: f64_eval)
  then have "command_target (test_event Open f64_nan) test_rule None = Inr (None, f64_nan)"
    using nan by (simp add: command_target_def test_defs open_volume_def normalize_open_volume_def
        raw_open_volume_def nan_ops fclamp_def normalize_step_nan)
  then have "build_command sha (test_event Open f64_nan) test_rule None now =
      Inr (Some (make_command sha (test_event Open f64_nan) test_rule None f64_nan now))"
    using nan test_rule_allows unfolding build_command_Some by (metis fle_nan(1))
  then show "\<exists>c. build_command sha (test_event Open f64_nan) test_rule None now = Inr (Some c) \<and> is_nan (cmd_volume c)"
    using nan by simp
qed

end
