(* ===== verification/Config.thy ===== *)
theory Config
  imports Routing
begin

text \<open>
  The configuration of the daemon, \<open>crates/copier-daemon/src/config.rs\<close>: accounts, their backends
  and roles, the global settings and the whole validation, every refusal in the order the
  code makes it. Reading the TOML file (the \<open>toml\<close> crate) and the environment are parameters.
  The theorems: what an accepted configuration guarantees to the rest of the daemon.
\<close>

section \<open>Records\<close>

datatype account_role = Master | Follower | Both

fun can_publish :: "account_role \<Rightarrow> bool" where
  "can_publish Master = True"
| "can_publish Follower = False"
| "can_publish Both = True"

datatype durability = NoDurability | Flush | Fsync
datatype account_backend = Agent | CTraderOpenApi | MetaApi
datatype ctrader_environment = Live | Demo

record ctrader_global =
  ctg_client_id_env :: string
  ctg_client_secret_env :: string
  ctg_live_url :: string
  ctg_demo_url :: string

record ctrader_account =
  cta_ctid_trader_account_id :: i64
  cta_access_token_env :: string
  cta_environment :: ctrader_environment

record metaapi_global =
  mag_auth_token_env :: string
  mag_provisioning_base :: string

record metaapi_account =
  maa_account_id :: "string option"
  maa_login :: "string option"
  maa_server :: "string option"
  maa_password_env :: "string option"
  maa_region :: string
  maa_api_base :: "string option"
  maa_poll_interval_ms :: u64
  maa_magic :: u64

record account_config =
  ac_id :: string
  ac_platform :: platform
  ac_role :: account_role
  ac_backend :: account_backend
  ac_token :: string
  ac_token_env :: "string option"
  ac_allow_rebroadcast :: bool
  ac_ctrader :: "ctrader_account option"
  ac_metaapi :: "metaapi_account option"

record daemon_config =
  dc_listen :: string
  dc_journal_path :: string
  dc_durability :: durability
  dc_queue_capacity :: u64
  dc_accounts :: "account_config list"
  dc_routes :: "route_rule list"
  dc_ctrader :: "ctrader_global option"
  dc_metaapi :: "metaapi_global option"

section \<open>Defaults\<close>

definition default_queue_capacity :: u64 where "default_queue_capacity = 2048"
definition default_listen :: string where "default_listen = ''127.0.0.1:48100''"
definition default_journal_path :: string where "default_journal_path = ''var/copier.journal.jsonl''"
definition default_ctrader_live_url :: string where
  "default_ctrader_live_url = ''wss://live.ctraderapi.com:5036''"
definition default_ctrader_demo_url :: string where
  "default_ctrader_demo_url = ''wss://demo.ctraderapi.com:5036''"
definition default_metaapi_provisioning_base :: string where
  "default_metaapi_provisioning_base = ''https://mt-provisioning-api-v1.agiliumtrade.agiliumtrade.ai''"
definition default_metaapi_region :: string where "default_metaapi_region = ''new-york''"
definition default_metaapi_poll_ms :: u64 where "default_metaapi_poll_ms = 100"
definition default_magic :: u64 where "default_magic = 8104811"

section \<open>Validation\<close>

datatype config_error =
    QueueCapacityZero
  | EmptyAccountId
  | DuplicateAccountId string
  | AgentWithoutToken string
  | CTraderWrongPlatform string
  | CTraderNoGlobal string
  | CTraderNoSettings string
  | CTraderInvalidSettings string
  | MetaApiWrongPlatform string
  | MetaApiNoGlobal string
  | MetaApiNoSettings string
  | MetaApiPollTooShort string
  | MetaApiNoIdentity string
  | UnknownSource string string
  | UnknownTarget string string
  | InvalidRouting route_error
  | CTraderEmptyEnvNames
  | MetaApiEmptyEnvName

definition or_empty :: "string option \<Rightarrow> string" where
  "or_empty x = (case x of None \<Rightarrow> [] | Some s \<Rightarrow> s)"

text \<open>The checks of one account's backend, \<open>match account.backend\<close>.\<close>

definition validate_backend :: "daemon_config \<Rightarrow> account_config \<Rightarrow> config_error + unit" where
  "validate_backend cfg a =
    (case ac_backend a of
       Agent \<Rightarrow>
         if ac_token a = [] \<and> trim_is_empty (or_empty (ac_token_env a))
         then Inl (AgentWithoutToken (ac_id a)) else Inr ()
     | CTraderOpenApi \<Rightarrow>
         if ac_platform a \<noteq> CTrader then Inl (CTraderWrongPlatform (ac_id a))
         else if dc_ctrader cfg = None then Inl (CTraderNoGlobal (ac_id a))
         else bindE (of_opt (CTraderNoSettings (ac_id a)) (ac_ctrader a)) (\<lambda>direct.
           if sint (cta_ctid_trader_account_id direct) \<le> 0 \<or> trim_is_empty (cta_access_token_env direct)
           then Inl (CTraderInvalidSettings (ac_id a)) else Inr ())
     | MetaApi \<Rightarrow>
         if ac_platform a \<noteq> Mt4 \<and> ac_platform a \<noteq> Mt5 then Inl (MetaApiWrongPlatform (ac_id a))
         else if dc_metaapi cfg = None then Inl (MetaApiNoGlobal (ac_id a))
         else bindE (of_opt (MetaApiNoSettings (ac_id a)) (ac_metaapi a)) (\<lambda>direct.
           if unat (maa_poll_interval_ms direct) < 25 then Inl (MetaApiPollTooShort (ac_id a))
           else if or_empty (maa_account_id direct) = [] \<and>
               (or_empty (maa_login direct) = [] \<or> or_empty (maa_server direct) = [] \<or>
                or_empty (maa_password_env direct) = [])
             then Inl (MetaApiNoIdentity (ac_id a)) else Inr ()))"

text \<open>The loop over the accounts, with the set of the ids seen so far.\<close>

fun validate_accounts ::
    "daemon_config \<Rightarrow> string set \<Rightarrow> account_config list \<Rightarrow> config_error + string set" where
  "validate_accounts cfg ids [] = Inr ids"
| "validate_accounts cfg ids (a # rest) =
    (if trim_is_empty (ac_id a) then Inl EmptyAccountId
     else if ac_id a \<in> ids then Inl (DuplicateAccountId (ac_id a))
     else bindE (validate_backend cfg a) (\<lambda>_. validate_accounts cfg (insert (ac_id a) ids) rest))"

fun validate_routes :: "string set \<Rightarrow> route_rule list \<Rightarrow> config_error + unit" where
  "validate_routes ids [] = Inr ()"
| "validate_routes ids (r # rest) =
    (if rr_source_account_id r \<notin> ids then Inl (UnknownSource (rr_id r) (rr_source_account_id r))
     else if rr_target_account_id r \<notin> ids then Inl (UnknownTarget (rr_id r) (rr_target_account_id r))
     else validate_routes ids rest)"

definition validate_globals :: "daemon_config \<Rightarrow> config_error + unit" where
  "validate_globals cfg =
    bindE (case dc_ctrader cfg of
        None \<Rightarrow> Inr ()
      | Some g \<Rightarrow> if trim_is_empty (ctg_client_id_env g) \<or> trim_is_empty (ctg_client_secret_env g)
          then Inl CTraderEmptyEnvNames else Inr ()) (\<lambda>_.
     case dc_metaapi cfg of
        None \<Rightarrow> Inr ()
      | Some g \<Rightarrow> if trim_is_empty (mag_auth_token_env g) then Inl MetaApiEmptyEnvName else Inr ())"

definition config_validate :: "daemon_config \<Rightarrow> config_error + unit" where
  "config_validate cfg =
    (if dc_queue_capacity cfg = 0 then Inl QueueCapacityZero
     else bindE (validate_accounts cfg {} (dc_accounts cfg)) (\<lambda>ids.
       bindE (validate_routes ids (dc_routes cfg)) (\<lambda>_.
       bindE (mapE InvalidRouting (engine_new (dc_routes cfg))) (\<lambda>_.
       validate_globals cfg))))"

text \<open>\<open>load\<close>; reading the file and the TOML parser are parameters.\<close>

datatype load_error = Unreadable string | Unparsable string | InvalidConfig config_error

definition config_load :: "(string \<Rightarrow> string option) \<Rightarrow> (string \<Rightarrow> daemon_config option) \<Rightarrow> string \<Rightarrow> load_error + daemon_config" where
  "config_load read_file toml path =
    bindE (of_opt (Unreadable path) (read_file path)) (\<lambda>raw.
    bindE (of_opt (Unparsable path) (toml raw)) (\<lambda>config.
    bindE (mapE InvalidConfig (config_validate config)) (\<lambda>_. Inr config)))"

definition config_account :: "daemon_config \<Rightarrow> string \<Rightarrow> account_config option" where
  "config_account cfg i = find (\<lambda>a. ac_id a = i) (dc_accounts cfg)"

section \<open>Secrets\<close>

text \<open>\<open>std::env::var\<close> is the parameter \<open>env\<close>: \<open>None\<close> for a variable that is not set or not UTF-8.\<close>

datatype secret_error = SecretNotSet string | SecretEmpty string

definition read_secret :: "(string \<Rightarrow> string option) \<Rightarrow> string \<Rightarrow> secret_error + string" where
  "read_secret env name =
    bindE (of_opt (SecretNotSet name) (env name)) (\<lambda>value.
      if value = [] then Inl (SecretEmpty name) else Inr value)"

section \<open>What validation guarantees\<close>

definition backend_ok :: "daemon_config \<Rightarrow> account_config \<Rightarrow> bool" where
  "backend_ok cfg a =
    (case ac_backend a of
       Agent \<Rightarrow> ac_token a \<noteq> [] \<or> (\<exists>n. ac_token_env a = Some n \<and> \<not> trim_is_empty n)
     | CTraderOpenApi \<Rightarrow> ac_platform a = CTrader \<and> dc_ctrader cfg \<noteq> None \<and>
         (\<exists>d. ac_ctrader a = Some d \<and> 0 < sint (cta_ctid_trader_account_id d) \<and>
            \<not> trim_is_empty (cta_access_token_env d))
     | MetaApi \<Rightarrow> ac_platform a \<in> {Mt4, Mt5} \<and> dc_metaapi cfg \<noteq> None \<and>
         (\<exists>d. ac_metaapi a = Some d \<and> 25 \<le> unat (maa_poll_interval_ms d) \<and>
            (or_empty (maa_account_id d) \<noteq> [] \<or> or_empty (maa_login d) \<noteq> [] \<and>
             or_empty (maa_server d) \<noteq> [] \<and> or_empty (maa_password_env d) \<noteq> [])))"

lemma validate_backend_Inr: "validate_backend cfg a = Inr () \<longleftrightarrow> backend_ok cfg a"
proof (cases "ac_backend a")
  case Agent
  then show ?thesis
    by (cases "ac_token_env a") (auto simp: validate_backend_def backend_ok_def or_empty_def)
qed (auto simp: validate_backend_def backend_ok_def outcome_simps not_le not_less)

lemma validate_accounts_Inr:
  "validate_accounts cfg ids as = Inr ids' \<longleftrightarrow>
     (\<forall>a \<in> set as. \<not> trim_is_empty (ac_id a) \<and> ac_id a \<notin> ids \<and> backend_ok cfg a) \<and>
     distinct (map ac_id as) \<and> ids' = ids \<union> ac_id ` set as"
proof (induction as arbitrary: ids)
  case (Cons a as)
  show ?case
    by (auto simp: outcome_simps Cons.IH validate_backend_Inr) (metis image_eqI)
qed auto

lemma validate_routes_Inr:
  "validate_routes ids rs = Inr () \<longleftrightarrow>
     (\<forall>r \<in> set rs. rr_source_account_id r \<in> ids \<and> rr_target_account_id r \<in> ids)"
  by (induction rs) auto

definition globals_ok :: "daemon_config \<Rightarrow> bool" where
  "globals_ok cfg \<longleftrightarrow>
     (\<forall>g. dc_ctrader cfg = Some g \<longrightarrow> \<not> trim_is_empty (ctg_client_id_env g) \<and>
        \<not> trim_is_empty (ctg_client_secret_env g)) \<and>
     (\<forall>g. dc_metaapi cfg = Some g \<longrightarrow> \<not> trim_is_empty (mag_auth_token_env g))"

lemma validate_globals_Inr: "validate_globals cfg = Inr () \<longleftrightarrow> globals_ok cfg"
  by (cases "dc_ctrader cfg"; cases "dc_metaapi cfg") (auto simp: validate_globals_def globals_ok_def)

lemma engine_new_accepts:
  "(\<exists>eng. engine_new rs = Inr eng) \<longleftrightarrow> (\<forall>r \<in> set rs. rule_validate r = Inr ())"
  by (auto simp: engine_new_Inr list_all_iff
      intro: exI[of _ "\<lparr>routes_by_source = foldl push_route Map.empty rs\<rparr>"])

lemma config_validate_Inr:
  "config_validate cfg = Inr () \<longleftrightarrow>
     dc_queue_capacity cfg \<noteq> 0 \<and> distinct (map ac_id (dc_accounts cfg)) \<and>
     (\<forall>a \<in> set (dc_accounts cfg). \<not> trim_is_empty (ac_id a) \<and> backend_ok cfg a) \<and>
     (\<forall>r \<in> set (dc_routes cfg). rule_validate r = Inr () \<and>
        rr_source_account_id r \<in> ac_id ` set (dc_accounts cfg) \<and>
        rr_target_account_id r \<in> ac_id ` set (dc_accounts cfg)) \<and>
     globals_ok cfg"
  by (auto simp: config_validate_def outcome_simps validate_accounts_Inr validate_routes_Inr
      validate_globals_Inr engine_new_accepts)

lemma find_distinct_key:
  "distinct (map f xs) \<Longrightarrow> find (\<lambda>x. f x = k) xs = Some x \<longleftrightarrow> x \<in> set xs \<and> f x = k"
  by (induction xs) auto

lemma config_account_Some:
  "distinct (map ac_id (dc_accounts cfg)) \<Longrightarrow>
     config_account cfg i = Some a \<longleftrightarrow> a \<in> set (dc_accounts cfg) \<and> ac_id a = i"
  unfolding config_account_def by (rule find_distinct_key)

lemma config_accountD: "config_account cfg i = Some a \<Longrightarrow> a \<in> set (dc_accounts cfg) \<and> ac_id a = i"
  by (auto simp: config_account_def find_Some_iff)

section \<open>Properties\<close>

text \<open>The master, the follower and the route of the routing tests as a configuration.\<close>

definition test_account :: "string \<Rightarrow> account_role \<Rightarrow> account_config" where
  "test_account i role = \<lparr>ac_id = i, ac_platform = Mt5, ac_role = role, ac_backend = Agent,
     ac_token = ''secret'', ac_token_env = None, ac_allow_rebroadcast = False,
     ac_ctrader = None, ac_metaapi = None\<rparr>"

definition test_config :: daemon_config where
  "test_config = \<lparr>dc_listen = default_listen, dc_journal_path = default_journal_path,
     dc_durability = Flush, dc_queue_capacity = default_queue_capacity,
     dc_accounts = [test_account ''master'' Master, test_account ''follower'' Follower],
     dc_routes = [test_rule], dc_ctrader = None, dc_metaapi = None\<rparr>"

lemma test_config_valid: "config_validate test_config = Inr ()"
proof -
  have "\<not> trim_is_empty ''master''" "\<not> trim_is_empty ''follower''" by code_simp+
  moreover have "rr_source_account_id test_rule = ''master''" "rr_target_account_id test_rule = ''follower''"
    by (simp_all add: test_rule_def)
  ultimately show ?thesis
    using test_rule_valid
    by (simp add: config_validate_Inr test_config_def test_account_def backend_ok_def globals_ok_def
        default_queue_capacity_def)
qed

text \<open>
  C32. Which configurations are accepted. Validation succeeds exactly if: the queue capacity is positive; the
  account ids are not blank and all different; an agent account has a token or names the variable that
  holds it, a cTrader account has its platform, the global section and a positive account number with the name of its
  token's variable, a MetaApi account has its platform, the global section, a poll interval of at least 25 ms and
  either a provider id or all of login, server and password variable; every route has an id, joins two
  different configured accounts, has a maximum and a step that are not zero or less, a minimum that is not
  negative, a size that is not zero or less unless it mirrors, and no blank symbol in its map; and the global
  sections name their variables. Nothing else is asked: a minimum above the maximum is accepted
  (\<open>build_failures_exact\<close> says what it does).
\<close>

theorem validation_exact:
  "(config_validate cfg = Inr ()) =
     (dc_queue_capacity cfg \<noteq> 0 \<and> distinct (map ac_id (dc_accounts cfg)) \<and>
      (\<forall>a \<in> set (dc_accounts cfg). \<not> trim_is_empty (ac_id a) \<and>
        (case ac_backend a of
           Agent \<Rightarrow> ac_token a \<noteq> [] \<or> (\<exists>n. ac_token_env a = Some n \<and> \<not> trim_is_empty n)
         | CTraderOpenApi \<Rightarrow> ac_platform a = CTrader \<and> dc_ctrader cfg \<noteq> None \<and>
             (\<exists>d. ac_ctrader a = Some d \<and> 0 < sint (cta_ctid_trader_account_id d) \<and>
                \<not> trim_is_empty (cta_access_token_env d))
         | MetaApi \<Rightarrow> ac_platform a \<in> {Mt4, Mt5} \<and> dc_metaapi cfg \<noteq> None \<and>
             (\<exists>d. ac_metaapi a = Some d \<and> 25 \<le> unat (maa_poll_interval_ms d) \<and>
                (maa_account_id d \<notin> {None, Some []} \<or>
                 maa_login d \<notin> {None, Some []} \<and> maa_server d \<notin> {None, Some []} \<and>
                 maa_password_env d \<notin> {None, Some []})))) \<and>
      (\<forall>r \<in> set (dc_routes cfg). rr_id r \<noteq> [] \<and> rr_source_account_id r \<noteq> rr_target_account_id r \<and>
         {rr_source_account_id r, rr_target_account_id r} \<subseteq> ac_id ` set (dc_accounts cfg) \<and>
         \<not> fle (rr_max_volume r) f64_zero \<and> \<not> fle (rr_volume_step r) f64_zero \<and> \<not> flt (rr_min_volume r) f64_zero \<and>
         (rr_sizing r = Mirror \<or> \<not> fle (rr_size_value r) f64_zero) \<and>
         (\<forall>(source, target) \<in> set (rr_symbol_map r). \<not> trim_is_empty source \<and> \<not> trim_is_empty target)) \<and>
      (\<forall>g. dc_ctrader cfg = Some g \<longrightarrow> \<not> trim_is_empty (ctg_client_id_env g) \<and> \<not> trim_is_empty (ctg_client_secret_env g)) \<and>
      (\<forall>g. dc_metaapi cfg = Some g \<longrightarrow> \<not> trim_is_empty (mag_auth_token_env g)))"
    (is "_ = (?capacity \<and> ?ids \<and> (\<forall>a \<in> ?A. ?named a \<and> ?backend a) \<and> (\<forall>r \<in> ?R. ?route r) \<and> ?globals)")
proof -
  have given: "or_empty x \<noteq> [] \<longleftrightarrow> x \<notin> {None, Some []}" for x by (cases x) (auto simp: or_empty_def)
  have backend: "backend_ok cfg a \<longleftrightarrow> ?backend a" for a
    by (cases "ac_backend a") (auto simp: backend_ok_def given)
  have route: "rule_validate r = Inr () \<and> rr_source_account_id r \<in> ac_id ` ?A \<and> rr_target_account_id r \<in> ac_id ` ?A \<longleftrightarrow> ?route r"
    if "\<forall>a \<in> ?A. ?named a" for r
  proof -
    have "i \<noteq> []" if "i \<in> ac_id ` ?A" for i
      using that \<open>\<forall>a \<in> ?A. ?named a\<close> by auto
    then show ?thesis unfolding rule_validate_Inr by auto
  qed
  show ?thesis
  proof (cases "\<forall>a \<in> ?A. ?named a")
    case True
    then show ?thesis unfolding config_validate_Inr backend globals_ok_def route[OF True] by blast
  next
    case False
    then show ?thesis unfolding config_validate_Inr by blast
  qed
qed

theorem validation_exact_witness:
  "distinct (map ac_id (dc_accounts test_config)) \<and> \<not> fle (rr_volume_step test_rule) f64_zero"
  using validation_exact[THEN iffD1, OF test_config_valid] by (simp add: test_config_def)

text \<open>
  An accepted configuration starts: the copy engine is built from its routes, every account is
  found under its own id and under no other, and every route of a source account leads to a
  different account that exists.
\<close>

theorem accepted_config_starts:
  assumes "config_validate cfg = Inr ()"
  shows "\<exists>eng. engine_new (dc_routes cfg) = Inr eng \<and>
    (\<forall>i a. config_account cfg i = Some a \<longleftrightarrow> a \<in> set (dc_accounts cfg) \<and> ac_id a = i) \<and>
    (\<forall>i. \<forall>r \<in> set (routes_for eng i). rr_source_account_id r = i \<and> rr_target_account_id r \<noteq> i \<and>
       (\<exists>a. config_account cfg (rr_target_account_id r) = Some a))"
proof -
  note ok = assms[unfolded config_validate_Inr]
  obtain eng where eng: "engine_new (dc_routes cfg) = Inr eng"
    using ok engine_new_accepts by blast
  have acc: "config_account cfg i = Some a \<longleftrightarrow> a \<in> set (dc_accounts cfg) \<and> ac_id a = i" for i a
    using ok config_account_Some by blast
  have "\<exists>a. config_account cfg (rr_target_account_id r) = Some a" if "r \<in> set (dc_routes cfg)" for r
    using ok that unfolding acc by fastforce
  then show ?thesis
    using eng acc routes_for_target[OF eng] by (auto simp: routes_for_engine[OF eng])
qed

theorem accepted_config_starts_witness:
  "\<exists>eng. engine_new (dc_routes test_config) = Inr eng"
  using accepted_config_starts[OF test_config_valid] by blast

end
