(* ===== verification/Journal.thy ===== *)
theory Journal
  imports Config
begin

text \<open>
  The recovery journal of \<open>crates/copier-daemon/src/journal.rs\<close>: the records, the state they
  replay to, the append-only file and its recovery at start-up. The file is its contents, a byte
  string; \<open>serde_json\<close> is a parameter, an encoder and a decoder of records. The theorems: replaying
  what was appended gives the state the records build, the recovery step commutes with every later
  record, and a record the serialiser cannot read back, or a torn tail, stops the daemon from starting.
\<close>

section \<open>Records and the state they build\<close>

datatype stored_state = Queued | Dispatched | UnknownOutcome

record stored_command =
  sc_command :: execution_command
  sc_state :: stored_state

datatype mirror_mutation = Upsert mirror_binding | Remove string

datatype journal_record =
    EventPlanned string "execution_command list"
  | CommandDispatched string i64
  | CommandUnknown string i64 string
  | AckApplied execution_ack "mirror_mutation option"

record replay_state =
  seen_events :: "string set"
  commands :: "string \<rightharpoonup> stored_command"
  mirrors :: "string \<rightharpoonup> mirror_binding"

definition replay_default :: replay_state where
  "replay_default = \<lparr>seen_events = {}, commands = Map.empty, mirrors = Map.empty\<rparr>"

definition insert_queued ::
    "execution_command \<Rightarrow> (string \<rightharpoonup> stored_command) \<Rightarrow> (string \<rightharpoonup> stored_command)" where
  "insert_queued c m =
    (case m (cmd_command_id c) of
       Some _ \<Rightarrow> m
     | None \<Rightarrow> m(cmd_command_id c \<mapsto> \<lparr>sc_command = c, sc_state = Queued\<rparr>))"

definition set_stored_state ::
    "stored_state \<Rightarrow> string \<Rightarrow> (string \<rightharpoonup> stored_command) \<Rightarrow> (string \<rightharpoonup> stored_command)" where
  "set_stored_state st i m =
    (case m i of None \<Rightarrow> m | Some stored \<Rightarrow> m(i \<mapsto> stored\<lparr>sc_state := st\<rparr>))"

definition apply_mutation ::
    "mirror_mutation option \<Rightarrow> (string \<rightharpoonup> mirror_binding) \<Rightarrow> (string \<rightharpoonup> mirror_binding)" where
  "apply_mutation mutation m =
    (case mutation of
       None \<Rightarrow> m
     | Some (Upsert b) \<Rightarrow> m(binding_key b \<mapsto> b)
     | Some (Remove k) \<Rightarrow> m(k := None))"

fun replay_apply :: "journal_record \<Rightarrow> replay_state \<Rightarrow> replay_state" where
  "replay_apply (EventPlanned i cs) s =
     s\<lparr>seen_events := insert i (seen_events s), commands := fold insert_queued cs (commands s)\<rparr>"
| "replay_apply (CommandDispatched i t) s =
     s\<lparr>commands := set_stored_state Dispatched i (commands s)\<rparr>"
| "replay_apply (CommandUnknown i t reason) s =
     s\<lparr>commands := set_stored_state UnknownOutcome i (commands s)\<rparr>"
| "replay_apply (AckApplied a mutation) s =
     s\<lparr>commands :=
         (if ack_status a = Unknown then set_stored_state UnknownOutcome (ack_command_id a) (commands s)
          else (commands s)(ack_command_id a := None)),
       mirrors := apply_mutation mutation (mirrors s)\<rparr>"

definition settle_stored :: "stored_command \<Rightarrow> stored_command" where
  "settle_stored x = (if sc_state x = Dispatched then x\<lparr>sc_state := UnknownOutcome\<rparr> else x)"

definition finalize_after_replay :: "replay_state \<Rightarrow> replay_state" where
  "finalize_after_replay s = s\<lparr>commands := (\<lambda>i. map_option settle_stored (commands s i))\<rparr>"

section \<open>The file\<close>

text \<open>\<open>str::lines\<close>: a line ends at a newline, one carriage return before it belongs to the line end.\<close>

definition strip_cr :: "string \<Rightarrow> string" where
  "strip_cr p = (if p \<noteq> [] \<and> last p = carriage then butlast p else p)"

definition str_lines :: "string \<Rightarrow> string list" where
  "str_lines s = (let ps = split_on newline s in
     map strip_cr (butlast ps) @ (if last ps = [] then [] else [last ps]))"

text \<open>\<open>fs::read_to_string\<close> fails on bytes that are not UTF-8.\<close>

definition cont :: "nat \<Rightarrow> bool" where "cont b \<longleftrightarrow> 0x80 \<le> b \<and> b \<le> 0xBF"

definition seq3 :: "nat \<Rightarrow> nat \<Rightarrow> bool" where
  "seq3 a b \<longleftrightarrow> (a = 0xE0 \<and> 0xA0 \<le> b \<and> b \<le> 0xBF) \<or> (a = 0xED \<and> 0x80 \<le> b \<and> b \<le> 0x9F) \<or>
     ((0xE1 \<le> a \<and> a \<le> 0xEC \<or> a = 0xEE \<or> a = 0xEF) \<and> cont b)"

definition seq4 :: "nat \<Rightarrow> nat \<Rightarrow> bool" where
  "seq4 a b \<longleftrightarrow> (a = 0xF0 \<and> 0x90 \<le> b \<and> b \<le> 0xBF) \<or> (a = 0xF4 \<and> 0x80 \<le> b \<and> b \<le> 0x8F) \<or>
     (0xF1 \<le> a \<and> a \<le> 0xF3 \<and> cont b)"

fun utf8_bytes :: "nat list \<Rightarrow> bool" where
  "utf8_bytes [] = True"
| "utf8_bytes (a # s) =
    (if a < 0x80 then utf8_bytes s
     else (case s of
         [] \<Rightarrow> False
       | b # s1 \<Rightarrow>
           if 0xC2 \<le> a \<and> a \<le> 0xDF then cont b \<and> utf8_bytes s1
           else (case s1 of
               [] \<Rightarrow> False
             | c # s2 \<Rightarrow>
                 if seq3 a b then cont c \<and> utf8_bytes s2
                 else (case s2 of
                     [] \<Rightarrow> False
                   | d # s3 \<Rightarrow> seq4 a b \<and> cont c \<and> cont d \<and> utf8_bytes s3))))"

definition utf8_valid :: "string \<Rightarrow> bool" where
  "utf8_valid s = utf8_bytes (map of_char s)"

type_synonym encoder = "journal_record \<Rightarrow> string option"
type_synonym decoder = "string \<Rightarrow> journal_record option"

datatype journal_error =
    NotUtf8
  | InvalidRecord nat
  | DirectoryFailed
  | ReadFailed
  | OpenFailed
  | EncodeFailed
  | AppendFailed

fun replay_lines :: "decoder \<Rightarrow> nat \<Rightarrow> string list \<Rightarrow> replay_state \<Rightarrow> journal_error + replay_state" where
  "replay_lines dec n [] s = Inr s"
| "replay_lines dec n (l # ls) s =
    (if trim_is_empty l then replay_lines dec (n + 1) ls s
     else bindE (of_opt (InvalidRecord (n + 1)) (dec l)) (\<lambda>r.
       replay_lines dec (n + 1) ls (replay_apply r s)))"

definition replay_file :: "decoder \<Rightarrow> string option \<Rightarrow> journal_error + replay_state" where
  "replay_file dec contents =
    (case contents of
       None \<Rightarrow> Inr replay_default
     | Some raw \<Rightarrow>
         if utf8_valid raw then replay_lines dec 0 (str_lines raw) replay_default else Inl NotUtf8)"

record journal =
  jr_durability :: durability
  jr_contents :: string

text \<open>
  \<open>Journal::open\<close> once the directory is there and the file, if there is one, was read: the replay, and then
  the opening. \<open>accessible\<close> says whether the operating system could open the file for appending. A file that
  does not exist is created empty.
\<close>

definition journal_open ::
    "decoder \<Rightarrow> bool \<Rightarrow> string option \<Rightarrow> durability \<Rightarrow> journal_error + journal \<times> replay_state" where
  "journal_open dec accessible contents d =
    bindE (replay_file dec contents) (\<lambda>replay.
      if accessible
      then Inr (\<lparr>jr_durability = d, jr_contents = (case contents of None \<Rightarrow> [] | Some raw \<Rightarrow> raw)\<rparr>,
                finalize_after_replay replay)
      else Inl OpenFailed)"

text \<open>
  The whole of \<open>Journal::open\<close>. The directory comes first: if it cannot be created, nothing is replayed.
  Then the file is read, which can fail for other reasons than its encoding.
\<close>

datatype journal_access = NoDirectory | Unreadable | Readable bool

definition open_journal ::
    "decoder \<Rightarrow> journal_access \<Rightarrow> string option \<Rightarrow> durability \<Rightarrow> journal_error + journal \<times> replay_state" where
  "open_journal dec access contents d =
    (case access of
       NoDirectory \<Rightarrow> Inl DirectoryFailed
     | Unreadable \<Rightarrow> Inl ReadFailed
     | Readable accessible \<Rightarrow> journal_open dec accessible contents d)"

text \<open>
  What the operating system did with a write: everything, a part of it and then an error, or
  everything and then an error of the flush or the sync.
\<close>

datatype write_outcome = Written | Torn nat | Unsynced

definition journal_append ::
    "encoder \<Rightarrow> write_outcome \<Rightarrow> journal_record \<Rightarrow> (journal, journal_error, unit) handler" where
  "journal_append enc w r j =
    (if jr_durability j = NoDurability then (Inr (), j)
     else (case enc r of
         None \<Rightarrow> (Inl EncodeFailed, j)
       | Some s \<Rightarrow> (let line = s @ [newline] in
           (case w of
              Written \<Rightarrow> (Inr (), j\<lparr>jr_contents := jr_contents j @ line\<rparr>)
            | Torn n \<Rightarrow> (Inl AppendFailed, j\<lparr>jr_contents := jr_contents j @ take n line\<rparr>)
            | Unsynced \<Rightarrow> (Inl AppendFailed, j\<lparr>jr_contents := jr_contents j @ line\<rparr>)))))"

section \<open>Reading back what was written\<close>

lemma utf8_bytes_append: "utf8_bytes a \<Longrightarrow> utf8_bytes b \<Longrightarrow> utf8_bytes (a @ b)"
proof (induction a rule: utf8_bytes.induct)
  case (2 x s)
  note parts = "2.prems"(1)[unfolded utf8_bytes.simps(2)[of x s]]
  show ?case
    unfolding append_Cons utf8_bytes.simps(2)[of x "s @ b"]
    using parts "2.IH" "2.prems"(2)
    by (auto simp del: utf8_bytes.simps(2) split: list.splits if_splits simp: append_eq_Cons_conv)
qed simp

lemma utf8_valid_append: "utf8_valid a \<Longrightarrow> utf8_valid b \<Longrightarrow> utf8_valid (a @ b)"
  by (simp add: utf8_valid_def utf8_bytes_append)

lemma utf8_valid_simple [simp]: "utf8_valid []" "utf8_valid [newline]"
  by (simp_all add: utf8_valid_def newline_def)

text \<open>A text that fills exactly one line of the file.\<close>

definition one_line :: "string \<Rightarrow> bool" where
  "one_line s \<longleftrightarrow> newline \<notin> set s \<and> carriage \<notin> set s \<and> \<not> trim_is_empty s \<and> utf8_valid s"

definition file_of :: "string list \<Rightarrow> string" where
  "file_of ls = concat (map (\<lambda>l. l @ [newline]) ls)"

lemma file_of_simps [simp]:
  "file_of [] = []" "file_of (l # ls) = l @ newline # file_of ls"
  "file_of (xs @ ys) = file_of xs @ file_of ys"
  by (simp_all add: file_of_def)

lemma utf8_file_of: "\<forall>l \<in> set ls. utf8_valid l \<Longrightarrow> utf8_valid (file_of ls)"
  using utf8_valid_append[of _ "newline # file_of _"] utf8_valid_append[of "[newline]"]
  by (induction ls) auto

lemma split_file_of:
  "\<forall>l \<in> set ls. newline \<notin> set l \<Longrightarrow> newline \<notin> set t \<Longrightarrow> split_on newline (file_of ls @ t) = ls @ [t]"
  by (induction ls) (simp_all add: split_on_append split_on_no_sep)

lemma strip_cr_id: "carriage \<notin> set l \<Longrightarrow> strip_cr l = l"
  by (auto simp: strip_cr_def dest: last_in_set)

lemma str_lines_file_of:
  assumes "\<forall>l \<in> set ls. one_line l" "newline \<notin> set t"
  shows "str_lines (file_of ls @ t) = ls @ (if t = [] then [] else [t])"
proof -
  have "map strip_cr ls = ls" using assms(1) by (intro map_idI strip_cr_id) (simp add: one_line_def)
  then show ?thesis
    using split_file_of[of ls t] assms by (simp add: str_lines_def one_line_def)
qed

text \<open>
  What the journal relies on of \<open>serde_json\<close> for a set of records: each is encoded to one
  line of UTF-8, and decoding that line gives the record back.
\<close>

definition serde_ok :: "encoder \<Rightarrow> decoder \<Rightarrow> journal_record set \<Rightarrow> bool" where
  "serde_ok enc dec R \<longleftrightarrow> (\<forall>r \<in> R. \<exists>l. enc r = Some l \<and> one_line l \<and> dec l = Some r)"

definition line_of :: "encoder \<Rightarrow> journal_record \<Rightarrow> string" where
  "line_of enc r = the (enc r)"

lemma serde_okD:
  "serde_ok enc dec R \<Longrightarrow> r \<in> R \<Longrightarrow>
     enc r = Some (line_of enc r) \<and> one_line (line_of enc r) \<and> dec (line_of enc r) = Some r"
  by (force simp: serde_ok_def line_of_def)

lemma serde_ok_mono: "serde_ok enc dec R \<Longrightarrow> S \<subseteq> R \<Longrightarrow> serde_ok enc dec S"
  by (auto simp: serde_ok_def)

lemma replay_lines_app:
  "serde_ok enc dec (set rs) \<Longrightarrow>
     replay_lines dec n (map (line_of enc) rs @ ls) s =
     replay_lines dec (n + length rs) ls (fold replay_apply rs s)"
proof (induction rs arbitrary: n s)
  case (Cons r rs)
  have "serde_ok enc dec (set rs)" using Cons.prems by (rule serde_ok_mono) auto
  moreover have "dec (line_of enc r) = Some r" "\<not> trim_is_empty (line_of enc r)"
    using serde_okD[OF Cons.prems, of r] by (auto simp: one_line_def)
  ultimately show ?case using Cons.IH by simp
qed simp

lemma replay_file_tail:
  assumes "serde_ok enc dec (set rs)" "newline \<notin> set t" "utf8_valid t"
  shows "replay_file dec (Some (file_of (map (line_of enc) rs) @ t)) =
    replay_lines dec (length rs) (if t = [] then [] else [t]) (fold replay_apply rs replay_default)"
proof -
  have l: "\<forall>l \<in> set (map (line_of enc) rs). one_line l"
    using serde_okD[OF assms(1)] by auto
  then have "utf8_valid (file_of (map (line_of enc) rs) @ t)"
    using assms(3) by (intro utf8_valid_append utf8_file_of) (auto simp: one_line_def)
  then show ?thesis
    by (simp add: replay_file_def str_lines_file_of[OF l assms(2)] replay_lines_app[OF assms(1)]
        del: map_append)
qed

lemma replay_file_records:
  "serde_ok enc dec (set rs) \<Longrightarrow>
     replay_file dec (Some (file_of (map (line_of enc) rs))) = Inr (fold replay_apply rs replay_default)"
  using replay_file_tail[of enc dec rs "[]"] by simp

section \<open>Interface: a state rebuilt from a log\<close>

text \<open>
  What recovery needs of a store whose state is rebuilt by applying the records of its log, and
  that settles once after the replay what a lost process left open: settling twice is
  settling once, and it does not matter to the settled state whether a record is applied
  before or after settling. Then a state that was recovered, and the state of a process that never
  stopped, stay indistinguishable up to settling.
\<close>

locale recoverable_log =
  fixes act :: "'r \<Rightarrow> 's \<Rightarrow> 's" and settle :: "'s \<Rightarrow> 's"
  assumes settle_settle: "settle (settle s) = settle s"
    and settle_apply: "settle (act r (settle s)) = settle (act r s)"
begin

lemma settle_fold: "settle (fold act rs (settle s)) = settle (fold act rs s)"
proof (induction rs arbitrary: s)
  case (Cons r rs)
  have "settle (fold act (r # rs) (settle s)) = settle (fold act rs (settle (act r (settle s))))"
    by (simp add: Cons.IH)
  also have "\<dots> = settle (fold act rs (settle (act r s)))" by (simp only: settle_apply)
  also have "\<dots> = settle (fold act (r # rs) s)" by (simp add: Cons.IH)
  finally show ?case .
qed (simp add: settle_settle)

lemma settle_cong_fold: "settle s = settle t \<Longrightarrow> settle (fold act rs s) = settle (fold act rs t)"
  by (metis settle_fold)

lemma settle_cong_apply: "settle s = settle t \<Longrightarrow> settle (act r s) = settle (act r t)"
  by (metis settle_apply)

end

lemma settle_stored_state [simp]:
  "settle_stored (x\<lparr>sc_state := Dispatched\<rparr>) = x\<lparr>sc_state := UnknownOutcome\<rparr>"
  "settle_stored (x\<lparr>sc_state := UnknownOutcome\<rparr>) = x\<lparr>sc_state := UnknownOutcome\<rparr>"
  "settle_stored (x\<lparr>sc_state := Queued\<rparr>) = x\<lparr>sc_state := Queued\<rparr>"
  "settle_stored (settle_stored x) = settle_stored x"
  "(settle_stored x)\<lparr>sc_state := st\<rparr> = x\<lparr>sc_state := st\<rparr>"
  "sc_command (settle_stored x) = sc_command x"
  by (simp_all add: settle_stored_def)

abbreviation settle_commands :: "(string \<rightharpoonup> stored_command) \<Rightarrow> (string \<rightharpoonup> stored_command)" where
  "settle_commands m \<equiv> (\<lambda>i. map_option settle_stored (m i))"

lemma settle_twice [simp]: "map_option settle_stored (map_option settle_stored x) = map_option settle_stored x"
  by (cases x) simp_all

lemma settle_insert_queued:
  "settle_commands (insert_queued c m) = insert_queued c (settle_commands m)"
  by (auto simp: insert_queued_def settle_stored_def split: option.splits)

lemma settle_fold_insert:
  "settle_commands (fold insert_queued cs m) = fold insert_queued cs (settle_commands m)"
  by (induction cs arbitrary: m) (simp_all add: settle_insert_queued)

lemma settle_set_state:
  "settle_commands (set_stored_state st i (settle_commands m)) = settle_commands (set_stored_state st i m)"
  by (cases "m i") (simp_all add: set_stored_state_def fun_eq_iff)

interpretation journal_log: recoverable_log replay_apply finalize_after_replay
proof
  show "finalize_after_replay (finalize_after_replay s) = finalize_after_replay s" for s
    by (simp add: finalize_after_replay_def)
  show "finalize_after_replay (replay_apply r (finalize_after_replay s)) =
      finalize_after_replay (replay_apply r s)" for r s
    by (cases r)
      (auto simp: finalize_after_replay_def settle_fold_insert settle_set_state fun_eq_iff)
qed

section \<open>Interface: work that is issued once\<close>

text \<open>
  What the dispatcher needs of the store: a record makes only the keys it issues pending, and
  some records clear a key. Then a cleared key stays cleared until it is issued again.
\<close>

locale issued_work =
  fixes act :: "'r \<Rightarrow> 's \<Rightarrow> 's" and pending :: "'s \<Rightarrow> 'k \<Rightarrow> bool"
    and issues :: "'r \<Rightarrow> 'k set" and clears :: "'r \<Rightarrow> 'k set"
  assumes pending_act: "pending (act r s) k \<Longrightarrow> pending s k \<or> k \<in> issues r"
    and cleared_act: "k \<in> clears r \<Longrightarrow> \<not> pending (act r s) k"
begin

lemma pending_fold: "pending (fold act rs s) k \<Longrightarrow> pending s k \<or> (\<exists>r \<in> set rs. k \<in> issues r)"
proof (induction rs arbitrary: s)
  case (Cons r rs)
  then show ?case using pending_act[of r s k] by auto
qed simp

lemma cleared_for_good:
  assumes "k \<in> clears r" "\<forall>q \<in> set rs. k \<notin> issues q"
  shows "\<not> pending (fold act (r # rs) s) k"
  using assms cleared_act[of k r s] pending_fold[of rs "act r s" k] by auto

end

definition queued :: "replay_state \<Rightarrow> string \<Rightarrow> bool" where
  "queued s i \<longleftrightarrow> (case commands s i of None \<Rightarrow> False | Some x \<Rightarrow> sc_state x = Queued)"

fun planned_ids :: "journal_record \<Rightarrow> string set" where
  "planned_ids (EventPlanned e cs) = cmd_command_id ` set cs"
| "planned_ids _ = {}"

fun settled_ids :: "journal_record \<Rightarrow> string set" where
  "settled_ids (EventPlanned e cs) = {}"
| "settled_ids (CommandDispatched i t) = {i}"
| "settled_ids (CommandUnknown i t reason) = {i}"
| "settled_ids (AckApplied a mutation) = {ack_command_id a}"

lemma insert_queued_apply:
  "insert_queued c m i =
    (if i = cmd_command_id c \<and> m i = None then Some \<lparr>sc_command = c, sc_state = Queued\<rparr> else m i)"
  by (auto simp: insert_queued_def split: option.splits)

lemma fold_insert_queued_old: "m i = Some x \<Longrightarrow> fold insert_queued cs m i = Some x"
  by (induction cs arbitrary: m) (simp_all add: insert_queued_apply)

lemma fold_insert_queued_new:
  "fold insert_queued cs m i = Some x \<Longrightarrow>
     m i = Some x \<or> (m i = None \<and> sc_state x = Queued \<and> sc_command x \<in> set cs \<and>
       cmd_command_id (sc_command x) = i)"
proof (induction cs arbitrary: m)
  case (Cons c cs)
  have "fold insert_queued cs (insert_queued c m) i = Some x" using Cons.prems by simp
  from Cons.IH[OF this] show ?case
    by (auto simp: insert_queued_apply split: if_splits)
qed simp

lemma fold_insert_queued_dom: "i \<in> cmd_command_id ` set cs \<Longrightarrow> fold insert_queued cs m i \<noteq> None"
proof (induction cs arbitrary: m)
  case (Cons c cs)
  show ?case
  proof (cases "i = cmd_command_id c")
    case True
    then obtain x where "insert_queued c m i = Some x"
      by (cases "m i") (simp_all add: insert_queued_apply)
    then show ?thesis by (simp add: fold_insert_queued_old)
  qed (use Cons in auto)
qed simp

lemma set_stored_state_apply:
  "set_stored_state st i m k =
    (if k = i then map_option (\<lambda>x. x\<lparr>sc_state := st\<rparr>) (m k) else m k)"
  by (auto simp: set_stored_state_def split: option.splits)

lemma queued_apply:
  "queued (replay_apply r s) k \<Longrightarrow> queued s k \<or> k \<in> planned_ids r"
proof (cases r)
  case (EventPlanned e cs)
  assume "queued (replay_apply r s) k"
  then obtain x where "fold insert_queued cs (commands s) k = Some x" "sc_state x = Queued"
    using EventPlanned by (auto simp: queued_def split: option.splits)
  then show ?thesis
    using EventPlanned fold_insert_queued_new[of cs "commands s" k x] by (auto simp: queued_def)
qed (auto simp: queued_def set_stored_state_apply split: option.splits if_splits)

interpretation dispatch_queue: issued_work replay_apply queued planned_ids settled_ids
proof
  show "queued (replay_apply r s) k \<Longrightarrow> queued s k \<or> k \<in> planned_ids r" for r s k
    by (rule queued_apply)
  show "k \<in> settled_ids r \<Longrightarrow> \<not> queued (replay_apply r s) k" for r s k
    by (cases r) (auto simp: queued_def set_stored_state_apply split: option.splits)
qed

lemma queued_finalize [simp]: "queued (finalize_after_replay s) i = queued s i"
  by (auto simp: queued_def finalize_after_replay_def settle_stored_def split: option.splits)

section \<open>Properties\<close>

text \<open>Two records and the codec that knows them.\<close>

definition sample_records :: "journal_record list" where
  "sample_records = [CommandDispatched ''a'' 1, CommandUnknown ''a'' 2 ''lost'']"

definition sample_enc :: encoder where
  "sample_enc r = (case r of CommandDispatched _ _ \<Rightarrow> Some ''1'' | _ \<Rightarrow> Some ''2'')"

definition sample_dec :: decoder where
  "sample_dec l = (if l = ''1'' then Some (CommandDispatched ''a'' 1)
     else if l = ''2'' then Some (CommandUnknown ''a'' 2 ''lost'') else None)"

lemma sample_serde: "serde_ok sample_enc sample_dec (set sample_records)"
proof -
  have "one_line ''1''" "one_line ''2''"
    by (simp_all add: one_line_def separator_codes trim_is_empty_def ws1_def utf8_valid_def)
  then show ?thesis
    by (simp add: serde_ok_def sample_records_def sample_enc_def sample_dec_def)
qed

text \<open>
  C17. Nothing that was appended is lost. Records appended to a fresh journal are all accepted, and
  opening the file again replays exactly these records in their order, then marks as UNKNOWN
  every command that was dispatched and not yet acknowledged.
\<close>

theorem append_then_recover:
  assumes "serde_ok enc dec (set rs)" "d \<noteq> NoDurability"
  shows "\<exists>j. eachS (journal_append enc Written) rs \<lparr>jr_durability = d, jr_contents = []\<rparr> = (Inr (), j) \<and>
    journal_open dec True (Some (jr_contents j)) d =
      Inr (j, finalize_after_replay (fold replay_apply rs replay_default))"
proof -
  have app: "eachS (journal_append enc Written) rs j =
      (Inr (), j\<lparr>jr_contents := jr_contents j @ file_of (map (line_of enc) rs)\<rparr>)"
    if "serde_ok enc dec (set rs)" "jr_durability j \<noteq> NoDurability" for rs j
    using that
  proof (induction rs arbitrary: j)
    case (Cons r rs)
    have "journal_append enc Written r j = (Inr (), j\<lparr>jr_contents := jr_contents j @ line_of enc r @ [newline]\<rparr>)"
      using Cons.prems serde_okD[OF Cons.prems(1), of r] by (simp add: journal_append_def)
    moreover have "serde_ok enc dec (set rs)" using Cons.prems(1) by (rule serde_ok_mono) auto
    ultimately show ?case using Cons by simp
  qed simp
  show ?thesis
    using assms app[OF assms(1), of "\<lparr>jr_durability = d, jr_contents = []\<rparr>"]
    by (simp add: journal_open_def replay_file_records)
qed

theorem append_then_recover_witness:
  "\<exists>j. eachS (journal_append sample_enc Written) sample_records \<lparr>jr_durability = Flush, jr_contents = []\<rparr> = (Inr (), j)"
  using append_then_recover[OF sample_serde, of Flush] by auto

text \<open>
  C18. A torn or damaged tail is refused. If the file ends in text without a line end that
  the serialiser cannot read, as after a crash in the middle of a write, the daemon does not start:
  opening fails with the number of that line, and no record is silently dropped.
\<close>

theorem torn_tail_refused:
  assumes "serde_ok enc dec (set rs)"
    and "newline \<notin> set t" "utf8_valid t" "\<not> trim_is_empty t" "dec t = None"
  shows "journal_open dec accessible (Some (file_of (map (line_of enc) rs) @ t)) d =
    Inl (InvalidRecord (length rs + 1))"
  using assms replay_file_tail[OF assms(1-3)] by (auto simp: journal_open_def)

theorem torn_tail_refused_witness:
  "journal_open sample_dec True (Some (file_of (map (line_of sample_enc) sample_records) @ ''3'')) Flush =
    Inl (InvalidRecord 3)"
  using torn_tail_refused[OF sample_serde, of "''3''" True Flush]
  by (simp add: sample_records_def sample_dec_def newline_def utf8_valid_def trim_is_empty_def ws1_def)

text \<open>
  Recovery and running commute: whatever records follow, a daemon that was restarted and one that
  kept running reach the same state, up to the UNKNOWN marking of dispatched commands, so a
  second restart recovers the same state as if the first had not happened.
\<close>

theorem recovery_commutes:
  "finalize_after_replay (fold replay_apply rs (finalize_after_replay s)) =
   finalize_after_replay (fold replay_apply rs s)"
  by (rule journal_log.settle_fold)

text \<open>
  UNKNOWN fails closed. Once a record has dispatched a command, marked it UNKNOWN or
  acknowledged it, no sequence of later records makes it queued again, across restarts too, unless
  a later event plans the same command id.
\<close>

theorem never_requeued:
  assumes "i \<in> settled_ids r" "\<forall>q \<in> set rs. i \<notin> planned_ids q"
  shows "\<not> queued (fold replay_apply (r # rs) s) i \<and>
    \<not> queued (finalize_after_replay (fold replay_apply (r # rs) s)) i"
  using dispatch_queue.cleared_for_good[OF assms] by simp

theorem never_requeued_witness:
  "\<not> queued (fold replay_apply sample_records (replay_apply (EventPlanned ''e'' []) replay_default)) ''a''"
  using never_requeued[of "''a''" "CommandDispatched ''a'' 1" "[CommandUnknown ''a'' 2 ''lost'']"
      "replay_apply (EventPlanned ''e'' []) replay_default"]
  by (simp add: sample_records_def)

end
