(* ===== verification/Protocol.thy ===== *)
theory Protocol
  imports Model
begin

text \<open>
  The wire protocol of \<open>crates/copier-core/src/protocol.rs\<close>: frames of tab-separated fields, one
  per line, from an agent to the daemon and back. Parsing is the code's sequence of checks, each
  of which may return the first error; printing sanitises every free-text field. The theorems:
  a frame survives printing and parsing up to that sanitising, a printed frame is exactly one
  line whatever its fs hold, and an accepted event satisfies the validation of the model.
\<close>

section \<open>Frames and errors\<close>

definition WIRE_VERSION :: u16 where "WIRE_VERSION = 1"

record hello_frame =
  hello_account_id :: string
  hello_platform :: platform
  hello_token :: string

datatype agent_frame =
    Hello hello_frame
  | Event trade_event
  | Ack execution_ack
  | Ping i64

datatype server_frame =
    Welcome i64
  | Command execution_command
  | Error string string
  | Pong i64

datatype wire_error =
    Empty
  | UnknownFrame string
  | UnsupportedVersion u16
  | FieldCount string nat nat
  | Missing string
  | InvalidNumber string string
  | ModelErr model_error

section \<open>Fields\<close>

definition strip_line_end :: "string \<Rightarrow> string" where
  "strip_line_end value = trim_end_matches [carriage, newline] value"

definition require_len :: "string list \<Rightarrow> nat \<Rightarrow> string \<Rightarrow> wire_error + unit" where
  "require_len fs expected kind =
    (if length fs = expected then Inr () else Inl (FieldCount kind expected (length fs)))"

definition require_version :: "string \<Rightarrow> wire_error + unit" where
  "require_version value =
    bindE (of_opt (InvalidNumber ''version'' value) (parse_u16 value)) (\<lambda>version.
      if version = WIRE_VERSION then Inr () else Inl (UnsupportedVersion version))"

definition required :: "string \<Rightarrow> string \<Rightarrow> wire_error + string" where
  "required value name = (if value = [] then Inl (Missing name) else Inr value)"

definition optional_string :: "string \<Rightarrow> string option" where
  "optional_string value = (if value = [] then None else Some value)"

definition parse_side :: "string \<Rightarrow> wire_error + side option" where
  "parse_side value = opt_dec (\<lambda>v. mapE ModelErr (side_from_str v)) value"

definition parse_f64 :: "string \<Rightarrow> string \<Rightarrow> wire_error + f64" where
  "parse_f64 value field = of_opt (InvalidNumber field value) (parse_f64_str value)"

definition parse_opt_f64 :: "string \<Rightarrow> string \<Rightarrow> wire_error + f64 option" where
  "parse_opt_f64 value field = opt_dec (\<lambda>v. parse_f64 v field) value"

definition parse_int64 :: "string \<Rightarrow> string \<Rightarrow> wire_error + i64" where
  "parse_int64 value field = of_opt (InvalidNumber field value) (parse_i64 value)"

definition field :: "string \<Rightarrow> string" where
  "field value = replace_chars [tab, carriage, newline] '' '' value"

definition opt_str :: "string option \<Rightarrow> string" where
  "opt_str = opt_enc field"

definition opt_side :: "side option \<Rightarrow> string" where
  "opt_side = opt_enc side_to_string"

definition opt_f64 :: "f64 option \<Rightarrow> string" where
  "opt_f64 = opt_enc show_f64"

section \<open>Parsing\<close>

definition parse_hello :: "string list \<Rightarrow> wire_error + agent_frame" where
  "parse_hello fs =
    bindE (require_len fs 5 ''HELLO'') (\<lambda>_.
    bindE (require_version (fs ! 1)) (\<lambda>_.
    bindE (required (fs ! 2) ''account_id'') (\<lambda>account_id.
    bindE (mapE ModelErr (platform_from_str (fs ! 3))) (\<lambda>platform.
    Inr (Hello \<lparr>hello_account_id = account_id, hello_platform = platform,
      hello_token = fs ! 4\<rparr>)))))"

definition parse_event :: "string list \<Rightarrow> wire_error + agent_frame" where
  "parse_event fs =
    bindE (require_len fs 16 ''EVENT'') (\<lambda>_.
    bindE (require_version (fs ! 1)) (\<lambda>_.
    bindE (required (fs ! 2) ''event_id'') (\<lambda>event_id.
    bindE (required (fs ! 3) ''source_account_id'') (\<lambda>source_account_id.
    bindE (mapE ModelErr (platform_from_str (fs ! 4))) (\<lambda>platform.
    bindE (mapE ModelErr (action_from_str (fs ! 5))) (\<lambda>action.
    bindE (required (fs ! 6) ''source_order_id'') (\<lambda>source_order_id.
    bindE (required (fs ! 7) ''symbol'') (\<lambda>symbol.
    bindE (parse_side (fs ! 8)) (\<lambda>side.
    bindE (parse_f64 (fs ! 9) ''volume'') (\<lambda>volume.
    bindE (parse_opt_f64 (fs ! 10) ''remaining_volume'') (\<lambda>remaining_volume.
    bindE (parse_opt_f64 (fs ! 11) ''price'') (\<lambda>price.
    bindE (parse_opt_f64 (fs ! 12) ''stop_loss'') (\<lambda>stop_loss.
    bindE (parse_opt_f64 (fs ! 13) ''take_profit'') (\<lambda>take_profit.
    bindE (parse_int64 (fs ! 14) ''timestamp_unix_ns'') (\<lambda>timestamp.
    let event = \<lparr>ev_event_id = event_id, ev_source_account_id = source_account_id,
      ev_platform = platform, ev_action = action, ev_source_order_id = source_order_id,
      ev_symbol = symbol, ev_side = side, ev_volume = volume,
      ev_remaining_volume = remaining_volume, ev_price = price, ev_stop_loss = stop_loss,
      ev_take_profit = take_profit, ev_timestamp_unix_ns = timestamp,
      ev_origin_command_id = optional_string (fs ! 15)\<rparr> in
    bindE (mapE ModelErr (event_validate event)) (\<lambda>_. Inr (Event event)))))))))))))))))"

definition parse_ack :: "string list \<Rightarrow> wire_error + agent_frame" where
  "parse_ack fs =
    bindE (require_len fs 8 ''ACK'') (\<lambda>_.
    bindE (require_version (fs ! 1)) (\<lambda>_.
    bindE (required (fs ! 2) ''command_id'') (\<lambda>command_id.
    bindE (required (fs ! 3) ''account_id'') (\<lambda>account_id.
    bindE (mapE ModelErr (ack_status_from_str (fs ! 4))) (\<lambda>status.
    bindE (parse_int64 (fs ! 6) ''timestamp_unix_ns'') (\<lambda>timestamp.
    Inr (Ack \<lparr>ack_command_id = command_id, ack_account_id = account_id, ack_status = status,
      ack_external_id = optional_string (fs ! 5), ack_timestamp_unix_ns = timestamp,
      ack_message = optional_string (fs ! 7)\<rparr>)))))))"

definition parse_ping :: "string list \<Rightarrow> wire_error + agent_frame" where
  "parse_ping fs =
    bindE (require_len fs 3 ''PING'') (\<lambda>_.
    bindE (require_version (fs ! 1)) (\<lambda>_.
    bindE (parse_int64 (fs ! 2) ''timestamp_unix_ns'') (\<lambda>ts. Inr (Ping ts))))"

definition first_field :: "string list \<Rightarrow> wire_error + string" where
  "first_field fs = of_opt Empty (case fs of [] \<Rightarrow> None | kind # _ \<Rightarrow> Some kind)"

definition parse_agent_line :: "string \<Rightarrow> wire_error + agent_frame" where
  "parse_agent_line line =
    (let fs = split_on tab (strip_line_end line) in
     bindE (first_field fs) (\<lambda>kind.
       if kind = ''HELLO'' then parse_hello fs
       else if kind = ''EVENT'' then parse_event fs
       else if kind = ''ACK'' then parse_ack fs
       else if kind = ''PING'' then parse_ping fs
       else Inl (UnknownFrame kind)))"

definition parse_welcome :: "string list \<Rightarrow> wire_error + server_frame" where
  "parse_welcome fs =
    bindE (require_len fs 3 ''WELCOME'') (\<lambda>_.
    bindE (require_version (fs ! 1)) (\<lambda>_.
    bindE (parse_int64 (fs ! 2) ''server_time_unix_ns'') (\<lambda>t. Inr (Welcome t))))"

definition parse_command :: "string list \<Rightarrow> wire_error + server_frame" where
  "parse_command fs =
    bindE (require_len fs 18 ''COMMAND'') (\<lambda>_.
    bindE (require_version (fs ! 1)) (\<lambda>_.
    bindE (required (fs ! 2) ''command_id'') (\<lambda>command_id.
    bindE (required (fs ! 3) ''origin_event_id'') (\<lambda>origin_event_id.
    bindE (required (fs ! 4) ''route_id'') (\<lambda>route_id.
    bindE (required (fs ! 5) ''source_account_id'') (\<lambda>source_account_id.
    bindE (required (fs ! 6) ''source_order_id'') (\<lambda>source_order_id.
    bindE (required (fs ! 7) ''target_account_id'') (\<lambda>target_account_id.
    bindE (mapE ModelErr (action_from_str (fs ! 8))) (\<lambda>action.
    bindE (required (fs ! 10) ''symbol'') (\<lambda>symbol.
    bindE (parse_side (fs ! 11)) (\<lambda>side.
    bindE (parse_f64 (fs ! 12) ''volume'') (\<lambda>volume.
    bindE (parse_f64 (fs ! 13) ''source_volume'') (\<lambda>source_volume.
    bindE (parse_opt_f64 (fs ! 14) ''source_remaining_volume'') (\<lambda>source_remaining_volume.
    bindE (parse_opt_f64 (fs ! 15) ''price'') (\<lambda>price.
    bindE (parse_opt_f64 (fs ! 16) ''stop_loss'') (\<lambda>stop_loss.
    bindE (parse_opt_f64 (fs ! 17) ''take_profit'') (\<lambda>take_profit.
    Inr (Command \<lparr>cmd_command_id = command_id, cmd_origin_event_id = origin_event_id,
      cmd_route_id = route_id, cmd_source_account_id = source_account_id,
      cmd_source_order_id = source_order_id, cmd_target_account_id = target_account_id,
      cmd_action = action, cmd_target_order_id = optional_string (fs ! 9),
      cmd_symbol = symbol, cmd_side = side, cmd_volume = volume,
      cmd_source_volume = source_volume, cmd_source_remaining_volume = source_remaining_volume,
      cmd_price = price, cmd_stop_loss = stop_loss, cmd_take_profit = take_profit,
      cmd_created_unix_ns = 0\<rparr>))))))))))))))))))"

definition parse_error :: "string list \<Rightarrow> wire_error + server_frame" where
  "parse_error fs =
    bindE (require_len fs 4 ''ERROR'') (\<lambda>_.
    bindE (require_version (fs ! 1)) (\<lambda>_. Inr (Error (fs ! 2) (fs ! 3))))"

definition parse_pong :: "string list \<Rightarrow> wire_error + server_frame" where
  "parse_pong fs =
    bindE (require_len fs 3 ''PONG'') (\<lambda>_.
    bindE (require_version (fs ! 1)) (\<lambda>_.
    bindE (parse_int64 (fs ! 2) ''server_time_unix_ns'') (\<lambda>t. Inr (Pong t))))"

definition parse_server_line :: "string \<Rightarrow> wire_error + server_frame" where
  "parse_server_line line =
    (let fs = split_on tab (strip_line_end line) in
     bindE (first_field fs) (\<lambda>kind.
       if kind = ''WELCOME'' then parse_welcome fs
       else if kind = ''COMMAND'' then parse_command fs
       else if kind = ''ERROR'' then parse_error fs
       else if kind = ''PONG'' then parse_pong fs
       else Inl (UnknownFrame kind)))"

section \<open>Printing\<close>

text \<open>The \<open>format!\<close> strings: the fields joined by tabs, closed by a newline.\<close>

definition frame_line :: "string list \<Rightarrow> string" where
  "frame_line fs = join_with tab fs @ [newline]"

definition show_version :: string where
  "show_version = show_nat (unat WIRE_VERSION)"

fun agent_fields :: "agent_frame \<Rightarrow> string list" where
  "agent_fields (Hello h) =
    [''HELLO'', show_version, field (hello_account_id h), platform_to_string (hello_platform h),
     field (hello_token h)]"
| "agent_fields (Event e) =
    [''EVENT'', show_version, field (ev_event_id e), field (ev_source_account_id e),
     platform_to_string (ev_platform e), action_to_string (ev_action e),
     field (ev_source_order_id e), field (ev_symbol e), opt_side (ev_side e),
     show_f64 (ev_volume e), opt_f64 (ev_remaining_volume e), opt_f64 (ev_price e),
     opt_f64 (ev_stop_loss e), opt_f64 (ev_take_profit e), show_i64 (ev_timestamp_unix_ns e),
     opt_str (ev_origin_command_id e)]"
| "agent_fields (Ack a) =
    [''ACK'', show_version, field (ack_command_id a), field (ack_account_id a),
     ack_status_to_string (ack_status a), opt_str (ack_external_id a),
     show_i64 (ack_timestamp_unix_ns a), opt_str (ack_message a)]"
| "agent_fields (Ping ts) = [''PING'', show_version, show_i64 ts]"

definition encode_agent_frame :: "agent_frame \<Rightarrow> string" where
  "encode_agent_frame frame = frame_line (agent_fields frame)"

fun server_fields :: "server_frame \<Rightarrow> string list" where
  "server_fields (Welcome t) = [''WELCOME'', show_version, show_i64 t]"
| "server_fields (Command c) =
    [''COMMAND'', show_version, field (cmd_command_id c), field (cmd_origin_event_id c),
     field (cmd_route_id c), field (cmd_source_account_id c), field (cmd_source_order_id c),
     field (cmd_target_account_id c), action_to_string (cmd_action c),
     opt_str (cmd_target_order_id c), field (cmd_symbol c), opt_side (cmd_side c),
     show_f64 (cmd_volume c), show_f64 (cmd_source_volume c),
     opt_f64 (cmd_source_remaining_volume c), opt_f64 (cmd_price c), opt_f64 (cmd_stop_loss c),
     opt_f64 (cmd_take_profit c)]"
| "server_fields (Error code message) = [''ERROR'', show_version, field code, field message]"
| "server_fields (Pong t) = [''PONG'', show_version, show_i64 t]"

definition encode_server_frame :: "server_frame \<Rightarrow> string" where
  "encode_server_frame frame = frame_line (server_fields frame)"

section \<open>Framing\<close>

lemma clean_field [clean_intros, simp]: "clean (field s)"
  using set_replace_chars[of "[tab, carriage, newline]" "'' ''" s]
  by (auto simp: field_def clean_def separator_codes)

lemma field_clean [simp]: "clean s \<Longrightarrow> field s = s"
  unfolding field_def by (rule replace_chars_id) (auto simp: clean_def)

lemma field_field [simp]: "field (field s) = field s"
  by simp

lemma field_Nil_iff [simp]: "field s = [] \<longleftrightarrow> s = []"
  by (cases s) (simp_all add: field_def replace_chars_def)

lemma clean_keyword_literals [clean_intros, simp]:
  "clean ''HELLO''" "clean ''EVENT''" "clean ''ACK''" "clean ''PING''"
  "clean ''WELCOME''" "clean ''COMMAND''" "clean ''ERROR''" "clean ''PONG''"
  by (simp_all add: clean_def separator_codes)

lemma show_version_eq: "show_version = ''1''"
  by code_simp

lemma clean_scalars [clean_intros, simp]:
  "clean show_version" "clean (platform_to_string p)" "clean (action_to_string a)"
  "clean (ack_status_to_string k)" "clean (show_i64 t)" "clean (show_f64 x)"
  "clean (opt_str u)" "clean (opt_side s)" "clean (opt_f64 y)"
  using i64_text.clean_enc[where x = t] f64_text.clean_enc[where x = x]
    side_text.clean_opt_enc[where y = s] f64_text.clean_opt_enc[where y = y]
  by (simp_all add: show_version_eq clean_keywords opt_str_def opt_side_def opt_f64_def)
    (simp add: clean_def separator_codes, cases u, simp_all add: opt_enc_def)

lemma clean_agent_fields: "\<forall>w \<in> set (agent_fields f). clean w"
  by (cases f) simp_all

lemma clean_server_fields: "\<forall>w \<in> set (server_fields f). clean w"
  by (cases f) simp_all

lemma fields_nonempty [simp]: "agent_fields f \<noteq> []" "server_fields g \<noteq> []"
  by (cases f; simp) (cases g; simp)

lemma join_clean:
  "\<forall>w \<in> set ws. clean w \<Longrightarrow> newline \<notin> set (join_with tab ws) \<and> carriage \<notin> set (join_with tab ws)"
  by (induction tab ws rule: join_with.induct) (auto simp: clean_def)

lemma frame_line_fields:
  assumes "ws \<noteq> []" "\<forall>w \<in> set ws. clean w"
  shows "split_on tab (strip_line_end (frame_line ws)) = ws"
proof -
  have "last (join_with tab ws) \<notin> {carriage, newline}" if "join_with tab ws \<noteq> []"
    using join_clean[OF assms(2)] last_in_set[OF that] by auto
  then have "strip_line_end (frame_line ws) = join_with tab ws"
    unfolding strip_line_end_def frame_line_def by (intro trim_end_clean) auto
  then show ?thesis using assms by (simp add: split_on_join_with clean_def)
qed

lemma frame_line_one_line:
  assumes "\<forall>w \<in> set ws. clean w"
  shows "split_on newline (frame_line ws) = [join_with tab ws, []]"
  using join_clean[OF assms] by (simp add: frame_line_def split_on_append)

section \<open>Round trips\<close>

text \<open>
  What a frame looks like after printing and parsing: free text is sanitised, an empty optional
  text is absent, and a command does not carry its creation time.
\<close>

definition wire_opt :: "string option \<Rightarrow> string option" where
  "wire_opt x = (case x of None \<Rightarrow> None | Some s \<Rightarrow> if s = [] then None else Some (field s))"

definition wire_event :: "trade_event \<Rightarrow> trade_event" where
  "wire_event e = e\<lparr>ev_event_id := field (ev_event_id e),
     ev_source_account_id := field (ev_source_account_id e),
     ev_source_order_id := field (ev_source_order_id e), ev_symbol := field (ev_symbol e),
     ev_origin_command_id := wire_opt (ev_origin_command_id e)\<rparr>"

fun wire_agent :: "agent_frame \<Rightarrow> agent_frame" where
  "wire_agent (Hello h) = Hello (h\<lparr>hello_account_id := field (hello_account_id h),
     hello_token := field (hello_token h)\<rparr>)"
| "wire_agent (Event e) = Event (wire_event e)"
| "wire_agent (Ack a) = Ack (a\<lparr>ack_command_id := field (ack_command_id a),
     ack_account_id := field (ack_account_id a), ack_external_id := wire_opt (ack_external_id a),
     ack_message := wire_opt (ack_message a)\<rparr>)"
| "wire_agent (Ping t) = Ping t"

definition wire_command :: "execution_command \<Rightarrow> execution_command" where
  "wire_command c = c\<lparr>cmd_command_id := field (cmd_command_id c),
     cmd_origin_event_id := field (cmd_origin_event_id c), cmd_route_id := field (cmd_route_id c),
     cmd_source_account_id := field (cmd_source_account_id c),
     cmd_source_order_id := field (cmd_source_order_id c),
     cmd_target_account_id := field (cmd_target_account_id c),
     cmd_target_order_id := wire_opt (cmd_target_order_id c), cmd_symbol := field (cmd_symbol c),
     cmd_created_unix_ns := 0\<rparr>"

fun wire_server :: "server_frame \<Rightarrow> server_frame" where
  "wire_server (Welcome t) = Welcome t"
| "wire_server (Command c) = Command (wire_command c)"
| "wire_server (Error code message) = Error (field code) (field message)"
| "wire_server (Pong t) = Pong t"

text \<open>The frames the other side accepts: required texts present, events valid.\<close>

fun agent_frame_ok :: "agent_frame \<Rightarrow> bool" where
  "agent_frame_ok (Hello h) \<longleftrightarrow> hello_account_id h \<noteq> []"
| "agent_frame_ok (Event e) \<longleftrightarrow> event_validate e = Inr ()"
| "agent_frame_ok (Ack a) \<longleftrightarrow> ack_command_id a \<noteq> [] \<and> ack_account_id a \<noteq> []"
| "agent_frame_ok (Ping t) \<longleftrightarrow> True"

fun server_frame_ok :: "server_frame \<Rightarrow> bool" where
  "server_frame_ok (Command c) \<longleftrightarrow>
     cmd_command_id c \<noteq> [] \<and> cmd_origin_event_id c \<noteq> [] \<and> cmd_route_id c \<noteq> [] \<and>
     cmd_source_account_id c \<noteq> [] \<and> cmd_source_order_id c \<noteq> [] \<and>
     cmd_target_account_id c \<noteq> [] \<and> cmd_symbol c \<noteq> []"
| "server_frame_ok f \<longleftrightarrow> True"

lemma wire_scalars [simp]:
  "require_version show_version = Inr ()"
  "parse_f64 (show_f64 x) nm = Inr x"
  "parse_opt_f64 (opt_f64 y) nm = Inr y"
  "parse_int64 (show_i64 t) nm = Inr t"
  "parse_side (opt_side s) = Inr s"
  "mapE g (platform_from_str (platform_to_string p)) = Inr p"
  "mapE h (action_from_str (action_to_string a)) = Inr a"
  "mapE k (ack_status_from_str (ack_status_to_string st)) = Inr st"
  "optional_string (opt_str u) = wire_opt u"
proof -
  show "parse_opt_f64 (opt_f64 y) nm = Inr y"
    using f64_text.opt_dec_enc[of "InvalidNumber nm v" for v]
    by (cases y) (simp_all add: parse_opt_f64_def opt_f64_def opt_dec_def opt_enc_def parse_f64_def)
  show "require_version show_version = Inr ()"
    by (simp add: require_version_def show_version_eq parse_u16_def parse_digits_def is_digit_def
        digits_value_def digit_val_def WIRE_VERSION_def)
  show "optional_string (opt_str u) = wire_opt u"
    by (cases u) (simp_all add: optional_string_def opt_str_def opt_enc_def wire_opt_def)
qed (simp_all add: parse_f64_def parse_int64_def parse_side_def opt_side_def side_text.opt_dec_enc
    platform_text.dec_enc action_text.dec_enc ack_status_text.dec_enc)

lemma required_field [simp]: "s \<noteq> [] \<Longrightarrow> required (field s) nm = Inr (field s)"
  by (simp add: required_def)

lemma validate_wire_event: "event_validate (wire_event e) = Inr () \<longleftrightarrow> event_validate e = Inr ()"
  by (simp add: event_validate_Inr wire_event_def)

lemma wire_event_rebuild:
  "\<lparr>ev_event_id = field (ev_event_id e), ev_source_account_id = field (ev_source_account_id e),
    ev_platform = ev_platform e, ev_action = ev_action e,
    ev_source_order_id = field (ev_source_order_id e), ev_symbol = field (ev_symbol e),
    ev_side = ev_side e, ev_volume = ev_volume e, ev_remaining_volume = ev_remaining_volume e,
    ev_price = ev_price e, ev_stop_loss = ev_stop_loss e, ev_take_profit = ev_take_profit e,
    ev_timestamp_unix_ns = ev_timestamp_unix_ns e,
    ev_origin_command_id = wire_opt (ev_origin_command_id e)\<rparr> = wire_event e"
  by (simp add: wire_event_def)

lemma first_field_Cons [simp]: "first_field (k # fs) = Inr k"
  by (simp add: first_field_def)

lemmas agent_parsers = parse_hello_def parse_event_def parse_ack_def parse_ping_def
lemmas server_parsers = parse_welcome_def parse_command_def parse_error_def parse_pong_def

lemma parse_encode_agent:
  assumes "agent_frame_ok f" shows "parse_agent_line (encode_agent_frame f) = Inr (wire_agent f)"
proof -
  have fs: "split_on tab (strip_line_end (encode_agent_frame f)) = agent_fields f"
    unfolding encode_agent_frame_def by (rule frame_line_fields) (simp_all add: clean_agent_fields)
  show ?thesis
  proof (cases f)
    case (Event e)
    have v: "event_validate (wire_event e) = Inr ()"
      using assms Event by (simp add: validate_wire_event)
    have ne: "ev_event_id e \<noteq> []" "ev_source_account_id e \<noteq> []" "ev_source_order_id e \<noteq> []"
      "ev_symbol e \<noteq> []"
      using assms Event by (simp_all add: event_validate_Inr)
    show ?thesis
      unfolding parse_agent_line_def fs Let_def
      using v ne by (simp add: Event parse_event_def require_len_def wire_event_rebuild)
  qed (use assms fs in \<open>simp_all add: parse_agent_line_def agent_parsers require_len_def\<close>)
qed

lemma parse_encode_server:
  assumes "server_frame_ok f" shows "parse_server_line (encode_server_frame f) = Inr (wire_server f)"
proof -
  have fs: "split_on tab (strip_line_end (encode_server_frame f)) = server_fields f"
    unfolding encode_server_frame_def by (rule frame_line_fields) (simp_all add: clean_server_fields)
  show ?thesis
    using assms unfolding parse_server_line_def fs Let_def
    by (cases f) (simp_all add: server_parsers require_len_def wire_command_def)
qed

section \<open>Accepted frames\<close>

lemma required_Inr [outcome_simps]: "required v nm = Inr w \<longleftrightarrow> v \<noteq> [] \<and> w = v"
  by (auto simp: required_def)

lemma require_len_Inr [outcome_simps]: "require_len fs n k = Inr u \<longleftrightarrow> length fs = n"
  by (simp add: require_len_def)

lemma require_version_Inr [outcome_simps]:
  "require_version v = Inr u \<longleftrightarrow> parse_u16 v = Some WIRE_VERSION"
  by (cases u) (auto simp: require_version_def outcome_simps split: if_splits)

fun agent_kind :: "agent_frame \<Rightarrow> string" where
  "agent_kind (Hello h) = ''HELLO''"
| "agent_kind (Event e) = ''EVENT''"
| "agent_kind (Ack a) = ''ACK''"
| "agent_kind (Ping t) = ''PING''"

fun agent_field_count :: "agent_frame \<Rightarrow> nat" where
  "agent_field_count (Hello h) = 5"
| "agent_field_count (Event e) = 16"
| "agent_field_count (Ack a) = 8"
| "agent_field_count (Ping t) = 3"

text \<open>The texts a frame carries are clean, and no optional text is empty.\<close>

definition opt_text_ok :: "string option \<Rightarrow> bool" where
  "opt_text_ok x = (case x of None \<Rightarrow> True | Some s \<Rightarrow> s \<noteq> [] \<and> clean s)"

fun agent_frame_clean :: "agent_frame \<Rightarrow> bool" where
  "agent_frame_clean (Hello h) \<longleftrightarrow> clean (hello_account_id h) \<and> clean (hello_token h)"
| "agent_frame_clean (Event e) \<longleftrightarrow> clean (ev_event_id e) \<and> clean (ev_source_account_id e) \<and>
     clean (ev_source_order_id e) \<and> clean (ev_symbol e) \<and> opt_text_ok (ev_origin_command_id e)"
| "agent_frame_clean (Ack a) \<longleftrightarrow> clean (ack_command_id a) \<and> clean (ack_account_id a) \<and>
     opt_text_ok (ack_external_id a) \<and> opt_text_ok (ack_message a)"
| "agent_frame_clean (Ping t) \<longleftrightarrow> True"

lemma wire_opt_id: "opt_text_ok x \<Longrightarrow> wire_opt x = x"
  by (cases x) (auto simp: opt_text_ok_def wire_opt_def)

lemma wire_agent_id: "agent_frame_clean f \<Longrightarrow> wire_agent f = f"
  by (cases f) (simp_all add: wire_event_def wire_opt_id)

lemma opt_text_ok_optional_string: "clean s \<Longrightarrow> opt_text_ok (optional_string s)"
  by (simp add: opt_text_ok_def optional_string_def)

lemma parse_agent_fields:
  assumes "parse_agent_line l = Inr f" and "fs = split_on tab (strip_line_end l)"
  obtains "fs ! 0 = agent_kind f" "length fs = agent_field_count f"
      "parse_u16 (fs ! 1) = Some WIRE_VERSION" "agent_frame_ok f"
      "(\<forall>w \<in> set fs. clean w) \<Longrightarrow> agent_frame_clean f"
proof -
  obtain k rest where fs: "fs = k # rest"
    by (cases fs) (simp_all add: assms(2))
  have sel: "clean (fs ! i)" if "\<forall>w \<in> set fs. clean w" "i < length fs" for i
    using that by simp
  consider (H) "k = ''HELLO''" "parse_hello fs = Inr f" | (E) "k = ''EVENT''" "parse_event fs = Inr f"
    | (A) "k = ''ACK''" "parse_ack fs = Inr f" | (P) "k = ''PING''" "parse_ping fs = Inr f"
    using assms(1) unfolding parse_agent_line_def Let_def assms(2)[symmetric] fs
    by (auto split: if_splits)
  then show thesis
  proof cases
    case H
    show ?thesis
      by (rule that; use H sel fs in \<open>auto simp: parse_hello_def outcome_simps\<close>)
  next
    case E
    show ?thesis
      by (rule that; use E sel fs in \<open>auto simp: parse_event_def Let_def outcome_simps
          intro!: opt_text_ok_optional_string\<close>)
  next
    case A
    show ?thesis
      by (rule that; use A sel fs in \<open>auto simp: parse_ack_def outcome_simps
          intro!: opt_text_ok_optional_string\<close>)
  next
    case P
    show ?thesis
      by (rule that; use P sel fs in \<open>auto simp: parse_ping_def outcome_simps\<close>)
  qed
qed

text \<open>Which errors a line can give: the parsers return the unknown kind and nothing before it.\<close>

lemma parser_errors:
  "parse_hello fs \<noteq> Inl Empty" "parse_hello fs \<noteq> Inl (UnknownFrame k)"
  "parse_event fs \<noteq> Inl Empty" "parse_event fs \<noteq> Inl (UnknownFrame k)"
  "parse_ack fs \<noteq> Inl Empty" "parse_ack fs \<noteq> Inl (UnknownFrame k)"
  "parse_ping fs \<noteq> Inl Empty" "parse_ping fs \<noteq> Inl (UnknownFrame k)"
proof -
  have leaf: "require_len fs n m \<noteq> Inl e" "require_version v \<noteq> Inl e" "required v m \<noteq> Inl e"
    "parse_f64 v m \<noteq> Inl e" "parse_int64 v m \<noteq> Inl e" "parse_opt_f64 v m \<noteq> Inl e"
    "parse_side v \<noteq> Inl e" "mapE ModelErr r \<noteq> Inl e"
    if "e = Empty \<or> e = UnknownFrame k" for n m v e and r :: "model_error + 'z"
    using that
    by (auto simp: require_len_def require_version_def required_def parse_f64_def parse_int64_def
        parse_opt_f64_def parse_side_def opt_dec_def outcome_simps split: if_splits)
  show "parse_hello fs \<noteq> Inl Empty" "parse_hello fs \<noteq> Inl (UnknownFrame k)"
    "parse_event fs \<noteq> Inl Empty" "parse_event fs \<noteq> Inl (UnknownFrame k)"
    "parse_ack fs \<noteq> Inl Empty" "parse_ack fs \<noteq> Inl (UnknownFrame k)"
    "parse_ping fs \<noteq> Inl Empty" "parse_ping fs \<noteq> Inl (UnknownFrame k)"
    unfolding agent_parsers Let_def by (auto simp: bindE_Inl leaf)
qed

section \<open>Properties\<close>

text \<open>The event of \<open>tests/protocol.rs\<close>, and a login whose token tries to smuggle in a second line.\<close>

definition sample_event :: trade_event where
  "sample_event = \<lparr>ev_event_id = ''evt-1'', ev_source_account_id = ''master'', ev_platform = Mt5,
     ev_action = Open, ev_source_order_id = ''42'', ev_symbol = ''EURUSD'', ev_side = Some Buy,
     ev_volume = of_frac False 1 4, ev_remaining_volume = Some (of_frac False 1 4),
     ev_price = Some (of_frac False 11 10), ev_stop_loss = Some (of_frac False 109 100),
     ev_take_profit = Some (of_frac False 112 100), ev_timestamp_unix_ns = 123,
     ev_origin_command_id = None\<rparr>"

lemma sample_event_ok: "agent_frame_ok (Event sample_event)" "agent_frame_clean (Event sample_event)"
proof -
  show "agent_frame_ok (Event sample_event)"
    by (simp add: sample_event_def event_validate_Inr f64_eval)
  show "agent_frame_clean (Event sample_event)"
    by (simp add: sample_event_def clean_def separator_codes opt_text_ok_def)
qed

text \<open>
  C33. A frame an agent prints is read back by the daemon as the same frame, up to the sanitising of
  its free texts: for every frame with its required texts present (and a valid event), parsing what
  \<open>encode_agent_frame\<close> printed succeeds and gives every number, enumeration and optional field
  back exactly, in particular every \<open>f64\<close>.
\<close>

theorem agent_wire_round_trip:
  "agent_frame_ok f \<Longrightarrow> parse_agent_line (encode_agent_frame f) = Inr (wire_agent f)"
  by (rule parse_encode_agent)

theorem agent_wire_round_trip_witness:
  "parse_agent_line (encode_agent_frame (Event sample_event)) = Inr (Event sample_event)"
  using agent_wire_round_trip[OF sample_event_ok(1)] wire_agent_id[OF sample_event_ok(2)] by simp

text \<open>A command with all its texts, and an empty order id, which the wire cannot tell from none.\<close>

definition sample_command :: execution_command where
  "sample_command = \<lparr>cmd_command_id = ''0a1b'', cmd_origin_event_id = ''evt-1'', cmd_route_id = ''r1'',
     cmd_source_account_id = ''master'', cmd_source_order_id = ''100'', cmd_target_account_id = ''follower'',
     cmd_action = Open, cmd_target_order_id = Some [], cmd_symbol = ''XAUUSD'', cmd_side = Some Sell,
     cmd_volume = of_frac False 1 10, cmd_source_volume = of_frac False 1 2,
     cmd_source_remaining_volume = None, cmd_price = Some (of_frac False 2350 1),
     cmd_stop_loss = Some (of_frac False 2300 1), cmd_take_profit = Some (of_frac False 2400 1), cmd_created_unix_ns = 5\<rparr>"

text \<open>
  C34. A command the daemon prints is read back by the agent with the same ids, action, prices and
  volumes, up to the sanitising of its free texts and its creation time, which the wire does not carry.
\<close>

theorem server_wire_round_trip:
  "server_frame_ok f \<Longrightarrow> parse_server_line (encode_server_frame f) = Inr (wire_server f)"
  by (rule parse_encode_server)

theorem server_wire_round_trip_witness:
  "parse_server_line (encode_server_frame (Command sample_command)) =
     Inr (Command (sample_command\<lparr>cmd_target_order_id := None, cmd_created_unix_ns := 0\<rparr>))"
  using server_wire_round_trip[of "Command sample_command"]
  by (simp add: sample_command_def wire_command_def wire_opt_def clean_def separator_codes)

text \<open>
  C35. No text can break the framing. Whatever a frame's fields hold, tabs and line ends included,
  what is printed is one line: a body without any line end, closed by one newline; and
  splitting the line on tabs gives the fields of its kind, never more.
\<close>

theorem printed_frame_is_one_line:
  "(\<exists>body. encode_agent_frame f = body @ [newline] \<and> newline \<notin> set body \<and> carriage \<notin> set body \<and>
      length (split_on tab body) = agent_field_count f) \<and>
   (\<exists>body. encode_server_frame g = body @ [newline] \<and> newline \<notin> set body \<and> carriage \<notin> set body \<and>
      split_on tab body = server_fields g)"
proof -
  have len: "length (agent_fields f) = agent_field_count f"
    by (cases f) simp_all
  have "split_on tab (join_with tab ws) = ws" if "ws \<noteq> []" "\<forall>w \<in> set ws. clean w" for ws
    using that by (simp add: split_on_join_with clean_def)
  then show ?thesis
    using join_clean[OF clean_agent_fields, of f] join_clean[OF clean_server_fields, of g]
      clean_agent_fields[of f] clean_server_fields[of g] len
    by (simp_all add: encode_agent_frame_def encode_server_frame_def frame_line_def)
qed

text \<open>
  C36. Whatever line the daemon accepts is a frame of protocol version 1 with the kind and the exact
  number of fields of that kind, its required texts are present, and an accepted event has passed
  the validation of the model: nothing invalid enters the daemon through the parser.
\<close>

theorem accepted_line_is_wellformed:
  assumes "parse_agent_line l = Inr f"
  shows "(split_on tab (strip_line_end l)) ! 0 = agent_kind f \<and>
    length (split_on tab (strip_line_end l)) = agent_field_count f \<and>
    parse_u16 ((split_on tab (strip_line_end l)) ! 1) = Some 1 \<and>
    agent_frame_ok f"
  using parse_agent_fields[OF assms refl] by (auto simp: WIRE_VERSION_def)

theorem accepted_line_is_wellformed_witness:
  "parse_u16 ((split_on tab (strip_line_end (encode_agent_frame (Event sample_event)))) ! 1) = Some 1"
  using accepted_line_is_wellformed[OF parse_encode_agent[OF sample_event_ok(1)]] by simp

text \<open>
  Relaying is stable: an accepted line without a stray line end inside it can be printed
  and parsed again and gives the same frame, whatever spelling of numbers or keywords it used.
\<close>

theorem reprint_accepted_line:
  assumes "parse_agent_line l = Inr f"
    and "newline \<notin> set (strip_line_end l)" and "carriage \<notin> set (strip_line_end l)"
  shows "parse_agent_line (encode_agent_frame f) = Inr f"
proof -
  have "clean w" if w: "w \<in> set (split_on tab (strip_line_end l))" for w
  proof -
    have "set w \<subseteq> set (join_with tab (split_on tab (strip_line_end l)))"
      using w by (rule set_join_with)
    then show ?thesis
      using assms(2,3) split_on_no_sep_pieces[OF w] by (auto simp: clean_def join_with_split_on)
  qed
  then have "agent_frame_ok f" "agent_frame_clean f"
    using parse_agent_fields[OF assms(1) refl] by blast+
  then show ?thesis
    by (simp add: parse_encode_agent wire_agent_id)
qed

theorem reprint_accepted_line_witness:
  "parse_agent_line (encode_agent_frame (Ping 7)) = Inr (Ping 7)"
proof (rule reprint_accepted_line[where l = "''PING'' @ tab # ''+01'' @ tab # ''+007''"])
  show "parse_agent_line (''PING'' @ tab # ''+01'' @ tab # ''+007'') = Inr (Ping 7)"
    by (simp add: parse_agent_line_def strip_line_end_def trim_end_matches_def separator_codes
        first_field_def parse_ping_def require_len_def require_version_def parse_u16_def
        parse_digits_def is_digit_def digits_value_def digit_val_def parse_int64_def parse_i64_def
        split_sign_def WIRE_VERSION_def)
qed (simp_all add: strip_line_end_def trim_end_matches_def separator_codes)


text \<open>
  The errors of the parser are exact: a line gives \<open>UnknownFrame k\<close> just when its first
  field is \<open>k\<close> and no kind of frame has that name, so an unknown kind is reported
  before any other fault of the line; and \<open>Empty\<close> is never returned, not even for an empty line.
\<close>

theorem unknown_frame_exactly:
  "(parse_agent_line l = Inl (UnknownFrame k)) =
     ((split_on tab (strip_line_end l)) ! 0 = k \<and> k \<notin> {''HELLO'', ''EVENT'', ''ACK'', ''PING''}) \<and>
   parse_agent_line l \<noteq> Inl Empty"
proof -
  obtain d rest where fs: "split_on tab (strip_line_end l) = d # rest"
    by (cases "split_on tab (strip_line_end l)") auto
  show ?thesis
    unfolding parse_agent_line_def Let_def fs by (auto simp: parser_errors)
qed

end
