(* ===== verification/Runtime.thy ===== *)
theory Runtime
  imports Journal Protocol
begin

text \<open>
  The daemon's state and its handlers, \<open>crates/copier-daemon/src/runtime.rs\<close>: sessions, frame
  authorisation, planning and dispatch of the commands of an event, acknowledgements and the
  mirror bindings they create. Each \<open>async fn\<close> is a handler that runs to completion; what the
  outside world does (clock, disk, the receiving ends of the channels, hash order, environment
  variables, SHA-256 and \<open>serde_json\<close>) is a record of parameters indexed by the number of the call.
\<close>

section \<open>State\<close>

record session =
  sess_id :: u64
  sess_tx :: nat

text \<open>
  \<open>st_sent\<close> are the frames the session channels accepted, oldest first, each with its channel;
  \<open>st_calls\<close> counts the calls to the environment. \<open>st_written\<close> is a history of the records that
  reached the journal file in full; no operation reads it.
\<close>

record app_state =
  st_config :: daemon_config
  st_engine :: copy_engine
  st_journal :: journal
  st_runtime :: replay_state
  st_sessions :: "string \<rightharpoonup> session"
  st_next_session_id :: u64
  st_sent :: "(nat \<times> server_frame) list"
  st_calls :: nat
  st_written :: "journal_record list"

text \<open>
  The outside world: the nanoseconds since the epoch (\<open>None\<close> when the clock is before it), what a
  write to the journal did, how a send on a channel ended, the keys of a hash map in its iteration
  order, and the environment variables.

  The channels are bounded: a send on a full one waits for room. How it ends depends on the receiver,
  so it is a parameter of the call, the channel and the number of frames put in it before: the frame is
  accepted, at once or after a wait, the receiver is gone, or there is never room again.
\<close>

datatype send_outcome = Delivered | ReceiverGone | NeverRoom

record environment =
  env_clock :: "nat \<Rightarrow> nat option"
  env_write :: "nat \<Rightarrow> write_outcome"
  env_send :: "nat \<Rightarrow> nat \<Rightarrow> nat \<Rightarrow> send_outcome"
  env_keys :: "nat \<Rightarrow> string list"
  env_var :: "string \<Rightarrow> string option"
  env_sha :: sha256
  env_enc :: encoder
  env_dec :: decoder

datatype runtime_error =
    UnknownAccount string
  | PlatformMismatch string
  | SecretFailed secret_error
  | InvalidToken string
  | HelloNotFirst
  | EventSourceMismatch
  | AckAccountMismatch
  | UnknownSourceAccount string
  | NotPermittedToPublish string
  | RouteFailed route_error
  | JournalFailed journal_error
  | AckTargetMismatch

type_synonym 'a runtime = "(app_state, runtime_error fault, 'a) handler"

definition app_new ::
    "daemon_config \<Rightarrow> journal \<Rightarrow> replay_state \<Rightarrow> route_error + app_state" where
  "app_new config jrn replay =
    bindE (engine_new (dc_routes config)) (\<lambda>eng.
      Inr \<lparr>st_config = config, st_engine = eng, st_journal = jrn, st_runtime = replay,
           st_sessions = Map.empty, st_next_session_id = 1, st_sent = [], st_calls = 0,
           st_written = []\<rparr>)"

section \<open>Calls to the environment\<close>

definition called :: "app_state \<Rightarrow> app_state" where
  "called s = s\<lparr>st_calls := st_calls s + 1\<rparr>"

definition clock_ns :: "nat option \<Rightarrow> i64" where
  "clock_ns d = word_of_nat (min (2 ^ 63 - 1) (case d of None \<Rightarrow> 0 | Some n \<Rightarrow> n))"

definition unix_time_ns :: "environment \<Rightarrow> i64 runtime" where
  "unix_time_ns env s = (Inr (clock_ns (env_clock env (st_calls s))), called s)"

text \<open>The records a write adds to the history: those whose whole line reached the file.\<close>

definition written_by :: "journal \<Rightarrow> encoder \<Rightarrow> write_outcome \<Rightarrow> journal_record \<Rightarrow> journal_record list" where
  "written_by j enc w r =
    (if jr_durability j = NoDurability \<or> enc r = None then []
     else (case w of Written \<Rightarrow> [r] | Unsynced \<Rightarrow> [r] | Torn n \<Rightarrow> []))"

definition append_record :: "environment \<Rightarrow> journal_record \<Rightarrow> unit runtime" where
  "append_record env r s =
    (let w = env_write env (st_calls s);
         (res, j) = journal_append (env_enc env) w r (st_journal s)
     in (mapE (\<lambda>e. Raised (JournalFailed e)) res,
         called (s\<lparr>st_journal := j,
           st_written := st_written s @ written_by (st_journal s) (env_enc env) w r\<rparr>)))"

definition apply_record :: "journal_record \<Rightarrow> unit runtime" where
  "apply_record r = modifyS (\<lambda>s. s\<lparr>st_runtime := replay_apply r (st_runtime s)\<rparr>)"

definition log_apply :: "environment \<Rightarrow> journal_record \<Rightarrow> unit runtime" where
  "log_apply env r = bindS (append_record env r) (\<lambda>_. apply_record r)"

text \<open>The number of frames a channel has accepted so far.\<close>

definition put_in :: "nat \<Rightarrow> app_state \<Rightarrow> nat" where
  "put_in tx s = length (filter (\<lambda>f. fst f = tx) (st_sent s))"

definition send_frame :: "environment \<Rightarrow> session \<Rightarrow> server_frame \<Rightarrow> bool runtime" where
  "send_frame env session frame s =
    (case env_send env (st_calls s) (sess_tx session) (put_in (sess_tx session) s) of
       ReceiverGone \<Rightarrow> (Inr False, called s)
     | NeverRoom \<Rightarrow> (Inl Stuck, called s)
     | Delivered \<Rightarrow> (Inr True, called (s\<lparr>st_sent := st_sent s @ [(sess_tx session, frame)]\<rparr>)))"

definition values_in :: "string list \<Rightarrow> (string \<rightharpoonup> 'a) \<Rightarrow> 'a list" where
  "values_in ks m = List.map_filter m (remdups ks)"

definition stored_values :: "environment \<Rightarrow> stored_command list runtime" where
  "stored_values env s =
    (Inr (values_in (env_keys env (st_calls s)) (commands (st_runtime s))), called s)"

section \<open>Handlers\<close>

definition authenticate ::
    "environment \<Rightarrow> daemon_config \<Rightarrow> string \<Rightarrow> platform \<Rightarrow> string \<Rightarrow> runtime_error + unit" where
  "authenticate env config account_id platform token =
    bindE (of_opt (UnknownAccount account_id) (config_account config account_id)) (\<lambda>account.
      if ac_platform account \<noteq> platform then Inl (PlatformMismatch account_id)
      else bindE (case ac_token_env account of
          Some token_env \<Rightarrow>
            if \<not> trim_is_empty token_env then mapE SecretFailed (read_secret (env_var env) token_env)
            else Inr (ac_token account)
        | None \<Rightarrow> Inr (ac_token account)) (\<lambda>expected_token.
      if expected_token \<noteq> token then Inl (InvalidToken account_id) else Inr ()))"

definition register_session :: "string \<Rightarrow> nat \<Rightarrow> u64 runtime" where
  "register_session account_id tx s =
    (let i = st_next_session_id s in
     (Inr i, s\<lparr>st_next_session_id := i + 1,
               st_sessions := (st_sessions s)(account_id \<mapsto> \<lparr>sess_id = i, sess_tx = tx\<rparr>)\<rparr>))"

definition mark_unknown :: "environment \<Rightarrow> string \<Rightarrow> string \<Rightarrow> unit runtime" where
  "mark_unknown env cid reason =
    bindS (unix_time_ns env) (\<lambda>t. log_apply env (CommandUnknown cid t reason))"

definition dispatch_if_connected :: "environment \<Rightarrow> execution_command \<Rightarrow> unit runtime" where
  "dispatch_if_connected env command =
    bindS (getS (\<lambda>s. st_sessions s (cmd_target_account_id command))) (\<lambda>found.
      case found of
        None \<Rightarrow> returnS ()
      | Some session \<Rightarrow>
          bindS (unix_time_ns env) (\<lambda>t.
          bindS (log_apply env (CommandDispatched (cmd_command_id command) t)) (\<lambda>_.
          bindS (send_frame env session (Command command)) (\<lambda>sent.
            if sent then returnS ()
            else mark_unknown env (cmd_command_id command) ''session queue closed before write''))))"

definition dispatch_queued_for :: "environment \<Rightarrow> string \<Rightarrow> unit runtime" where
  "dispatch_queued_for env account_id =
    bindS (stored_values env) (\<lambda>stored.
      eachS (dispatch_if_connected env)
        (map sc_command (filter (\<lambda>x. sc_state x = Queued \<and>
           cmd_target_account_id (sc_command x) = account_id) stored)))"

definition unregister_session :: "environment \<Rightarrow> string \<Rightarrow> u64 \<Rightarrow> unit runtime" where
  "unregister_session env account_id session_id =
    bindS (getS (\<lambda>s. st_sessions s account_id)) (\<lambda>found.
      case found of
        None \<Rightarrow> returnS ()
      | Some session \<Rightarrow>
          if sess_id session \<noteq> session_id then returnS ()
          else bindS (modifyS (\<lambda>s. s\<lparr>st_sessions := (st_sessions s)(account_id := None)\<rparr>)) (\<lambda>_.
            bindS (stored_values env) (\<lambda>stored.
            eachS (\<lambda>i. mark_unknown env i ''connection lost before terminal acknowledgement'')
              (map (\<lambda>x. cmd_command_id (sc_command x)) (filter (\<lambda>x. sc_state x = Dispatched \<and>
                 cmd_target_account_id (sc_command x) = account_id) stored)))))"

text \<open>The loop over the routes: a missing mirror skips the route, any other error ends the event.\<close>

fun plan_routes ::
    "environment \<Rightarrow> trade_event \<Rightarrow> i64 \<Rightarrow> route_rule list \<Rightarrow> execution_command list runtime" where
  "plan_routes env e now [] = returnS []"
| "plan_routes env e now (r # rs) =
    bindS (getS (\<lambda>s. mirrors (st_runtime s)
      (binding_key_of (ev_source_account_id e) (ev_source_order_id e) (rr_target_account_id r)))) (\<lambda>mirror.
      case build_command (env_sha env) e r mirror now of
        Inr (Some command) \<Rightarrow> bindS (plan_routes env e now rs) (\<lambda>planned. returnS (command # planned))
      | Inr None \<Rightarrow> plan_routes env e now rs
      | Inl (Raised (MissingMirror _)) \<Rightarrow> plan_routes env e now rs
      | Inl (Raised error) \<Rightarrow> failS (Raised (RouteFailed error))
      | Inl (Panicked p) \<Rightarrow> failS (Panicked p)
      | Inl Stuck \<Rightarrow> failS Stuck)"

definition handle_event :: "environment \<Rightarrow> trade_event \<Rightarrow> unit runtime" where
  "handle_event env e =
    bindS (getS (\<lambda>s. config_account (st_config s) (ev_source_account_id e))) (\<lambda>found.
    bindS (liftE (of_opt (Raised (UnknownSourceAccount (ev_source_account_id e))) found)) (\<lambda>account.
      if \<not> can_publish (ac_role account)
        then failS (Raised (NotPermittedToPublish (ev_source_account_id e)))
      else if ev_origin_command_id e \<noteq> None \<and> \<not> ac_allow_rebroadcast account then returnS ()
      else bindS (getS (\<lambda>s. ev_event_id e \<in> seen_events (st_runtime s))) (\<lambda>seen.
        if seen then returnS ()
        else bindS (unix_time_ns env) (\<lambda>now.
          bindS (getS (\<lambda>s. routes_for (st_engine s) (ev_source_account_id e))) (\<lambda>routes.
          bindS (plan_routes env e now routes) (\<lambda>planned.
          bindS (log_apply env (EventPlanned (ev_event_id e) planned)) (\<lambda>_.
          eachS (dispatch_if_connected env) planned)))))))"

definition opened_binding :: "execution_command \<Rightarrow> string \<Rightarrow> mirror_binding" where
  "opened_binding c target_order_id =
    \<lparr>mb_route_id = cmd_route_id c, mb_source_account_id = cmd_source_account_id c,
     mb_source_order_id = cmd_source_order_id c, mb_target_account_id = cmd_target_account_id c,
     mb_target_order_id = target_order_id, mb_source_open_volume = cmd_source_volume c,
     mb_source_remaining_volume =
       (case cmd_source_remaining_volume c of None \<Rightarrow> cmd_source_volume c | Some v \<Rightarrow> v),
     mb_target_open_volume = cmd_volume c, mb_target_remaining_volume = cmd_volume c\<rparr>"

definition reduced_binding :: "execution_command \<Rightarrow> mirror_binding \<Rightarrow> mirror_binding" where
  "reduced_binding c b =
    b\<lparr>mb_source_remaining_volume :=
        (case cmd_source_remaining_volume c of
           Some v \<Rightarrow> v
         | None \<Rightarrow> fmax (fsub (mb_source_remaining_volume b) (cmd_source_volume c)) f64_zero),
      mb_target_remaining_volume :=
        fmax (fsub (mb_target_remaining_volume b) (cmd_volume c)) f64_zero\<rparr>"

definition command_key :: "execution_command \<Rightarrow> string" where
  "command_key c =
     binding_key_of (cmd_source_account_id c) (cmd_source_order_id c) (cmd_target_account_id c)"

definition mirror_mutation_for ::
    "execution_command \<Rightarrow> execution_ack \<Rightarrow> mirror_mutation option runtime" where
  "mirror_mutation_for c a =
    (case cmd_action c of
       Open \<Rightarrow> (case ack_external_id a of
           None \<Rightarrow> failS (Panicked ''validated external id'')
         | Some i \<Rightarrow> returnS (Some (Upsert (opened_binding c i))))
     | Modify \<Rightarrow> returnS None
     | Reduce \<Rightarrow> bindS (getS (\<lambda>s. mirrors (st_runtime s) (command_key c))) (\<lambda>current.
         case current of
           None \<Rightarrow> returnS None
         | Some b \<Rightarrow> returnS (Some (Upsert (reduced_binding c b))))
     | Close \<Rightarrow> returnS (Some (Remove (command_key c))))"

definition handle_ack :: "environment \<Rightarrow> execution_ack \<Rightarrow> unit runtime" where
  "handle_ack env a =
    bindS (getS (\<lambda>s. map_option sc_command (commands (st_runtime s) (ack_command_id a)))) (\<lambda>found.
      case found of
        None \<Rightarrow> returnS ()
      | Some c \<Rightarrow>
          if cmd_target_account_id c \<noteq> ack_account_id a then failS (Raised AckTargetMismatch)
          else if ack_status a = Unknown then log_apply env (AckApplied a None)
          else if ack_status a \<in> {Accepted, Filled} \<and> cmd_action c = Open \<and> ack_external_id a = None
            then mark_unknown env (cmd_command_id c) ''open acknowledgement omitted external order id''
          else bindS (if ack_status a \<in> {Accepted, Filled} then mirror_mutation_for c a else returnS None)
            (\<lambda>mirror. log_apply env (AckApplied a mirror)))"

definition handle_frame :: "environment \<Rightarrow> string \<Rightarrow> agent_frame \<Rightarrow> unit runtime" where
  "handle_frame env peer frame =
    (case frame of
       Hello _ \<Rightarrow> failS (Raised HelloNotFirst)
     | Event e \<Rightarrow>
         if ev_source_account_id e \<noteq> peer then failS (Raised EventSourceMismatch)
         else handle_event env e
     | Ack a \<Rightarrow>
         if ack_account_id a \<noteq> peer then failS (Raised AckAccountMismatch)
         else handle_ack env a
     | Ping _ \<Rightarrow> returnS ())"

section \<open>What the basic steps change\<close>

lemma called_simps [simp]:
  "st_config (called s) = st_config s" "st_engine (called s) = st_engine s"
  "st_journal (called s) = st_journal s" "st_runtime (called s) = st_runtime s"
  "st_sessions (called s) = st_sessions s" "st_next_session_id (called s) = st_next_session_id s"
  "st_sent (called s) = st_sent s" "st_written (called s) = st_written s"
  "st_calls (called s) = st_calls s + 1"
  by (simp_all add: called_def)

lemma journal_append_keeps: "jr_durability (snd (journal_append enc w r j)) = jr_durability j"
  by (simp add: journal_append_def Let_def split: option.split write_outcome.split)

text \<open>What no write to the journal changes.\<close>

definition same_frame :: "app_state \<Rightarrow> app_state \<Rightarrow> bool" where
  "same_frame s t \<longleftrightarrow> st_config t = st_config s \<and> st_engine t = st_engine s \<and>
     st_sessions t = st_sessions s \<and> st_next_session_id t = st_next_session_id s \<and>
     jr_durability (st_journal t) = jr_durability (st_journal s)"

text \<open>
  Writing a record: it may or may not reach the file, but after success it has, unless the journal
  is switched off; the runtime state takes it in exactly on success.
\<close>

definition logs :: "journal_record \<Rightarrow> bool \<Rightarrow> app_state \<Rightarrow> app_state \<Rightarrow> bool" where
  "logs r ok s t \<longleftrightarrow> same_frame s t \<and> st_sent t = st_sent s \<and>
     st_runtime t = (if ok then replay_apply r (st_runtime s) else st_runtime s) \<and>
     (st_written t = st_written s \<or> st_written t = st_written s @ [r]) \<and>
     (jr_durability (st_journal s) = NoDurability \<longrightarrow> st_written t = st_written s) \<and>
     (ok \<and> jr_durability (st_journal s) \<noteq> NoDurability \<longrightarrow> st_written t = st_written s @ [r])"

definition succeeds :: "'e + 'a \<Rightarrow> bool" where
  "succeeds r = (case r of Inl _ \<Rightarrow> False | Inr _ \<Rightarrow> True)"

lemma succeeds_simps [simp]: "succeeds (Inr x)" "\<not> succeeds (Inl e)" "succeeds (mapE g r) = succeeds r"
  by (simp_all add: succeeds_def mapE_def split: sum.split)

lemma append_record_logs:
  assumes "append_record env r s = (res, t)"
  shows "logs r False s t \<and>
    (succeeds res \<and> jr_durability (st_journal s) \<noteq> NoDurability \<longrightarrow> st_written t = st_written s @ [r])"
proof -
  define w where "w = env_write env (st_calls s)"
  obtain e j where ej: "journal_append (env_enc env) w r (st_journal s) = (e, j)"
    by (cases "journal_append (env_enc env) w r (st_journal s)")
  have t: "t = called (s\<lparr>st_journal := j,
      st_written := st_written s @ written_by (st_journal s) (env_enc env) w r\<rparr>)"
    "res = mapE (\<lambda>e. Raised (JournalFailed e)) e"
    using assms ej by (simp_all add: append_record_def w_def[symmetric])
  have j: "jr_durability j = jr_durability (st_journal s)"
    using journal_append_keeps[of "env_enc env" w r "st_journal s"] ej by simp
  have "written_by (st_journal s) (env_enc env) w r = [r]"
    if "succeeds e" "jr_durability (st_journal s) \<noteq> NoDurability"
    using that ej by (auto simp: written_by_def journal_append_def Let_def
        split: option.splits write_outcome.splits)
  moreover have "written_by (st_journal s) (env_enc env) w r \<in> {[], [r]}"
    "jr_durability (st_journal s) = NoDurability \<Longrightarrow> written_by (st_journal s) (env_enc env) w r = []"
    by (auto simp: written_by_def split: write_outcome.split)
  ultimately show ?thesis
    unfolding t by (auto simp: logs_def same_frame_def j)
qed

lemma log_apply_logs:
  assumes "log_apply env r s = (res, t)" shows "logs r (succeeds res) s t"
proof -
  obtain res1 t1 where a: "append_record env r s = (res1, t1)" by (cases "append_record env r s")
  note l = append_record_logs[OF a]
  show ?thesis
    using assms a l by (cases res1) (auto simp: log_apply_def apply_record_def logs_def same_frame_def)
qed

lemma logs_called [simp]: "logs r ok (called s) t = logs r ok s t" "logs r ok s (called t) = logs r ok s t"
  by (simp_all add: logs_def same_frame_def)

lemma same_frame_refl [simp]: "same_frame s s"
  by (simp add: same_frame_def)

lemma same_frame_trans: "same_frame s t \<Longrightarrow> same_frame t u \<Longrightarrow> same_frame s u"
  by (simp add: same_frame_def)

lemma same_frame_called [simp]: "same_frame (called s) t = same_frame s t" "same_frame s (called t) = same_frame s t"
  by (simp_all add: same_frame_def)

lemma unix_time_eq: "unix_time_ns env s = (Inr (clock_ns (env_clock env (st_calls s))), called s)"
  by (simp add: unix_time_ns_def)

lemma bindS_unix_time [simp]:
  "bindS (unix_time_ns env) f s = f (clock_ns (env_clock env (st_calls s))) (called s)"
  by (simp add: bindS_def unix_time_eq)

lemma bindS_getS [simp]: "bindS (getS f) g s = g (f s) s"
  by (simp add: bindS_def)

lemma bindS_returnS [simp]: "bindS (returnS x) g = g x"
  by (simp add: bindS_def fun_eq_iff)

lemma bindS_modifyS [simp]: "bindS (modifyS f) g s = g () (f s)"
  by (simp add: bindS_def)

lemma bindS_stored_values [simp]:
  "bindS (stored_values env) g s = g (values_in (env_keys env (st_calls s)) (commands (st_runtime s))) (called s)"
  by (simp add: bindS_def stored_values_def)

lemma bindS_liftE [simp]: "bindS (liftE (Inl e)) g s = (Inl e, s)" "bindS (liftE (Inr x)) g s = g x s"
  by (simp_all add: bindS_def)

text \<open>\<open>mark_unknown\<close> writes one record.\<close>

lemma mark_unknown_logs:
  assumes "mark_unknown env i reason s = (res, t)"
  obtains ts where "logs (CommandUnknown i ts reason) (succeeds res) s t"
  using log_apply_logs[of env _ "called s" res t] assms by (auto simp: mark_unknown_def)

text \<open>
  A dispatch is one of these: no session, so nothing happens; the record could not be written, so
  nothing is sent; or the record was written and taken in first and then the command was accepted by
  the channel, marked UNKNOWN, or left waiting for room for ever.
\<close>

lemma dispatch_cases:
  assumes "dispatch_if_connected env c s = (res, t)"
  obtains (no_session) "st_sessions s (cmd_target_account_id c) = None" "t = s" "res = Inr ()"
  | (not_written) ts where "st_sessions s (cmd_target_account_id c) \<noteq> None" "\<not> succeeds res"
      "logs (CommandDispatched (cmd_command_id c) ts) False s t"
  | (sent) ts u session where "st_sessions s (cmd_target_account_id c) = Some session"
      "logs (CommandDispatched (cmd_command_id c) ts) True s u" "res = Inr ()"
      "t = called (u\<lparr>st_sent := st_sent u @ [(sess_tx session, Command c)]\<rparr>)"
  | (closed) ts u ts' reason where "st_sessions s (cmd_target_account_id c) \<noteq> None"
      "logs (CommandDispatched (cmd_command_id c) ts) True s u"
      "logs (CommandUnknown (cmd_command_id c) ts' reason) (succeeds res) u t"
  | (waiting) ts u where "st_sessions s (cmd_target_account_id c) \<noteq> None"
      "logs (CommandDispatched (cmd_command_id c) ts) True s u" "res = Inl Stuck" "t = called u"
proof (cases "st_sessions s (cmd_target_account_id c)")
  case None
  then have "res = Inr ()" "t = s" using assms by (simp_all add: dispatch_if_connected_def)
  with None show ?thesis by (intro no_session)
next
  case (Some session)
  define ts where "ts = clock_ns (env_clock env (st_calls s))"
  obtain r1 u where l: "log_apply env (CommandDispatched (cmd_command_id c) ts) (called s) = (r1, u)"
    by (cases "log_apply env (CommandDispatched (cmd_command_id c) ts) (called s)")
  note lg = log_apply_logs[OF l, unfolded logs_called]
  have found: "st_sessions s (cmd_target_account_id c) \<noteq> None" using Some by simp
  have unfold: "dispatch_if_connected env c s = bindS (log_apply env (CommandDispatched (cmd_command_id c) ts))
      (\<lambda>_. bindS (send_frame env session (Command c)) (\<lambda>sent. if sent then returnS ()
         else mark_unknown env (cmd_command_id c) ''session queue closed before write'')) (called s)"
    by (simp add: dispatch_if_connected_def Some ts_def)
  show ?thesis
  proof (cases r1)
    case (Inl e)
    then have "res = Inl e" "t = u" using assms l unfolding unfold by simp_all
    then show ?thesis using lg Inl by (intro not_written[of ts] found) simp_all
  next
    case (Inr x)
    have rest: "bindS (send_frame env session (Command c)) (\<lambda>sent. if sent then returnS ()
         else mark_unknown env (cmd_command_id c) ''session queue closed before write'') u = (res, t)"
      using assms l Inr unfolding unfold by simp
    have lg': "logs (CommandDispatched (cmd_command_id c) ts) True s u" using lg Inr by simp
    show ?thesis
    proof (cases "env_send env (st_calls u) (sess_tx session) (put_in (sess_tx session) u)")
      case ReceiverGone
      then have "mark_unknown env (cmd_command_id c) ''session queue closed before write'' (called u) = (res, t)"
        using rest by (simp add: bindS_def send_frame_def)
      then obtain ts' where "logs (CommandUnknown (cmd_command_id c) ts' ''session queue closed before write'')
          (succeeds res) (called u) t"
        by (rule mark_unknown_logs)
      then show ?thesis by (intro closed[OF found lg']) simp
    next
      case NeverRoom
      then have "res = Inl Stuck" "t = called u"
        using rest by (simp_all add: bindS_def send_frame_def)
      then show ?thesis by (intro waiting[OF found lg'])
    next
      case Delivered
      then have "res = Inr ()" "t = called (u\<lparr>st_sent := st_sent u @ [(sess_tx session, Command c)]\<rparr>)"
        using rest by (simp_all add: bindS_def send_frame_def)
      then show ?thesis by (intro sent[OF Some lg'])
    qed
  qed
qed

section \<open>Values of a hash map\<close>

lemma values_in_set:
  assumes "dom m \<subseteq> set ks" shows "x \<in> set (values_in ks m) \<longleftrightarrow> (\<exists>k. m k = Some x)"
  using assms by (force simp: values_in_def map_filter_def)

lemma values_in_sub: "x \<in> set (values_in ks m) \<Longrightarrow> \<exists>k. m k = Some x"
  by (auto simp: values_in_def map_filter_def)

text \<open>The commands of a store are filed under their own ids, so none is listed twice.\<close>

definition commands_filed :: "(string \<rightharpoonup> stored_command) \<Rightarrow> bool" where
  "commands_filed m \<longleftrightarrow> (\<forall>i x. m i = Some x \<longrightarrow> cmd_command_id (sc_command x) = i)"

lemma distinct_map_filter_keys:
  assumes "\<And>k x. m k = Some x \<Longrightarrow> f x = k" "distinct ks"
  shows "distinct (map f (List.map_filter m ks))"
  using assms(2)
proof (induction ks)
  case (Cons k ks)
  show ?case
  proof (cases "m k")
    case (Some x)
    have "k \<notin> f ` set (List.map_filter m ks)"
      using Cons.prems assms(1) by (auto simp: map_filter_def)
    then show ?thesis using Cons Some assms(1)[OF Some] by (simp add: map_filter_simps)
  qed (use Cons in \<open>simp add: map_filter_simps\<close>)
qed (simp add: map_filter_def)

lemma values_in_ids_distinct:
  "commands_filed m \<Longrightarrow> distinct (map (\<lambda>x. cmd_command_id (sc_command x)) (values_in ks m))"
  unfolding values_in_def commands_filed_def by (rule distinct_map_filter_keys) auto

section \<open>Planning\<close>

text \<open>Planning reads the mirrors and changes nothing; its result per route is one of four.\<close>

definition route_mirror :: "trade_event \<Rightarrow> app_state \<Rightarrow> route_rule \<Rightarrow> mirror_binding option" where
  "route_mirror e s r = mirrors (st_runtime s)
     (binding_key_of (ev_source_account_id e) (ev_source_order_id e) (rr_target_account_id r))"

lemma plan_routes_Cons:
  "plan_routes env e now (r # rs) s =
    (case build_command (env_sha env) e r (route_mirror e s r) now of
        Inr (Some command) \<Rightarrow> bindS (plan_routes env e now rs) (\<lambda>planned. returnS (command # planned)) s
      | Inr None \<Rightarrow> plan_routes env e now rs s
      | Inl (Raised (MissingMirror _)) \<Rightarrow> plan_routes env e now rs s
      | Inl (Raised error) \<Rightarrow> (Inl (Raised (RouteFailed error)), s)
      | Inl (Panicked p) \<Rightarrow> (Inl (Panicked p), s)
      | Inl Stuck \<Rightarrow> (Inl Stuck, s))"
  by (simp add: route_mirror_def split: sum.split fault.split route_error.split option.split)

lemma plan_routes_state: "snd (plan_routes env e now rs s) = s"
proof (induction rs)
  case (Cons r rs)
  then show ?case
    unfolding plan_routes_Cons
    by (auto simp: bindS_def split: sum.split fault.split route_error.split option.split prod.split)
qed simp

definition planned_for ::
    "environment \<Rightarrow> trade_event \<Rightarrow> i64 \<Rightarrow> app_state \<Rightarrow> route_rule \<Rightarrow> execution_command list" where
  "planned_for env e now s r =
    (case build_command (env_sha env) e r (route_mirror e s r) now of Inr (Some c) \<Rightarrow> [c] | _ \<Rightarrow> [])"

lemma planned_for_simps [simp]:
  "build_command (env_sha env) e r (route_mirror e s r) now = Inr (Some c) \<Longrightarrow> planned_for env e now s r = [c]"
  "build_command (env_sha env) e r (route_mirror e s r) now = Inr None \<Longrightarrow> planned_for env e now s r = []"
  "build_command (env_sha env) e r (route_mirror e s r) now = Inl f \<Longrightarrow> planned_for env e now s r = []"
  by (simp_all add: planned_for_def)

lemma plan_routes_ok:
  assumes "plan_routes env e now rs s = (Inr planned, t)"
  shows "planned = concat (map (planned_for env e now s) rs)"
  using assms
proof (induction rs arbitrary: planned)
  case (Cons r rs)
  from Cons.prems show ?case
    unfolding plan_routes_Cons
    by (auto simp: bindS_def Cons.IH
        split: sum.splits fault.splits route_error.splits option.splits prod.splits)
qed simp

lemma planned_for_member:
  "c \<in> set (planned_for env e now s r) \<longleftrightarrow>
     build_command (env_sha env) e r (route_mirror e s r) now = Inr (Some c)"
  by (auto simp: planned_for_def split: sum.splits option.splits)

lemma planned_for_length: "length (planned_for env e now s r) \<le> 1"
  by (auto simp: planned_for_def split: sum.splits option.splits)

lemma plan_routes_member:
  assumes "plan_routes env e now rs s = (Inr planned, t)" "c \<in> set planned"
  obtains r where "r \<in> set rs" "build_command (env_sha env) e r (route_mirror e s r) now = Inr (Some c)"
  using assms(2) unfolding plan_routes_ok[OF assms(1)]
  by (auto simp: planned_for_member)

lemma plan_routes_distinct:
  assumes "plan_routes env e now rs s = (Inr planned, t)"
    and "distinct (map (\<lambda>r. (rr_id r, rr_target_account_id r)) rs)"
  shows "distinct (map (\<lambda>c. (cmd_route_id c, cmd_target_account_id c)) planned)"
  unfolding plan_routes_ok[OF assms(1)]
  using assms(2) planned_for_length
  by (rule distinct_concat_keys) (simp add: planned_for_member build_command_ids)

section \<open>The branches of an event\<close>

lemma handle_event_cases:
  assumes "handle_event env e s = (res, t)"
  obtains (refused) "st_runtime t = st_runtime s" "st_sent t = st_sent s" "st_written t = st_written s"
      "st_journal t = st_journal s" "same_frame s t"
  | (planned) account planned ts u ok where
      "config_account (st_config s) (ev_source_account_id e) = Some account" "can_publish (ac_role account)"
      "ev_origin_command_id e = None \<or> ac_allow_rebroadcast account"
      "ev_event_id e \<notin> seen_events (st_runtime s)"
      "plan_routes env e ts (routes_for (st_engine s) (ev_source_account_id e)) (called s) = (Inr planned, called s)"
      "logs (EventPlanned (ev_event_id e) planned) ok s u"
      "if ok then eachS (dispatch_if_connected env) planned u = (res, t) else t = u \<and> \<not> succeeds res"
proof -
  define ts where "ts = clock_ns (env_clock env (st_calls s))"
  define rs where "rs = routes_for (st_engine s) (ev_source_account_id e)"
  have same: thesis if "t = s \<or> t = called s" using that by (intro refused) (auto simp: same_frame_def)
  show thesis
  proof (cases "config_account (st_config s) (ev_source_account_id e)")
    case None
    then show thesis using assms by (intro same) (simp add: handle_event_def)
  next
    case (Some account)
    show thesis
    proof (cases "can_publish (ac_role account) \<and> (ev_origin_command_id e = None \<or> ac_allow_rebroadcast account)
        \<and> ev_event_id e \<notin> seen_events (st_runtime s)")
      case False
      then show thesis using assms Some by (intro same) (auto simp: handle_event_def split: if_splits)
    next
      case True
      have step: "handle_event env e s = bindS (plan_routes env e ts rs) (\<lambda>planned.
          bindS (log_apply env (EventPlanned (ev_event_id e) planned)) (\<lambda>_.
          eachS (dispatch_if_connected env) planned)) (called s)"
        using True Some by (auto simp: handle_event_def ts_def rs_def)
      obtain p where p: "plan_routes env e ts rs (called s) = (p, called s)"
        using plan_routes_state[of env e ts rs "called s"] by (metis prod.collapse)
      show thesis
      proof (cases p)
        case (Inl f)
        then show thesis using assms step p by (intro same) simp
      next
        case (Inr planned)
        obtain r1 u where l: "log_apply env (EventPlanned (ev_event_id e) planned) (called s) = (r1, u)"
          by (cases "log_apply env (EventPlanned (ev_event_id e) planned) (called s)")
        have "if succeeds r1 then eachS (dispatch_if_connected env) planned u = (res, t) else t = u \<and> \<not> succeeds res"
          using assms step p Inr l by (cases r1) auto
        then show thesis
          using True Some p Inr log_apply_logs[OF l] unfolding rs_def
          by (intro planned[where ts = ts and ok = "succeeds r1" and u = u and account = account]) auto
      qed
    qed
  qed
qed

text \<open>An acknowledgement writes at most one record, and never one that plans commands.\<close>

lemma mirror_mutation_state: "snd (mirror_mutation_for c a s) = s"
  by (auto simp: mirror_mutation_for_def split: trade_action.split option.split)

lemma handle_ack_cases:
  assumes "handle_ack env a s = (res, t)"
  obtains (unchanged) "t = s"
  | (logged) r where "logs r (succeeds res) s t" "planned_ids r = {}"
      "r = AckApplied a None \<or> (\<exists>m. r = AckApplied a m \<and> ack_status a \<noteq> Unknown) \<or>
       (\<exists>i ts reason. r = CommandUnknown i ts reason)"
proof (cases "commands (st_runtime s) (ack_command_id a)")
  case None
  then show ?thesis using assms unchanged by (simp add: handle_ack_def)
next
  case (Some x)
  show ?thesis
  proof (cases "cmd_target_account_id (sc_command x) = ack_account_id a")
    case False
    then show ?thesis using assms Some unchanged by (simp add: handle_ack_def)
  next
    case target: True
    consider (u) "ack_status a = Unknown" | (no_id) "ack_status a \<noteq> Unknown"
        "ack_status a \<in> {Accepted, Filled} \<and> cmd_action (sc_command x) = Open \<and> ack_external_id a = None"
      | (ok) "ack_status a \<noteq> Unknown"
        "\<not> (ack_status a \<in> {Accepted, Filled} \<and> cmd_action (sc_command x) = Open \<and> ack_external_id a = None)"
      by blast
    then show ?thesis
    proof cases
      case u
      then have "log_apply env (AckApplied a None) s = (res, t)"
        using assms Some target by (simp add: handle_ack_def)
      then show ?thesis by (intro logged[of "AckApplied a None"] log_apply_logs) auto
    next
      case no_id
      then have "mark_unknown env (cmd_command_id (sc_command x))
          ''open acknowledgement omitted external order id'' s = (res, t)"
        using assms Some target by (simp add: handle_ack_def)
      then obtain ts where "logs (CommandUnknown (cmd_command_id (sc_command x)) ts
          ''open acknowledgement omitted external order id'') (succeeds res) s t"
        by (rule mark_unknown_logs)
      then show ?thesis by (rule logged) auto
    next
      case ok
      define m where "m = (if ack_status a \<in> {Accepted, Filled} then mirror_mutation_for (sc_command x) a else returnS None)"
      have ms: "snd (m s) = s" by (simp add: m_def mirror_mutation_state)
      have e: "bindS m (\<lambda>mirror. log_apply env (AckApplied a mirror)) s = (res, t)"
        using assms Some target ok by (auto simp: handle_ack_def m_def)
      show ?thesis
      proof (cases "fst (m s)")
        case (Inl f)
        then have "m s = (Inl f, s)" using ms by (metis prod.collapse)
        then show ?thesis using e unchanged by simp
      next
        case (Inr mirror)
        then have "m s = (Inr mirror, s)" using ms by (metis prod.collapse)
        then have "log_apply env (AckApplied a mirror) s = (res, t)" using e by simp
        then show ?thesis using ok by (intro logged[of "AckApplied a mirror"] log_apply_logs) auto
      qed
    qed
  qed
qed

section \<open>Interface: properties the handlers keep\<close>

text \<open>
  A property that logging a record and dispatching a command keep, and that does not look at the call
  counter or the sessions, is kept by every handler.
\<close>

locale handler_property =
  fixes env :: environment and I :: "app_state \<Rightarrow> bool"
  assumes keeps_log_apply: "keeps I (log_apply env r)"
    and keeps_dispatch: "keeps I (dispatch_if_connected env c)"
    and stable: "I (called s) = I s" "I (s\<lparr>st_sessions := m\<rparr>) = I s" "I (s\<lparr>st_next_session_id := n\<rparr>) = I s"
begin

lemma keeps_steps: "keeps I (unix_time_ns env)" "keeps I (stored_values env)"
  by (simp_all add: keeps_def unix_time_ns_def stored_values_def stable)

lemma keeps_mark_unknown: "keeps I (mark_unknown env i reason)"
  unfolding mark_unknown_def by (intro keeps_bindS keeps_steps keeps_log_apply)

lemma keeps_dispatch_queued: "keeps I (dispatch_queued_for env a)"
  unfolding dispatch_queued_for_def by (intro keeps_bindS keeps_steps keeps_eachS keeps_dispatch)

lemma keeps_register: "keeps I (register_session a tx)"
proof -
  have "I (s\<lparr>st_next_session_id := n, st_sessions := m\<rparr>) = I s" for s n m
    using stable(2)[where s = "s\<lparr>st_next_session_id := n\<rparr>" and m = m] stable(3)[where s = s and n = n]
    by simp
  then show ?thesis by (simp add: keeps_def register_session_def Let_def)
qed

lemma keeps_unregister: "keeps I (unregister_session env a i)"
  unfolding unregister_session_def
  by (intro keeps_bindS keeps_getS keeps_case_option keeps_returnS keeps_if keeps_modifyS keeps_steps
      keeps_eachS keeps_mark_unknown) (simp add: stable)

lemma keeps_plan_routes: "keeps I (plan_routes env e now rs)"
  by (simp add: keeps_def plan_routes_state)

lemma keeps_handle_event: "keeps I (handle_event env e)"
  unfolding handle_event_def
  by (intro keeps_bindS keeps_getS keeps_liftE keeps_returnS keeps_failS keeps_if keeps_steps
      keeps_plan_routes keeps_log_apply keeps_eachS keeps_dispatch)

lemma keeps_mirror_mutation: "keeps I (mirror_mutation_for c a)"
  by (simp add: keeps_def mirror_mutation_state)

lemma keeps_handle_ack: "keeps I (handle_ack env a)"
  unfolding handle_ack_def
  by (intro keeps_bindS keeps_getS keeps_case_option keeps_returnS keeps_failS keeps_if
      keeps_log_apply keeps_mark_unknown keeps_mirror_mutation)

lemma keeps_handle_frame: "keeps I (handle_frame env p f)"
  unfolding handle_frame_def
  by (cases f) (auto intro!: keeps_failS keeps_if keeps_handle_event keeps_handle_ack keeps_returnS)

end

text \<open>
  What the callers of the handlers need to know of a property: every operation they perform keeps it. Connections and
  venues reach the daemon's state through these operations only.
\<close>

locale served_property =
  fixes env :: environment and I :: "app_state \<Rightarrow> bool"
  assumes serves_register: "keeps I (register_session a tx)"
    and serves_dispatch_queued: "keeps I (dispatch_queued_for env a)"
    and serves_frame: "keeps I (handle_frame env p f)"
    and serves_unregister: "keeps I (unregister_session env a i)"
    and serves_clock: "I s \<Longrightarrow> I (called s)"

sublocale handler_property \<subseteq> served_property
  by (unfold_locales)
    (simp_all add: keeps_register keeps_dispatch_queued keeps_handle_frame keeps_unregister stable)

text \<open>If the property does not look at what was sent either, logging is all that matters.\<close>

locale logged_property =
  fixes env :: environment and I :: "app_state \<Rightarrow> bool"
  assumes logged: "keeps I (log_apply env r)"
    and unseen: "I (called s) = I s" "I (s\<lparr>st_sessions := m\<rparr>) = I s"
      "I (s\<lparr>st_next_session_id := n\<rparr>) = I s" "I (s\<lparr>st_sent := fs\<rparr>) = I s"
begin

lemma keeps_send: "keeps I (send_frame env session f)"
  by (simp add: keeps_def send_frame_def unseen split: send_outcome.split)

lemma keeps_clock: "keeps I (unix_time_ns env)"
  by (simp add: keeps_def unix_time_ns_def unseen)

lemma keeps_dispatching: "keeps I (dispatch_if_connected env c)"
  unfolding dispatch_if_connected_def mark_unknown_def
  by (intro keeps_bindS keeps_getS keeps_case_option keeps_returnS keeps_clock logged keeps_if keeps_send)

end

sublocale logged_property \<subseteq> handler_property
  by (unfold_locales) (simp_all add: logged keeps_dispatching unseen)

text \<open>
  If it does not look at the runtime state, only the writing of a record matters. The instances
  are about the contents of the file, the history of records and the configuration.
\<close>

locale journal_property =
  fixes env :: environment and I :: "app_state \<Rightarrow> bool"
  assumes keeps_append: "keeps I (append_record env r)"
    and blind: "I (called s) = I s" "I (s\<lparr>st_runtime := rt\<rparr>) = I s" "I (s\<lparr>st_sessions := m\<rparr>) = I s"
      "I (s\<lparr>st_next_session_id := n\<rparr>) = I s" "I (s\<lparr>st_sent := fs\<rparr>) = I s"
begin

lemma keeps_logging: "keeps I (log_apply env r)"
  unfolding log_apply_def apply_record_def
  by (intro keeps_bindS keeps_append keeps_modifyS) (simp add: blind)

end

sublocale journal_property \<subseteq> logged_property
  by (unfold_locales) (simp_all add: keeps_logging blind)

text \<open>The file holds one line per record of the history, if no write was torn.\<close>

definition whole_writes :: "environment \<Rightarrow> bool" where
  "whole_writes env \<longleftrightarrow> (\<forall>n k. env_write env n = Torn k \<longrightarrow> k = 0)"

definition file_matches :: "environment \<Rightarrow> app_state \<Rightarrow> bool" where
  "file_matches env s \<longleftrightarrow> (whole_writes env \<longrightarrow>
     jr_contents (st_journal s) = file_of (map (line_of (env_enc env)) (st_written s)))"

lemma append_record_journal:
  "st_journal (snd (append_record env r s)) =
     snd (journal_append (env_enc env) (env_write env (st_calls s)) r (st_journal s))"
  "st_written (snd (append_record env r s)) =
     st_written s @ written_by (st_journal s) (env_enc env) (env_write env (st_calls s)) r"
  "st_config (snd (append_record env r s)) = st_config s"
  "st_engine (snd (append_record env r s)) = st_engine s"
  by (simp_all add: append_record_def Let_def split: prod.split)

lemma append_file_matches:
  assumes "file_matches env s" shows "file_matches env (snd (append_record env r s))"
proof -
  define w where "w = env_write env (st_calls s)"
  have "jr_contents (snd (journal_append (env_enc env) w r (st_journal s))) =
      jr_contents (st_journal s) @ file_of (map (line_of (env_enc env)) (written_by (st_journal s) (env_enc env) w r))"
    if "whole_writes env"
  proof -
    have "take k l = []" if "w = Torn k" for k and l :: string
      using that \<open>whole_writes env\<close> by (auto simp: whole_writes_def w_def)
    then show ?thesis
      by (cases "env_enc env r"; cases w)
        (auto simp: journal_append_def written_by_def line_of_def)
  qed
  then show ?thesis
    using assms by (simp add: file_matches_def append_record_journal w_def)
qed

interpretation file_contents: journal_property env "file_matches env" for env
proof
  show "keeps (file_matches env) (append_record env r)" for r
    by (simp add: keeps_def append_file_matches)
qed (simp_all add: file_matches_def)

interpretation history_grows: journal_property env "\<lambda>s. \<exists>rs. st_written s = w @ rs" for env w
proof
  show "keeps (\<lambda>s. \<exists>rs. st_written s = w @ rs) (append_record env r)" for r
    by (auto simp: keeps_def append_record_journal)
qed simp_all

text \<open>The configuration, the engine and the durability are fixed at start-up.\<close>

definition started_as :: "daemon_config \<Rightarrow> copy_engine \<Rightarrow> app_state \<Rightarrow> bool" where
  "started_as cfg eng s \<longleftrightarrow> st_config s = cfg \<and> st_engine s = eng \<and>
     jr_durability (st_journal s) = dc_durability cfg"

interpretation start_up: journal_property env "started_as cfg eng" for env cfg eng
proof
  show "keeps (started_as cfg eng) (append_record env r)" for r
    by (simp add: keeps_def started_as_def append_record_journal journal_append_keeps)
qed (simp_all add: started_as_def)

end
