(* ===== verification/Daemon.thy ===== *)
theory Daemon
  imports Runtime
begin

text \<open>
  Runs of the daemon: sequences of the operations its connections and venues perform on the shared
  state, and restarts of the process, each operation running to completion. The theorems hold
  of every run: a command is sent at most once over the whole life of the journal, crashes
  and failing writes included, and what is sent was journaled before.
\<close>

section \<open>Operations\<close>

datatype operation =
    Register string nat
  | DispatchQueued string
  | Frame string agent_frame
  | Unregister string u64
  | Restart

text \<open>
  A restart of the process, \<open>main\<close>: the journal file is opened and replayed, the state is built
  anew from the same configuration, and no session survives. When opening fails the process ends.
  The history variables and the call counter live on.
\<close>

definition restart :: "environment \<Rightarrow> app_state \<Rightarrow> app_state option" where
  "restart env s =
    (case journal_open (env_dec env) True (Some (jr_contents (st_journal s)))
        (dc_durability (st_config s)) of
       Inl e \<Rightarrow> None
     | Inr (j, replay) \<Rightarrow>
         (case app_new (st_config s) j replay of
            Inl e \<Rightarrow> None
          | Inr t \<Rightarrow> Some (t\<lparr>st_sent := st_sent s, st_calls := st_calls s, st_written := st_written s\<rparr>)))"

text \<open>One operation; \<open>None\<close> when the process ended.\<close>

fun operate :: "environment \<Rightarrow> operation \<Rightarrow> app_state \<Rightarrow> app_state option" where
  "operate env (Register a tx) s = Some (snd (register_session a tx s))"
| "operate env (DispatchQueued a) s = Some (snd (dispatch_queued_for env a s))"
| "operate env (Frame a f) s = Some (snd (handle_frame env a f s))"
| "operate env (Unregister a i) s = Some (snd (unregister_session env a i s))"
| "operate env Restart s = restart env s"

fun run_ops :: "('o \<Rightarrow> 's \<Rightarrow> 's option) \<Rightarrow> 'o list \<Rightarrow> 's \<Rightarrow> 's" where
  "run_ops step [] s = s"
| "run_ops step (x # xs) s = (case step x s of None \<Rightarrow> s | Some t \<Rightarrow> run_ops step xs t)"

definition run :: "environment \<Rightarrow> operation list \<Rightarrow> app_state \<Rightarrow> app_state" where
  "run env = run_ops (operate env)"

section \<open>Interface: operations that keep an invariant\<close>

text \<open>
  A system whose operations may end it, and an invariant that every permitted operation keeps: then
  every state of every permitted run has it.
\<close>

locale invariant_system =
  fixes step :: "'o \<Rightarrow> 's \<Rightarrow> 's option" and permitted :: "'o \<Rightarrow> bool" and inv :: "'s \<Rightarrow> bool"
  assumes step_inv: "permitted x \<Longrightarrow> inv s \<Longrightarrow> step x s = Some t \<Longrightarrow> inv t"
begin

lemma run_inv: "\<forall>x \<in> set xs. permitted x \<Longrightarrow> inv s \<Longrightarrow> inv (run_ops step xs s)"
proof (induction xs arbitrary: s)
  case (Cons x xs)
  then show ?case by (cases "step x s") (auto dest: step_inv)
qed simp

end

section \<open>The ledger of commands\<close>

type_synonym plan_key = "string \<times> string \<times> string"

text \<open>The event, the route and the target account a command id is derived from.\<close>

definition id_of :: "sha256 \<Rightarrow> plan_key \<Rightarrow> string" where
  "id_of sha k = (case k of (e, r, t) \<Rightarrow>
     concat (map hex_byte (take 16 (sha (command_id_input e r t)))))"

definition key_of :: "execution_command \<Rightarrow> plan_key" where
  "key_of c = (cmd_origin_event_id c, cmd_route_id c, cmd_target_account_id c)"

definition genuine :: "sha256 \<Rightarrow> plan_key set \<Rightarrow> string set \<Rightarrow> execution_command \<Rightarrow> bool" where
  "genuine sha X seen c \<longleftrightarrow> key_of c \<in> X \<and> cmd_command_id c = id_of sha (key_of c) \<and>
     cmd_origin_event_id c \<in> seen"

lemma genuine_mono: "genuine sha X seen c \<Longrightarrow> seen \<subseteq> seen' \<Longrightarrow> genuine sha X seen' c"
  by (auto simp: genuine_def)

fun sent_command :: "nat \<times> server_frame \<Rightarrow> execution_command option" where
  "sent_command (tx, Command c) = Some c"
| "sent_command (tx, _) = None"

definition sent_commands :: "app_state \<Rightarrow> execution_command list" where
  "sent_commands s = List.map_filter sent_command (st_sent s)"

text \<open>
  The ledger of a store: its commands are filed under their ids, they and the sent ones come from
  events the store has seen, no id was sent twice and no sent id is still queued.
\<close>

definition ledger :: "sha256 \<Rightarrow> plan_key set \<Rightarrow> replay_state \<Rightarrow> execution_command list \<Rightarrow> bool" where
  "ledger sha X rs sent \<longleftrightarrow>
     (\<forall>c \<in> set sent. genuine sha X (seen_events rs) c \<and> \<not> queued rs (cmd_command_id c)) \<and>
     (\<forall>i x. commands rs i = Some x \<longrightarrow>
        cmd_command_id (sc_command x) = i \<and> genuine sha X (seen_events rs) (sc_command x)) \<and>
     distinct (map cmd_command_id sent)"

text \<open>A record may be taken in when what it plans is genuine, of its own event, and unsent.\<close>

fun admissible :: "sha256 \<Rightarrow> plan_key set \<Rightarrow> execution_command list \<Rightarrow> journal_record \<Rightarrow> bool" where
  "admissible sha X sent (EventPlanned e cs) \<longleftrightarrow>
     (\<forall>c \<in> set cs. genuine sha X {e} c \<and> cmd_command_id c \<notin> cmd_command_id ` set sent)"
| "admissible sha X sent r \<longleftrightarrow> True"

lemma seen_replay_apply: "seen_events s \<subseteq> seen_events (replay_apply r s)"
  by (cases r) auto

lemma commands_replay_apply:
  assumes "commands (replay_apply r s) i = Some x"
  obtains y where "commands s i = Some y" "sc_command x = sc_command y"
  | e cs where "r = EventPlanned e cs" "sc_command x \<in> set cs" "cmd_command_id (sc_command x) = i"
proof (cases r)
  case (EventPlanned e cs)
  then show ?thesis using assms that fold_insert_queued_new[of cs "commands s" i x] by auto
qed (use assms that in \<open>auto simp: set_stored_state_apply split: if_splits\<close>)

lemma ledger_apply:
  assumes "ledger sha X rs sent" "admissible sha X sent r"
  shows "ledger sha X (replay_apply r rs) sent"
proof -
  have "genuine sha X (seen_events (replay_apply r rs)) c" if "genuine sha X (seen_events rs) c" for c
    using that genuine_mono seen_replay_apply by blast
  moreover have "\<not> queued (replay_apply r rs) (cmd_command_id c)" if "c \<in> set sent" for c
  proof
    assume "queued (replay_apply r rs) (cmd_command_id c)"
    then have "cmd_command_id c \<in> planned_ids r"
      using dispatch_queue.pending_act assms(1) that by (auto simp: ledger_def)
    then obtain e cs c' where "r = EventPlanned e cs" "c' \<in> set cs" "cmd_command_id c' = cmd_command_id c"
      by (cases r) auto
    then show False using assms(2) that by (metis admissible.simps(1) image_eqI)
  qed
  moreover have "cmd_command_id (sc_command x) = i \<and>
      genuine sha X (seen_events (replay_apply r rs)) (sc_command x)"
    if x: "commands (replay_apply r rs) i = Some x" for i x
    using x
  proof (cases rule: commands_replay_apply)
    case (1 y)
    then show ?thesis using assms(1) calculation(1) by (auto simp: ledger_def)
  next
    case (2 e cs)
    then have "genuine sha X {e} (sc_command x)" using assms(2) by auto
    then show ?thesis using 2 by (auto simp: genuine_def)
  qed
  ultimately show ?thesis using assms(1) by (auto simp: ledger_def)
qed

lemma ledger_send:
  assumes "ledger sha X rs sent" "genuine sha X (seen_events rs) c"
    "cmd_command_id c \<notin> cmd_command_id ` set sent" "\<not> queued rs (cmd_command_id c)"
  shows "ledger sha X rs (sent @ [c])"
  using assms by (auto simp: ledger_def)

lemma ledger_finalize:
  assumes "ledger sha X rs sent" shows "ledger sha X (finalize_after_replay rs) sent"
proof -
  have "seen_events (finalize_after_replay rs) = seen_events rs"
    by (simp add: finalize_after_replay_def)
  then show ?thesis
    using assms by (auto simp: ledger_def finalize_after_replay_def queued_finalize[unfolded finalize_after_replay_def])
qed

text \<open>The ledger of the daemon: of its runtime state and of what its journal replays to.\<close>

definition replayed :: "app_state \<Rightarrow> replay_state" where
  "replayed s = fold replay_apply (st_written s) replay_default"

definition daemon_ledger :: "sha256 \<Rightarrow> plan_key set \<Rightarrow> app_state \<Rightarrow> bool" where
  "daemon_ledger sha X s \<longleftrightarrow>
     ledger sha X (st_runtime s) (sent_commands s) \<and>
     (jr_durability (st_journal s) \<noteq> NoDurability \<longrightarrow>
        ledger sha X (replayed s) (sent_commands s) \<and> seen_events (st_runtime s) \<subseteq> seen_events (replayed s))"

lemma logs_ledger:
  assumes "logs r ok s t" "daemon_ledger sha X s" "admissible sha X (sent_commands s) r"
  shows "daemon_ledger sha X t"
proof -
  have sent: "sent_commands t = sent_commands s" and dur: "jr_durability (st_journal t) = jr_durability (st_journal s)"
    using assms(1) by (simp_all add: logs_def same_frame_def sent_commands_def)
  have run: "ledger sha X (st_runtime t) (sent_commands s)"
    using assms ledger_apply by (auto simp: logs_def daemon_ledger_def)
  show ?thesis
  proof (cases "jr_durability (st_journal s) = NoDurability")
    case True
    then show ?thesis using run sent dur by (simp add: daemon_ledger_def)
  next
    case False
    have "replayed t = replayed s \<or> replayed t = replay_apply r (replayed s)"
      using assms(1) by (auto simp: logs_def replayed_def)
    moreover have "replayed t = replay_apply r (replayed s)" if ok
      using assms(1) that False by (auto simp: logs_def replayed_def)
    moreover have "ledger sha X (replay_apply r (replayed s)) (sent_commands s)"
      using assms(2,3) False ledger_apply by (auto simp: daemon_ledger_def)
    moreover have "seen_events (st_runtime t) \<subseteq> seen_events (replayed t)"
    proof (cases ok)
      case True
      then have "replayed t = replay_apply r (replayed s)" "st_runtime t = replay_apply r (st_runtime s)"
        using assms(1) False by (auto simp: logs_def replayed_def)
      then show ?thesis using assms(2) False by (cases r) (auto simp: daemon_ledger_def)
    next
      case False
      then have "st_runtime t = st_runtime s" using assms(1) by (simp add: logs_def)
      then show ?thesis
        using assms(2) \<open>jr_durability (st_journal s) \<noteq> NoDurability\<close> calculation(1) seen_replay_apply[of "replayed s" r]
        by (auto simp: daemon_ledger_def)
    qed
    ultimately show ?thesis
      using run sent dur False assms(2) by (auto simp: daemon_ledger_def)
  qed
qed

section \<open>Every handler keeps the ledger\<close>

lemma daemon_ledger_called [simp]: "daemon_ledger sha X (called s) = daemon_ledger sha X s"
  by (simp add: daemon_ledger_def sent_commands_def replayed_def)

lemma daemon_ledger_sessions [simp]:
  "daemon_ledger sha X (s\<lparr>st_sessions := m\<rparr>) = daemon_ledger sha X s"
  "daemon_ledger sha X (s\<lparr>st_next_session_id := n\<rparr>) = daemon_ledger sha X s"
  by (simp_all add: daemon_ledger_def sent_commands_def replayed_def)

text \<open>What a dispatch needs of its command: it is genuine and was not sent.\<close>

definition dispatchable :: "sha256 \<Rightarrow> plan_key set \<Rightarrow> app_state \<Rightarrow> execution_command \<Rightarrow> bool" where
  "dispatchable sha X s c \<longleftrightarrow> genuine sha X (seen_events (st_runtime s)) c \<and>
     cmd_command_id c \<notin> cmd_command_id ` set (sent_commands s)"

lemma logs_sent: "logs r ok s t \<Longrightarrow> sent_commands t = sent_commands s"
  by (simp add: logs_def sent_commands_def)

lemma logs_same_frame: "logs r ok s t \<Longrightarrow> same_frame s t"
  by (simp add: logs_def)

lemma logs_seen: "logs r ok s t \<Longrightarrow> seen_events (st_runtime s) \<subseteq> seen_events (st_runtime t)"
  using seen_replay_apply by (auto simp: logs_def)

lemma sent_ledger:
  assumes "logs (CommandDispatched (cmd_command_id c) ts) True s u" "daemon_ledger sha X s"
    and "dispatchable sha X s c"
  shows "daemon_ledger sha X (u\<lparr>st_sent := st_sent u @ [(tx, Command c)]\<rparr>)"
    "sent_commands (u\<lparr>st_sent := st_sent u @ [(tx, Command c)]\<rparr>) = sent_commands s @ [c]"
proof -
  let ?r = "CommandDispatched (cmd_command_id c) ts"
  show sent: "sent_commands (u\<lparr>st_sent := st_sent u @ [(tx, Command c)]\<rparr>) = sent_commands s @ [c]"
    using logs_sent[OF assms(1)] by (simp add: sent_commands_def map_filter_def)
  have u: "daemon_ledger sha X u" by (rule logs_ledger[OF assms(1,2)]) simp
  have su: "sent_commands u = sent_commands s" by (rule logs_sent[OF assms(1)])
  have cleared: "\<not> queued (replay_apply ?r rs) (cmd_command_id c)" for rs
    by (rule dispatch_queue.cleared_act) simp
  have g: "genuine sha X (seen_events (st_runtime u)) c" "cmd_command_id c \<notin> cmd_command_id ` set (sent_commands u)"
    using assms(3) logs_seen[OF assms(1)] genuine_mono su by (auto simp: dispatchable_def)
  have run: "ledger sha X (st_runtime u) (sent_commands s @ [c])"
    using u g cleared assms(1) unfolding su[symmetric]
    by (intro ledger_send) (auto simp: daemon_ledger_def logs_def)
  have "ledger sha X (replayed u) (sent_commands s @ [c]) \<and> seen_events (st_runtime u) \<subseteq> seen_events (replayed u)"
    if d: "jr_durability (st_journal u) \<noteq> NoDurability"
  proof -
    have l: "ledger sha X (replayed u) (sent_commands u)" "seen_events (st_runtime u) \<subseteq> seen_events (replayed u)"
      using u d by (auto simp: daemon_ledger_def)
    have "replayed u = replay_apply ?r (replayed s)"
      using assms(1) d by (auto simp: logs_def replayed_def same_frame_def)
    then have "\<not> queued (replayed u) (cmd_command_id c)" using cleared by simp
    then show ?thesis
      using l g genuine_mono[OF g(1) l(2)] unfolding su[symmetric] by (intro conjI ledger_send) auto
  qed
  then show "daemon_ledger sha X (u\<lparr>st_sent := st_sent u @ [(tx, Command c)]\<rparr>)"
    using run sent by (simp add: daemon_ledger_def replayed_def)
qed

lemma dispatch_ledger:
  assumes "dispatch_if_connected env c s = (res, t)" "daemon_ledger sha X s" "dispatchable sha X s c"
  shows "daemon_ledger sha X t"
    "set (sent_commands t) \<subseteq> insert c (set (sent_commands s))"
    "seen_events (st_runtime s) \<subseteq> seen_events (st_runtime t)" "same_frame s t"
proof -
  have "daemon_ledger sha X t \<and> set (sent_commands t) \<subseteq> insert c (set (sent_commands s)) \<and>
    seen_events (st_runtime s) \<subseteq> seen_events (st_runtime t) \<and> same_frame s t"
    using assms(1)
  proof (cases rule: dispatch_cases)
    case no_session
    then show ?thesis using assms(2) by auto
  next
    case (not_written ts)
    then show ?thesis
      using logs_ledger[OF not_written(3) assms(2)] logs_sent[OF not_written(3)]
        logs_seen[OF not_written(3)] logs_same_frame[OF not_written(3)] by auto
  next
    case (sent ts u session)
    note l = sent_ledger[OF sent(2) assms(2,3), of "sess_tx session"]
    have "same_frame s t" using sent(2,4) by (simp add: logs_def same_frame_def)
    moreover have "sent_commands t = sent_commands s @ [c]"
      using l(2) sent(4) by (simp add: sent_commands_def)
    ultimately show ?thesis using l sent(4) logs_seen[OF sent(2)] by auto
  next
    case (closed ts u ts' reason)
    have u: "daemon_ledger sha X u" by (rule logs_ledger[OF closed(2) assms(2)]) simp
    have "daemon_ledger sha X t" by (rule logs_ledger[OF closed(3) u]) simp
    moreover have "same_frame s t"
      using closed(2,3) by (auto simp: logs_def intro: same_frame_trans)
    ultimately show ?thesis
      using logs_sent[OF closed(2)] logs_sent[OF closed(3)] logs_seen[OF closed(2)] logs_seen[OF closed(3)]
      by auto
  next
    case (waiting ts u)
    have "daemon_ledger sha X u" by (rule logs_ledger[OF waiting(2) assms(2)]) simp
    then have "daemon_ledger sha X t"
      by (simp add: waiting(4) daemon_ledger_def sent_commands_def replayed_def)
    moreover have "sent_commands t = sent_commands u" "same_frame s t"
      using logs_same_frame[OF waiting(2)] by (simp_all add: waiting(4) sent_commands_def)
    ultimately show ?thesis
      using logs_sent[OF waiting(2)] logs_seen[OF waiting(2)] by (auto simp: waiting(4))
  qed
  then show "daemon_ledger sha X t" "set (sent_commands t) \<subseteq> insert c (set (sent_commands s))"
    "seen_events (st_runtime s) \<subseteq> seen_events (st_runtime t)" "same_frame s t" by auto
qed

lemma dispatch_all_ledger:
  assumes "eachS (dispatch_if_connected env) cs s = (res, t)" "daemon_ledger sha X s"
    and "\<forall>c \<in> set cs. dispatchable sha X s c" "distinct (map cmd_command_id cs)"
  shows "daemon_ledger sha X t \<and> same_frame s t"
  using assms
proof (induction cs arbitrary: s)
  case (Cons c cs)
  obtain r1 u where d: "dispatch_if_connected env c s = (r1, u)" by (cases "dispatch_if_connected env c s")
  note l = dispatch_ledger[OF d Cons.prems(2)]
  have c: "dispatchable sha X s c" using Cons.prems(3) by simp
  show ?case
  proof (cases r1)
    case (Inl e)
    then show ?thesis using Cons.prems(1) d l[OF c] by simp
  next
    case (Inr x)
    have "dispatchable sha X u c'" if c': "c' \<in> set cs" for c'
    proof -
      have "dispatchable sha X s c'" "cmd_command_id c' \<noteq> cmd_command_id c"
        using Cons.prems(3,4) c' by (auto simp: image_iff)
      moreover have "cmd_command_id ` set (sent_commands u) \<subseteq>
          insert (cmd_command_id c) (cmd_command_id ` set (sent_commands s))"
        using l(2)[OF c] by blast
      ultimately show ?thesis
        using genuine_mono[OF _ l(3)[OF c]] by (auto simp: dispatchable_def)
    qed
    then have "daemon_ledger sha X t \<and> same_frame u t"
      using Cons.prems d Inr l(1)[OF c] by (intro Cons.IH) auto
    then show ?thesis using l(4)[OF c] same_frame_trans by blast
  qed
qed auto

lemma dispatch_queued_ledger:
  assumes "daemon_ledger sha X s" shows "daemon_ledger sha X (snd (dispatch_queued_for env a s))"
proof -
  define xs where "xs = filter (\<lambda>x. sc_state x = Queued \<and> cmd_target_account_id (sc_command x) = a)
      (values_in (env_keys env (st_calls s)) (commands (st_runtime s)))"
  have led: "ledger sha X (st_runtime s) (sent_commands s)" using assms by (simp add: daemon_ledger_def)
  then have filed: "commands_filed (commands (st_runtime s))" by (auto simp: ledger_def commands_filed_def)
  have "dispatchable sha X (called s) (sc_command x)" if x: "x \<in> set xs" for x
  proof -
    obtain i where i: "commands (st_runtime s) i = Some x" using x values_in_sub by (fastforce simp: xs_def)
    then have "queued (st_runtime s) i" "cmd_command_id (sc_command x) = i"
      using x filed by (simp_all add: queued_def xs_def commands_filed_def)
    then have "cmd_command_id (sc_command x) \<notin> cmd_command_id ` set (sent_commands s)"
      using led by (auto simp: ledger_def)
    moreover have "genuine sha X (seen_events (st_runtime s)) (sc_command x)"
      using led i unfolding ledger_def by blast
    ultimately show ?thesis by (simp add: dispatchable_def sent_commands_def)
  qed
  moreover have "distinct (map cmd_command_id (map sc_command xs))"
    unfolding xs_def map_map o_def by (rule distinct_map_filter[OF values_in_ids_distinct[OF filed]])
  ultimately have "daemon_ledger sha X (snd (eachS (dispatch_if_connected env) (map sc_command xs) (called s)))"
    using assms by (intro dispatch_all_ledger[THEN conjunct1, OF surjective_pairing]) auto
  then show ?thesis
    by (simp add: dispatch_queued_for_def xs_def)
qed

lemma mark_unknown_ledger: "keeps (daemon_ledger sha X) (mark_unknown env i reason)"
  unfolding keeps_def
proof (intro allI impI)
  fix s assume s: "daemon_ledger sha X s"
  obtain ts where l: "logs (CommandUnknown i ts reason) (succeeds (fst (mark_unknown env i reason s))) s
      (snd (mark_unknown env i reason s))"
    using mark_unknown_logs[OF surjective_pairing] .
  show "daemon_ledger sha X (snd (mark_unknown env i reason s))"
    by (rule logs_ledger[OF l s]) simp
qed

lemma unregister_ledger: "keeps (daemon_ledger sha X) (unregister_session env a i)"
  unfolding unregister_session_def
  by (intro keeps_bindS keeps_getS keeps_case_option keeps_returnS keeps_if keeps_modifyS
      keeps_eachS mark_unknown_ledger) (simp_all add: keeps_def stored_values_def)

lemma register_ledger: "keeps (daemon_ledger sha X) (register_session a tx)"
  unfolding keeps_def register_session_def Let_def
  by (simp add: daemon_ledger_def sent_commands_def replayed_def)

lemma ack_ledger: "keeps (daemon_ledger sha X) (handle_ack env a)"
  unfolding keeps_def
proof (intro allI impI)
  fix s assume s: "daemon_ledger sha X s"
  show "daemon_ledger sha X (snd (handle_ack env a s))"
  proof (cases rule: handle_ack_cases[OF surjective_pairing[of "handle_ack env a s"]])
    case 1
    then show ?thesis using s by simp
  next
    case (2 r)
    then have "admissible sha X (sent_commands s) r" by (cases r) auto
    then show ?thesis by (rule logs_ledger[OF 2(1) s])
  qed
qed

lemma planned_key:
  assumes "plan_routes env e now rs s = (Inr planned, t)" "c \<in> set planned"
  obtains r where "r \<in> set rs" "key_of c = (ev_event_id e, rr_id r, rr_target_account_id r)"
    "cmd_command_id c = id_of (env_sha env) (key_of c)" "cmd_origin_event_id c = ev_event_id e"
proof -
  obtain r where r: "r \<in> set rs" "build_command (env_sha env) e r (route_mirror e s r) now = Inr (Some c)"
    using plan_routes_member[OF assms] .
  show thesis
    using r(1) build_command_ids[OF r(2)] by (intro that) (simp_all add: key_of_def id_of_def command_id_def)
qed

lemma genuine_planned:
  assumes "plan_routes env e now rs s = (Inr planned, t)" "c \<in> set planned" "key_of c \<in> X"
  shows "genuine (env_sha env) X {ev_event_id e} c"
  using planned_key[OF assms(1,2)] assms(3) by (metis genuine_def singletonI)

text \<open>The planning of a new event and the dispatch of what was planned.\<close>

lemma planned_ledger:
  assumes led: "daemon_ledger (env_sha env) X s" and inj: "inj_on (id_of (env_sha env)) X"
    and plan: "plan_routes env e ts rs v = (Inr planned, w)" and keys: "\<forall>c \<in> set planned. key_of c \<in> X"
    and routes: "distinct (map (\<lambda>r. (rr_id r, rr_target_account_id r)) rs)"
    and fresh: "ev_event_id e \<notin> seen_events (st_runtime s)"
    and logged: "logs (EventPlanned (ev_event_id e) planned) ok s u"
    and rest: "if ok then eachS (dispatch_if_connected env) planned u = (res, t) else t = u"
  shows "daemon_ledger (env_sha env) X t"
proof -
  have gen: "genuine (env_sha env) X {ev_event_id e} c" if "c \<in> set planned" for c
    using genuine_planned[OF plan that] keys that by blast
  have rt: "ledger (env_sha env) X (st_runtime s) (sent_commands s)" using led by (simp add: daemon_ledger_def)
  have same_key: "key_of c = key_of d" if "genuine (env_sha env) X S c" "genuine (env_sha env) X T d"
    "cmd_command_id c = cmd_command_id d" for c d S T
    using that inj by (auto simp: genuine_def dest: inj_onD)
  have new: "cmd_command_id c \<notin> cmd_command_id ` set (sent_commands s)" if c: "c \<in> set planned" for c
  proof
    assume "cmd_command_id c \<in> cmd_command_id ` set (sent_commands s)"
    then obtain d where d: "d \<in> set (sent_commands s)" "cmd_command_id c = cmd_command_id d" by auto
    have gd: "genuine (env_sha env) X (seen_events (st_runtime s)) d" using rt d(1) by (auto simp: ledger_def)
    then have "cmd_origin_event_id d = ev_event_id e"
      using same_key[OF gen[OF c] gd d(2)] gen[OF c] by (auto simp: genuine_def key_of_def)
    then show False using gd fresh by (simp add: genuine_def)
  qed
  have u: "daemon_ledger (env_sha env) X u" by (rule logs_ledger[OF logged led]) (simp add: gen new)
  show ?thesis
  proof (cases ok)
    case True
    have "ev_event_id e \<in> seen_events (st_runtime u)" using logged True by (simp add: logs_def)
    then have "dispatchable (env_sha env) X u c" if "c \<in> set planned" for c
      using gen[OF that] new[OF that] logs_sent[OF logged] by (auto simp: dispatchable_def genuine_def)
    moreover have "distinct (map cmd_command_id planned)"
    proof -
      have "inj_on cmd_command_id (set planned)"
      proof (rule inj_onI)
        fix c d assume cd: "c \<in> set planned" "d \<in> set planned" "cmd_command_id c = cmd_command_id d"
        then show "c = d"
          using same_key[OF gen gen cd(3)] plan_routes_distinct[OF plan routes]
          by (auto simp: key_of_def distinct_map dest: inj_onD)
      qed
      then show ?thesis using plan_routes_distinct[OF plan routes] by (simp add: distinct_map)
    qed
    ultimately show ?thesis using True rest u dispatch_all_ledger[of env planned u res t] by simp
  qed (use u rest in simp)
qed

lemma event_ledger:
  assumes "daemon_ledger (env_sha env) X s" "inj_on (id_of (env_sha env)) X"
    and "\<forall>r \<in> set (routes_for (st_engine s) (ev_source_account_id e)).
      (ev_event_id e, rr_id r, rr_target_account_id r) \<in> X"
    and "distinct (map (\<lambda>r. (rr_id r, rr_target_account_id r))
      (routes_for (st_engine s) (ev_source_account_id e)))"
  shows "daemon_ledger (env_sha env) X (snd (handle_event env e s))"
proof (cases rule: handle_event_cases[OF surjective_pairing[of "handle_event env e s"]])
  case 1
  then show ?thesis
    using assms(1) by (simp add: daemon_ledger_def sent_commands_def replayed_def)
next
  case (2 account planned ts u ok)
  have "\<forall>c \<in> set planned. key_of c \<in> X" using planned_key[OF 2(5)] assms(3) by metis
  moreover have "if ok then eachS (dispatch_if_connected env) planned u =
      (fst (handle_event env e s), snd (handle_event env e s)) else snd (handle_event env e s) = u"
    using 2(7) by (auto split: if_splits)
  ultimately show ?thesis by (rule planned_ledger[OF assms(1,2) 2(5) _ assms(4) 2(4,6)])
qed

section \<open>The invariant of a run\<close>

text \<open>What a run is assumed to be: its routes are told apart by id and target, and its command ids do not collide.\<close>

definition distinct_routes :: "daemon_config \<Rightarrow> bool" where
  "distinct_routes cfg \<longleftrightarrow>
     distinct (map (\<lambda>r. (rr_source_account_id r, rr_id r, rr_target_account_id r)) (dc_routes cfg))"

definition uses_keys :: "daemon_config \<Rightarrow> plan_key set \<Rightarrow> operation \<Rightarrow> bool" where
  "uses_keys cfg X x \<longleftrightarrow> (case x of
     Frame a (Event e) \<Rightarrow> \<forall>r \<in> set (dc_routes cfg). (ev_event_id e, rr_id r, rr_target_account_id r) \<in> X
   | _ \<Rightarrow> True)"

definition recoverable_run :: "environment \<Rightarrow> daemon_config \<Rightarrow> operation \<Rightarrow> bool" where
  "recoverable_run env cfg x \<longleftrightarrow>
     (x = Restart \<longrightarrow> whole_writes env \<and> dc_durability cfg \<noteq> NoDurability)"

definition run_invariant ::
    "environment \<Rightarrow> daemon_config \<Rightarrow> copy_engine \<Rightarrow> plan_key set \<Rightarrow> app_state \<Rightarrow> bool" where
  "run_invariant env cfg eng X s \<longleftrightarrow>
     engine_new (dc_routes cfg) = Inr eng \<and> distinct_routes cfg \<and> inj_on (id_of (env_sha env)) X \<and>
     started_as cfg eng s \<and> file_matches env s \<and>
     (serde_ok (env_enc env) (env_dec env) (set (st_written s)) \<longrightarrow> daemon_ledger (env_sha env) X s)"

lemma routes_for_distinct:
  assumes "engine_new (dc_routes cfg) = Inr eng" "distinct_routes cfg"
  shows "distinct (map (\<lambda>r. (rr_id r, rr_target_account_id r)) (routes_for eng a))"
proof -
  let ?rs = "filter (\<lambda>r. rr_source_account_id r = a) (dc_routes cfg)"
  have "distinct (map (\<lambda>r. (rr_source_account_id r, rr_id r, rr_target_account_id r)) ?rs)"
    using assms(2) unfolding distinct_routes_def by (rule distinct_map_filter)
  moreover have "map (\<lambda>r. (rr_source_account_id r, rr_id r, rr_target_account_id r)) ?rs =
      map (Pair a) (map (\<lambda>r. (rr_id r, rr_target_account_id r)) ?rs)" by simp
  ultimately have "distinct (map (Pair a) (map (\<lambda>r. (rr_id r, rr_target_account_id r)) ?rs))"
    by (simp only:)
  then show ?thesis
    unfolding routes_for_engine[OF assms(1)] by (rule distinct_map[THEN iffD1, THEN conjunct1])
qed

lemma restart_Some:
  assumes "restart env s = Some t"
  obtains j replay eng where
    "journal_open (env_dec env) True (Some (jr_contents (st_journal s))) (dc_durability (st_config s)) = Inr (j, replay)"
    "engine_new (dc_routes (st_config s)) = Inr eng"
    "t = \<lparr>st_config = st_config s, st_engine = eng, st_journal = j, st_runtime = replay,
      st_sessions = Map.empty, st_next_session_id = 1, st_sent = st_sent s, st_calls = st_calls s,
      st_written = st_written s\<rparr>"
proof (cases "journal_open (env_dec env) True (Some (jr_contents (st_journal s))) (dc_durability (st_config s))")
  case (Inl e)
  then show ?thesis using assms by (simp add: restart_def)
next
  case (Inr p)
  obtain j replay where p: "p = (j, replay)" by (cases p)
  show ?thesis
  proof (cases "engine_new (dc_routes (st_config s))")
    case (Inl e)
    then show ?thesis using assms Inr p by (simp add: restart_def app_new_def)
  next
    case inr: (Inr eng)
    have "t = \<lparr>st_config = st_config s, st_engine = eng, st_journal = j, st_runtime = replay,
      st_sessions = Map.empty, st_next_session_id = 1, st_sent = st_sent s, st_calls = st_calls s,
      st_written = st_written s\<rparr>"
      using assms Inr p inr by (simp add: restart_def app_new_def)
    with Inr p inr show ?thesis by (intro that) auto
  qed
qed

lemma journal_open_fields:
  "journal_open dec ok (Some raw) d = Inr (j, replay) \<Longrightarrow> j = \<lparr>jr_durability = d, jr_contents = raw\<rparr>"
  by (auto simp: journal_open_def outcome_simps split: if_splits)

lemma restart_ledger:
  assumes "restart env s = Some t" "serde_ok (env_enc env) (env_dec env) (set (st_written s))"
    and "file_matches env s" "whole_writes env" "jr_durability (st_journal s) \<noteq> NoDurability"
    and "daemon_ledger sha X s"
  shows "daemon_ledger sha X t" "st_runtime t = finalize_after_replay (replayed s)"
proof -
  have c: "jr_contents (st_journal s) = file_of (map (line_of (env_enc env)) (st_written s))"
    using assms(3,4) by (simp add: file_matches_def)
  obtain j replay eng where o: "journal_open (env_dec env) True (Some (jr_contents (st_journal s)))
      (dc_durability (st_config s)) = Inr (j, replay)"
    and t: "t = \<lparr>st_config = st_config s, st_engine = eng, st_journal = j, st_runtime = replay,
      st_sessions = Map.empty, st_next_session_id = 1, st_sent = st_sent s, st_calls = st_calls s,
      st_written = st_written s\<rparr>"
    by (rule restart_Some[OF assms(1)])
  have "replay = finalize_after_replay (replayed s)"
    using o replay_file_records[OF assms(2)] by (simp add: journal_open_def c replayed_def)
  then show rt: "st_runtime t = finalize_after_replay (replayed s)" by (simp add: t)
  have led: "ledger sha X (replayed s) (sent_commands s)" using assms(5,6) by (simp add: daemon_ledger_def)
  moreover have "seen_events (finalize_after_replay (replayed s)) = seen_events (replayed s)"
    by (simp add: finalize_after_replay_def)
  moreover have "sent_commands t = sent_commands s" "replayed t = replayed s"
    by (simp_all add: t sent_commands_def replayed_def)
  ultimately show "daemon_ledger sha X t"
    using rt ledger_finalize[OF led] by (simp add: daemon_ledger_def)
qed

context served_property
begin

lemma keeps_operate: "operate env x s = Some t \<Longrightarrow> x \<noteq> Restart \<Longrightarrow> I s \<Longrightarrow> I t"
  using keepsD[OF serves_register] keepsD[OF serves_dispatch_queued] keepsD[OF serves_frame]
    keepsD[OF serves_unregister]
  by (cases x) auto

lemma keeps_run: "\<forall>x \<in> set ops. x \<noteq> Restart \<Longrightarrow> I s \<Longrightarrow> I (run env ops s)"
proof (induction ops arbitrary: s)
  case (Cons x ops)
  then show ?case using keeps_operate[of x s] by (cases "operate env x s") (auto simp: run_def)
qed (simp add: run_def)

end

text \<open>
  What lies between two restarts: every property that the handlers keep is carried from \<open>s\<close> to \<open>t\<close>.
\<close>

definition served :: "environment \<Rightarrow> app_state \<Rightarrow> app_state \<Rightarrow> bool" where
  "served env s t \<longleftrightarrow> (\<forall>I. served_property env I \<longrightarrow> I s \<longrightarrow> I t)"

lemma servedD: "served env s t \<Longrightarrow> served_property env I \<Longrightarrow> I s \<Longrightarrow> I t"
  unfolding served_def by blast

lemma operate_served: "operate env x s = Some t \<Longrightarrow> x \<noteq> Restart \<Longrightarrow> served env s t"
  by (auto simp: served_def intro: served_property.keeps_operate)

lemma served_history: "served env s t \<Longrightarrow> \<exists>rs. st_written t = st_written s @ rs"
  by (erule servedD[OF _ history_grows.served_property_axioms]) simp

lemma served_serde: "served env s t \<Longrightarrow> serde_ok enc dec (set (st_written t)) \<Longrightarrow> serde_ok enc dec (set (st_written s))"
  by (drule served_history) (auto intro: serde_ok_mono)

lemmas served_started = servedD[OF _ start_up.served_property_axioms]
  and served_file = servedD[OF _ file_contents.served_property_axioms]

lemma operate_ledger:
  assumes "operate env x s = Some t" "x \<noteq> Restart" "daemon_ledger (env_sha env) X s"
    and "engine_new (dc_routes cfg) = Inr eng" "distinct_routes cfg" "inj_on (id_of (env_sha env)) X"
    and "started_as cfg eng s" "uses_keys cfg X x"
  shows "daemon_ledger (env_sha env) X t"
proof (cases x)
  case (Register a tx)
  then show ?thesis using assms(1,3) keepsD[OF register_ledger] by auto
next
  case (DispatchQueued a)
  then show ?thesis using assms(1,3) dispatch_queued_ledger by auto
next
  case (Unregister a i)
  then show ?thesis using assms(1,3) keepsD[OF unregister_ledger] by auto
next
  case (Frame a f)
  then have t: "t = snd (handle_frame env a f s)" using assms(1) by simp
  show ?thesis
  proof (cases f)
    case (Event e)
    have eng: "st_engine s = eng" using assms(7) by (simp add: started_as_def)
    have "\<forall>r \<in> set (routes_for eng (ev_source_account_id e)). (ev_event_id e, rr_id r, rr_target_account_id r) \<in> X"
      using assms(8) Frame Event by (simp add: uses_keys_def routes_for_engine[OF assms(4)])
    then have "daemon_ledger (env_sha env) X (snd (handle_event env e s))"
      using assms(3,6) routes_for_distinct[OF assms(4,5)] by (intro event_ledger) (simp_all add: eng)
    then show ?thesis using t Event assms(3) by (simp add: handle_frame_def)
  next
    case (Ack a)
    then show ?thesis using t assms(3) keepsD[OF ack_ledger] by (simp add: handle_frame_def)
  qed (use t assms(3) in \<open>simp_all add: handle_frame_def\<close>)
qed (use assms(2) in simp)

interpretation daemon_run: invariant_system "operate env"
  "\<lambda>x. uses_keys cfg X x \<and> recoverable_run env cfg x" "run_invariant env cfg eng X" for env cfg eng X
proof
  fix x s t
  assume p: "uses_keys cfg X x \<and> recoverable_run env cfg x" and s: "run_invariant env cfg eng X s"
    and step: "operate env x s = Some t"
  note inv = s[unfolded run_invariant_def]
  show "run_invariant env cfg eng X t"
  proof (cases "x = Restart")
    case False
    note served = operate_served[OF step False]
    show ?thesis
      using inv p operate_ledger[OF step False] served_serde[OF served] served_file[OF served] served_started[OF served]
      by (auto simp: run_invariant_def)
  next
    case True
    then have r: "restart env s = Some t" using step by simp
    have w: "whole_writes env" "dc_durability cfg \<noteq> NoDurability"
      using p True by (auto simp: recoverable_run_def)
    obtain j replay eng' where o: "journal_open (env_dec env) True (Some (jr_contents (st_journal s)))
        (dc_durability (st_config s)) = Inr (j, replay)" "engine_new (dc_routes (st_config s)) = Inr eng'"
      and t: "t = \<lparr>st_config = st_config s, st_engine = eng', st_journal = j, st_runtime = replay,
        st_sessions = Map.empty, st_next_session_id = 1, st_sent = st_sent s, st_calls = st_calls s,
        st_written = st_written s\<rparr>"
      by (rule restart_Some[OF r])
    have "started_as cfg eng t" "file_matches env t"
      using inv o journal_open_fields[OF o(1)] by (auto simp: t started_as_def file_matches_def)
    moreover have "daemon_ledger (env_sha env) X t"
      if "serde_ok (env_enc env) (env_dec env) (set (st_written s))"
      using restart_ledger(1)[OF r that] inv w that by (auto simp: started_as_def)
    ultimately show ?thesis using inv by (simp add: run_invariant_def t)
  qed
qed

section \<open>A concrete run\<close>

text \<open>
  The configuration of the tests, a clock that stands at 2, a disk and channels that never fail, and a
  serialiser that knows the two records of the run.
\<close>

definition opening_event :: trade_event where
  "opening_event = test_event Open (of_frac False 1 2)"

definition test_command :: execution_command where
  "test_command = make_command length_digest opening_event test_rule None (of_frac False 1 1) 2"

definition test_enc :: encoder where
  "test_enc r = (case r of EventPlanned _ _ \<Rightarrow> Some ''1'' | CommandDispatched _ _ \<Rightarrow> Some ''2'' | _ \<Rightarrow> None)"

definition test_dec :: decoder where
  "test_dec l = (if l = ''1'' then Some (EventPlanned ''evt-1'' [test_command])
     else if l = ''2'' then Some (CommandDispatched (cmd_command_id test_command) 2) else None)"

definition test_env :: environment where
  "test_env = \<lparr>env_clock = (\<lambda>_. Some 2), env_write = (\<lambda>_. Written), env_send = (\<lambda>_ _ _. Delivered),
     env_keys = (\<lambda>_. [cmd_command_id test_command]), env_var = (\<lambda>_. None),
     env_sha = length_digest, env_enc = test_enc, env_dec = test_dec\<rparr>"

definition test_start :: app_state where
  "test_start = \<lparr>st_config = test_config,
     st_engine = \<lparr>routes_by_source = Map.empty(''master'' \<mapsto> [test_rule])\<rparr>,
     st_journal = \<lparr>jr_durability = Flush, jr_contents = []\<rparr>, st_runtime = replay_default,
     st_sessions = Map.empty, st_next_session_id = 1, st_sent = [], st_calls = 0, st_written = []\<rparr>"

definition test_opening :: operation where
  "test_opening = Frame ''master'' (Event opening_event)"

lemma test_engine: "engine_new (dc_routes test_config) = Inr \<lparr>routes_by_source = Map.empty(''master'' \<mapsto> [test_rule])\<rparr>"
proof -
  have "rr_source_account_id test_rule = ''master''" by (simp add: test_rule_def)
  then show ?thesis
    using test_rule_valid by (simp add: engine_new_def test_config_def push_route_def)
qed

lemma test_start_new:
  "app_new test_config \<lparr>jr_durability = dc_durability test_config, jr_contents = []\<rparr> replay_default = Inr test_start"
  using test_engine by (simp add: app_new_def test_start_def) (simp add: test_config_def)

lemma test_serde: "serde_ok test_enc test_dec
    {EventPlanned ''evt-1'' [test_command], CommandDispatched (cmd_command_id test_command) 2}"
proof -
  have "one_line ''1''" "one_line ''2''"
    by (simp_all add: one_line_def separator_codes trim_is_empty_def ws1_def utf8_valid_def)
  then show ?thesis by (simp add: serde_ok_def test_enc_def test_dec_def)
qed

lemma test_env_simps [simp]:
  "env_clock test_env n = Some 2" "env_write test_env n = Written" "env_send test_env n tx k = Delivered"
  "env_sha test_env = length_digest" "env_enc test_env = test_enc" "env_dec test_env = test_dec"
  by (simp_all add: test_env_def)

lemma test_clock: "clock_ns (Some 2) = 2"
  by (simp add: clock_ns_def)

lemma opening_command: "build_command length_digest opening_event test_rule None 2 = Inr (Some test_command)"
  unfolding opening_event_def test_command_def by (rule test_open_command)

lemma opening_fields [simp]:
  "ev_event_id opening_event = ''evt-1''" "ev_source_account_id opening_event = ''master''"
  "ev_origin_command_id opening_event = None" "ev_source_order_id opening_event = ''100''"
  "cmd_target_account_id test_command = ''follower''"
  by (simp_all add: opening_event_def test_event_def test_command_def test_rule_def)

text \<open>The master opens while the follower is connected: one command is planned, journaled and sent.\<close>

lemma test_log:
  assumes "jr_durability (st_journal s) = Flush" "test_enc r = Some l"
  shows "log_apply test_env r s = (Inr (), called (s\<lparr>
      st_journal := (st_journal s)\<lparr>jr_contents := jr_contents (st_journal s) @ l @ [newline]\<rparr>,
      st_written := st_written s @ [r], st_runtime := replay_apply r (st_runtime s)\<rparr>))"
  using assms
  by (simp add: log_apply_def apply_record_def append_record_def journal_append_def written_by_def
      bindS_def called_def)

lemma test_plan:
  assumes "mirrors (st_runtime s) = Map.empty"
  shows "plan_routes test_env opening_event 2 [test_rule] s = (Inr [test_command], s)"
proof -
  have "route_mirror opening_event s test_rule = None"
    by (simp add: route_mirror_def assms)
  then show ?thesis
    unfolding plan_routes_Cons
    by (simp add: opening_command bindS_def)
qed

definition test_connected :: app_state where
  "test_connected = snd (register_session ''follower'' 7 test_start)"

definition test_opened :: app_state where
  "test_opened = snd (handle_event test_env opening_event test_connected)"

lemma test_opened_eq:
  "st_sent test_opened = [(7, Command test_command)]"
  "st_written test_opened = [EventPlanned ''evt-1'' [test_command], CommandDispatched (cmd_command_id test_command) 2]"
  "st_config test_opened = test_config"
  "seen_events (st_runtime test_opened) = {''evt-1''}"
  "fst (handle_event test_env opening_event test_connected) = Inr ()"
proof -
  have acc: "config_account test_config ''master'' = Some (test_account ''master'' Master)"
    by (simp add: config_account_def test_config_def test_account_def)
  have rts: "routes_for (st_engine test_start) ''master'' = [test_rule]"
    by (simp add: routes_for_def test_start_def)
  have e: "test_enc (EventPlanned i cs) = Some ''1''" "test_enc (CommandDispatched i t) = Some ''2''" for i cs t
    by (simp_all add: test_enc_def)
  show "st_sent test_opened = [(7, Command test_command)]"
    "st_written test_opened = [EventPlanned ''evt-1'' [test_command], CommandDispatched (cmd_command_id test_command) 2]"
    "st_config test_opened = test_config" "seen_events (st_runtime test_opened) = {''evt-1''}"
    "fst (handle_event test_env opening_event test_connected) = Inr ()"
    using rts
    by (simp_all add: test_opened_def test_connected_def register_session_def handle_event_def acc
        test_start_def replay_default_def test_clock test_plan test_log e test_account_def
        dispatch_if_connected_def send_frame_def bindS_def[of "send_frame _ _ _"] called_def
        del: plan_routes.simps(2))
qed

section \<open>Journal before send, memory and journal in step\<close>

text \<open>Every command that was sent has its dispatch record in the journal.\<close>

definition sent_is_journaled :: "app_state \<Rightarrow> bool" where
  "sent_is_journaled s \<longleftrightarrow> (jr_durability (st_journal s) \<noteq> NoDurability \<longrightarrow>
     (\<forall>c \<in> set (sent_commands s). \<exists>ts. CommandDispatched (cmd_command_id c) ts \<in> set (st_written s)))"

lemma logs_sent_is_journaled:
  "logs r ok s t \<Longrightarrow> sent_is_journaled s \<Longrightarrow> sent_is_journaled t"
  unfolding sent_is_journaled_def logs_def same_frame_def sent_commands_def by fastforce

lemma dispatch_sent_is_journaled: "keeps sent_is_journaled (dispatch_if_connected env c)"
  unfolding keeps_def
proof (intro allI impI)
  fix s assume s: "sent_is_journaled s"
  show "sent_is_journaled (snd (dispatch_if_connected env c s))"
  proof (cases rule: dispatch_cases[OF surjective_pairing[of "dispatch_if_connected env c s"]])
    case 1
    then show ?thesis using s by simp
  next
    case (2 ts)
    then show ?thesis using s logs_sent_is_journaled by blast
  next
    case (3 ts u session)
    have u: "sent_is_journaled u" using 3(2) s by (rule logs_sent_is_journaled)
    let ?t = "snd (dispatch_if_connected env c s)"
    have "sent_commands ?t = sent_commands u @ [c]" "st_written ?t = st_written u"
      "st_journal ?t = st_journal u"
      by (simp_all add: 3(4) sent_commands_def map_filter_def)
    moreover have "CommandDispatched (cmd_command_id c) ts \<in> set (st_written u)"
      if "jr_durability (st_journal u) \<noteq> NoDurability"
      using 3(2) that by (auto simp: logs_def same_frame_def)
    ultimately show ?thesis using u by (auto simp: sent_is_journaled_def)
  next
    case (4 ts u ts' reason)
    then show ?thesis using s logs_sent_is_journaled by blast
  next
    case (5 ts u)
    have "sent_is_journaled u" using 5(2) s by (rule logs_sent_is_journaled)
    then show ?thesis by (simp add: 5(4) sent_is_journaled_def sent_commands_def)
  qed
qed

interpretation journaled: handler_property env sent_is_journaled for env
proof
  show "keeps sent_is_journaled (log_apply env r)" for r
    unfolding keeps_def using log_apply_logs[OF surjective_pairing] logs_sent_is_journaled by blast
qed (simp_all add: dispatch_sent_is_journaled sent_is_journaled_def sent_commands_def)

text \<open>
  When a write that reports an error has not reached the file, the state in memory and the state the
  journal replays to are the same up to settling.
\<close>

definition prompt_writes :: "environment \<Rightarrow> bool" where
  "prompt_writes env \<longleftrightarrow> (\<forall>n. env_write env n \<noteq> Unsynced)"

definition in_step :: "environment \<Rightarrow> app_state \<Rightarrow> bool" where
  "in_step env s \<longleftrightarrow> (prompt_writes env \<and> jr_durability (st_journal s) \<noteq> NoDurability \<longrightarrow>
     finalize_after_replay (st_runtime s) = finalize_after_replay (replayed s))"

lemma append_record_prompt:
  assumes "append_record env r s = (res, t)" "prompt_writes env"
    "jr_durability (st_journal s) \<noteq> NoDurability"
  shows "st_written t = st_written s @ (if succeeds res then [r] else [])"
proof -
  have "written_by (st_journal s) (env_enc env) (env_write env (st_calls s)) r =
      (if succeeds (fst (journal_append (env_enc env) (env_write env (st_calls s)) r (st_journal s))) then [r] else [])"
    using assms(2,3) unfolding prompt_writes_def
    by (cases "env_enc env r"; cases "env_write env (st_calls s)")
      (auto simp: written_by_def journal_append_def)
  moreover have "t = snd (append_record env r s)" "succeeds res = succeeds (fst (append_record env r s))"
    using assms(1) by simp_all
  ultimately show ?thesis
    by (simp add: append_record_journal) (simp add: append_record_def Let_def split: prod.split)
qed

lemma log_apply_in_step: "keeps (in_step env) (log_apply env r)"
  unfolding keeps_def
proof (intro allI impI)
  fix s assume s: "in_step env s"
  obtain res u where a: "append_record env r s = (res, u)" by (cases "append_record env r s")
  have l: "logs r (succeeds (fst (log_apply env r s))) s (snd (log_apply env r s))"
    by (rule log_apply_logs[OF surjective_pairing])
  have w: "st_written (snd (log_apply env r s)) = st_written u"
    "succeeds (fst (log_apply env r s)) = succeeds res"
    using a by (cases res; simp add: log_apply_def apply_record_def)+
  show "in_step env (snd (log_apply env r s))"
    unfolding in_step_def
  proof (intro impI)
    assume p: "prompt_writes env \<and> jr_durability (st_journal (snd (log_apply env r s))) \<noteq> NoDurability"
    then have d: "jr_durability (st_journal s) \<noteq> NoDurability"
      using l by (simp add: logs_def same_frame_def)
    have "st_written u = st_written s @ (if succeeds res then [r] else [])"
      using append_record_prompt[OF a] p d by blast
    moreover have "finalize_after_replay (st_runtime s) = finalize_after_replay (replayed s)"
      using s p d by (simp add: in_step_def)
    ultimately show "finalize_after_replay (st_runtime (snd (log_apply env r s))) =
        finalize_after_replay (replayed (snd (log_apply env r s)))"
      using l w journal_log.settle_cong_apply[of "st_runtime s" "replayed s" r]
      by (auto simp: logs_def replayed_def)
  qed
qed

interpretation stepping: logged_property env "in_step env" for env
  by (unfold_locales) (simp_all add: log_apply_in_step in_step_def replayed_def)

lemma restart_started:
  assumes "restart env s = Some t" "started_as cfg eng s" "engine_new (dc_routes cfg) = Inr eng"
  shows "started_as cfg eng t" "st_written t = st_written s" "sent_commands t = sent_commands s"
    "replayed t = replayed s" "jr_contents (st_journal t) = jr_contents (st_journal s)"
proof -
  obtain j replay eng' where o: "journal_open (env_dec env) True (Some (jr_contents (st_journal s)))
      (dc_durability (st_config s)) = Inr (j, replay)" "engine_new (dc_routes (st_config s)) = Inr eng'"
    and t: "t = \<lparr>st_config = st_config s, st_engine = eng', st_journal = j, st_runtime = replay,
      st_sessions = Map.empty, st_next_session_id = 1, st_sent = st_sent s, st_calls = st_calls s,
      st_written = st_written s\<rparr>"
    by (rule restart_Some[OF assms(1)])
  show "started_as cfg eng t" "st_written t = st_written s" "sent_commands t = sent_commands s"
    "replayed t = replayed s" "jr_contents (st_journal t) = jr_contents (st_journal s)"
    using assms(2,3) o journal_open_fields[OF o(1)]
    by (auto simp: t started_as_def sent_commands_def replayed_def)
qed

definition journaled_invariant :: "daemon_config \<Rightarrow> copy_engine \<Rightarrow> app_state \<Rightarrow> bool" where
  "journaled_invariant cfg eng s \<longleftrightarrow>
     started_as cfg eng s \<and> engine_new (dc_routes cfg) = Inr eng \<and> sent_is_journaled s"

lemma served_journaled: "served env s t \<Longrightarrow> journaled_invariant cfg eng s \<Longrightarrow> journaled_invariant cfg eng t"
  using served_started servedD[OF _ journaled.served_property_axioms] by (auto simp: journaled_invariant_def)

lemma restart_journaled:
  "restart env s = Some t \<Longrightarrow> journaled_invariant cfg eng s \<Longrightarrow> journaled_invariant cfg eng t"
  using restart_started[of env s t cfg eng]
  by (auto simp: journaled_invariant_def sent_is_journaled_def started_as_def)

interpretation journaled_run: invariant_system "operate env" "\<lambda>x. True" "journaled_invariant cfg eng" for env cfg eng
  using operate_served served_journaled restart_journaled by unfold_locales (metis operate.simps(5))

text \<open>The invariant behind recovery: a durable journal, whole and prompt writes, and a state in step.\<close>

definition recovery_invariant :: "environment \<Rightarrow> daemon_config \<Rightarrow> copy_engine \<Rightarrow> app_state \<Rightarrow> bool" where
  "recovery_invariant env cfg eng s \<longleftrightarrow>
     engine_new (dc_routes cfg) = Inr eng \<and> dc_durability cfg \<noteq> NoDurability \<and>
     whole_writes env \<and> prompt_writes env \<and> started_as cfg eng s \<and> file_matches env s \<and>
     (serde_ok (env_enc env) (env_dec env) (set (st_written s)) \<longrightarrow> in_step env s)"

lemma served_recovery:
  assumes "served env s t" "recovery_invariant env cfg eng s" shows "recovery_invariant env cfg eng t"
  using assms(2) served_started[OF assms(1)] served_file[OF assms(1)] served_serde[OF assms(1)]
    servedD[OF assms(1) stepping.served_property_axioms]
  by (auto simp: recovery_invariant_def)

lemma restart_recovery:
  assumes r: "restart env s = Some t" and s: "recovery_invariant env cfg eng s"
  shows "recovery_invariant env cfg eng t"
proof -
  note inv = s[unfolded recovery_invariant_def]
  have sa: "started_as cfg eng s" "engine_new (dc_routes cfg) = Inr eng" using inv by auto
  note t = restart_started[OF r sa]
  have "in_step env t" if ok: "serde_ok (env_enc env) (env_dec env) (set (st_written t))"
  proof -
    have fm: "jr_contents (st_journal s) = file_of (map (line_of (env_enc env)) (st_written s))"
      using inv by (simp add: file_matches_def)
    obtain j replay eng' where o: "journal_open (env_dec env) True (Some (jr_contents (st_journal s)))
        (dc_durability (st_config s)) = Inr (j, replay)"
      and rt: "t = \<lparr>st_config = st_config s, st_engine = eng', st_journal = j, st_runtime = replay,
        st_sessions = Map.empty, st_next_session_id = 1, st_sent = st_sent s, st_calls = st_calls s,
        st_written = st_written s\<rparr>"
      by (rule restart_Some[OF r])
    have "replay = finalize_after_replay (replayed s)"
      using o replay_file_records[of "env_enc env" "env_dec env" "st_written s"] ok t(2)
      by (simp add: journal_open_def fm replayed_def)
    then show ?thesis
      using t(4) by (simp add: in_step_def rt journal_log.settle_settle)
  qed
  then show ?thesis
    using inv t by (simp add: recovery_invariant_def file_matches_def)
qed

interpretation recovery_run: invariant_system "operate env" "\<lambda>x. True" "recovery_invariant env cfg eng"
  for env cfg eng
  using operate_served served_recovery restart_recovery by unfold_locales (metis operate.simps(5))

lemma fresh_start:
  assumes "app_new cfg \<lparr>jr_durability = dc_durability cfg, jr_contents = []\<rparr> replay_default = Inr s"
  shows "engine_new (dc_routes cfg) = Inr (st_engine s)" "started_as cfg (st_engine s) s"
    "file_matches env s" "sent_is_journaled s" "in_step env s" "daemon_ledger sha X s"
    "st_written s = []" "st_runtime s = replay_default"
  using assms
  by (auto simp: app_new_def outcome_simps started_as_def file_matches_def sent_is_journaled_def
      in_step_def daemon_ledger_def ledger_def sent_commands_def replayed_def replay_default_def map_filter_def)

lemma restart_total:
  assumes "recovery_invariant env cfg eng s" "serde_ok (env_enc env) (env_dec env) (set (st_written s))"
  obtains t where "restart env s = Some t" "st_runtime t = finalize_after_replay (st_runtime s)"
proof -
  note inv = assms(1)[unfolded recovery_invariant_def]
  have fm: "jr_contents (st_journal s) = file_of (map (line_of (env_enc env)) (st_written s))"
    using inv by (simp add: file_matches_def)
  have o: "journal_open (env_dec env) True (Some (jr_contents (st_journal s))) (dc_durability (st_config s)) =
      Inr (\<lparr>jr_durability = dc_durability (st_config s), jr_contents = jr_contents (st_journal s)\<rparr>,
        finalize_after_replay (replayed s))"
    using replay_file_records[OF assms(2)] by (simp add: journal_open_def fm replayed_def)
  have "engine_new (dc_routes (st_config s)) = Inr eng" using inv by (simp add: started_as_def)
  then obtain t where "restart env s = Some t" "st_runtime t = finalize_after_replay (replayed s)"
    by (simp add: restart_def o app_new_def)
  moreover have "finalize_after_replay (replayed s) = finalize_after_replay (st_runtime s)"
    using inv assms(2) by (simp add: in_step_def started_as_def)
  ultimately show thesis by (intro that) simp_all
qed

section \<open>Properties\<close>

text \<open>The concrete run: the follower connects, the master opens, the daemon restarts, the event comes again.\<close>

definition test_ops :: "operation list" where
  "test_ops = [Register ''follower'' 7, test_opening, Restart, test_opening]"

definition test_keys :: "plan_key set" where
  "test_keys = {(''evt-1'', ''r1'', ''follower'')}"

lemma test_invariants:
  "distinct_routes test_config" "inj_on (id_of length_digest) test_keys"
  "\<forall>x \<in> set test_ops. uses_keys test_config test_keys x \<and> recoverable_run test_env test_config x"
  "whole_writes test_env" "prompt_writes test_env" "dc_durability test_config = Flush"
proof -
  show w: "whole_writes test_env" "prompt_writes test_env"
    by (simp_all add: whole_writes_def prompt_writes_def)
  show d: "dc_durability test_config = Flush" by (simp add: test_config_def)
  show "distinct_routes test_config" by (simp add: distinct_routes_def test_config_def)
  show "inj_on (id_of length_digest) test_keys" by (simp add: test_keys_def)
  have "rr_id test_rule = ''r1''" "rr_target_account_id test_rule = ''follower''"
    "dc_routes test_config = [test_rule]"
    by (simp_all add: test_rule_def test_config_def)
  then show "\<forall>x \<in> set test_ops. uses_keys test_config test_keys x \<and> recoverable_run test_env test_config x"
    using w d by (simp add: test_ops_def test_opening_def uses_keys_def recoverable_run_def test_keys_def)
qed

lemma test_frame_opening:
  "operate test_env test_opening s = Some (snd (handle_event test_env opening_event s))"
  by (simp add: test_opening_def handle_frame_def)

lemma seen_again:
  assumes "ev_event_id e \<in> seen_events (st_runtime s)" shows "snd (handle_event env e s) = s"
  using assms
  by (cases "config_account (st_config s) (ev_source_account_id e)") (auto simp: handle_event_def)

lemma test_before_restart:
  "run test_env [Register ''follower'' 7, test_opening] test_start = test_opened"
  by (simp add: run_def test_frame_opening test_opened_def test_connected_def)

lemma test_opened_recovery:
  "recovery_invariant test_env test_config (st_engine test_start) test_opened"
proof -
  note f = fresh_start[OF test_start_new]
  have "recovery_invariant test_env test_config (st_engine test_start) test_start"
    using f test_invariants by (simp add: recovery_invariant_def)
  then have "recovery_invariant test_env test_config (st_engine test_start)
      (run test_env [Register ''follower'' 7, test_opening] test_start)"
    unfolding run_def by (rule recovery_run.run_inv[rotated]) simp
  then show ?thesis by (simp only: test_before_restart)
qed

lemma test_opened_serde: "serde_ok (env_enc test_env) (env_dec test_env) (set (st_written test_opened))"
  using test_serde by (simp add: test_opened_eq insert_commute)

lemma test_run:
  "sent_commands (run test_env test_ops test_start) = [test_command]"
  "st_written (run test_env test_ops test_start) = st_written test_opened"
proof -
  obtain t where t: "restart test_env test_opened = Some t"
    "st_runtime t = finalize_after_replay (st_runtime test_opened)"
    by (rule restart_total[OF test_opened_recovery test_opened_serde])
  have "ev_event_id opening_event \<in> seen_events (st_runtime t)"
    by (simp add: t(2) finalize_after_replay_def test_opened_eq)
  then have r: "run test_env test_ops test_start = t"
    using test_before_restart seen_again[of opening_event t]
    by (simp add: run_def test_ops_def test_frame_opening t(1))
  have "started_as test_config (st_engine test_start) test_opened"
    "engine_new (dc_routes test_config) = Inr (st_engine test_start)"
    using test_opened_recovery by (simp_all add: recovery_invariant_def)
  note f = restart_started[OF t(1) this]
  show "sent_commands (run test_env test_ops test_start) = [test_command]"
    "st_written (run test_env test_ops test_start) = st_written test_opened"
    using f by (simp_all add: r sent_commands_def test_opened_eq map_filter_def)
qed

text \<open>
  At most once, when one handler runs at a time. Over every run of the daemon, however long, with duplicate events, reconnections,
  failing writes, closed channels and any number of restarts on a durable journal, no command id is
  ever sent twice. The routes must be told apart by source, id and target, the command ids of
  the events in the run must not collide, restarts need writes that are not torn, and the
  serialiser must read back the records it wrote.
\<close>

theorem commands_sent_at_most_once:
  assumes "app_new cfg \<lparr>jr_durability = dc_durability cfg, jr_contents = []\<rparr> replay_default = Inr s"
    and "distinct_routes cfg" "inj_on (id_of (env_sha env)) X"
    and "\<forall>x \<in> set ops. uses_keys cfg X x \<and> recoverable_run env cfg x"
    and "serde_ok (env_enc env) (env_dec env) (set (st_written (run env ops s)))"
  shows "distinct (map cmd_command_id (sent_commands (run env ops s)))"
proof -
  have "run_invariant env cfg (st_engine s) X s"
    using assms(2,3) fresh_start[OF assms(1)] by (simp add: run_invariant_def)
  then have "run_invariant env cfg (st_engine s) X (run env ops s)"
    unfolding run_def by (rule daemon_run.run_inv[OF assms(4)])
  then show ?thesis
    using assms(5) by (simp add: run_invariant_def daemon_ledger_def ledger_def)
qed

theorem commands_sent_at_most_once_witness:
  "distinct (map cmd_command_id (sent_commands (run test_env test_ops test_start))) \<and>
   sent_commands (run test_env test_ops test_start) = [test_command]"
  using commands_sent_at_most_once[OF test_start_new test_invariants(1), of test_env test_keys test_ops]
    test_invariants(2,3) test_opened_serde
  by (simp add: test_run)

text \<open>
  Journal before send. In every run with a journal, every command that was ever put into
  a session's channel has its dispatch record in the journal: nothing leaves the daemon that
  a restart would not know about. No assumption is made about the disk, the clock or the serialiser.
\<close>

theorem journaled_before_sent:
  assumes "app_new cfg \<lparr>jr_durability = dc_durability cfg, jr_contents = []\<rparr> replay_default = Inr s"
    and "dc_durability cfg \<noteq> NoDurability" "c \<in> set (sent_commands (run env ops s))"
  shows "\<exists>ts. CommandDispatched (cmd_command_id c) ts \<in> set (st_written (run env ops s))"
proof -
  note f = fresh_start[OF assms(1)]
  have "journaled_invariant cfg (st_engine s) (run env ops s)"
    unfolding run_def by (rule journaled_run.run_inv) (use f in \<open>auto simp: journaled_invariant_def\<close>)
  then show ?thesis
    using assms(2,3) by (auto simp: journaled_invariant_def sent_is_journaled_def started_as_def)
qed

theorem journaled_before_sent_witness:
  "\<exists>ts. CommandDispatched (cmd_command_id test_command) ts \<in> set (st_written (run test_env test_ops test_start))"
  using journaled_before_sent[OF test_start_new, of test_command test_env test_ops]
  by (simp add: test_run test_invariants)

text \<open>
  Recovery is exact, when one handler runs at a time. After any run on a journal whose failing writes leave no trace, the daemon
  restarts, and the state it recovers is the state the process had in memory, with every
  dispatched and unacknowledged command marked UNKNOWN: no event, command or mirror is lost or
  invented.
\<close>

theorem restart_recovers_memory:
  assumes "app_new cfg \<lparr>jr_durability = dc_durability cfg, jr_contents = []\<rparr> replay_default = Inr s"
    and "dc_durability cfg \<noteq> NoDurability" "whole_writes env" "prompt_writes env"
    and "serde_ok (env_enc env) (env_dec env) (set (st_written (run env ops s)))"
  shows "\<exists>t. restart env (run env ops s) = Some t \<and>
    st_runtime t = finalize_after_replay (st_runtime (run env ops s))"
proof -
  have "recovery_invariant env cfg (st_engine s) s"
    using assms(2-4) fresh_start[OF assms(1)] by (simp add: recovery_invariant_def)
  then have "recovery_invariant env cfg (st_engine s) (run env ops s)"
    unfolding run_def by (rule recovery_run.run_inv[rotated]) simp
  then show ?thesis using restart_total[OF _ assms(5)] by metis
qed

theorem restart_recovers_memory_witness:
  "\<exists>t. restart test_env test_opened = Some t \<and> st_runtime t = finalize_after_replay (st_runtime test_opened)"
  using restart_recovers_memory[OF test_start_new, of test_env "[Register ''follower'' 7, test_opening]"]
    test_invariants test_opened_serde
  by (simp add: test_before_restart)

end
