(* ===== verification/Handlers.thy ===== *)
theory Handlers
  imports Daemon
begin

text \<open>
  What the single handlers of \<open>runtime.rs\<close> do, branch by branch: who may change what, what an
  acknowledgement does to commands and mirrors, what connecting and disconnecting do to the
  commands of an account, and the life of a copied position across handlers.
\<close>

section \<open>A disk that works\<close>

definition reliable_disk :: "environment \<Rightarrow> bool" where
  "reliable_disk env \<longleftrightarrow> (\<forall>n. env_write env n = Written) \<and> (\<forall>r. env_enc env r \<noteq> None)"

lemma log_apply_reliable:
  assumes "reliable_disk env"
  obtains t where "log_apply env r s = (Inr (), t)" "logs r True s t" "st_calls t = st_calls s + 1"
proof -
  obtain res t where l: "log_apply env r s = (res, t)" by (cases "log_apply env r s")
  obtain line where "env_enc env r = Some line" using assms by (auto simp: reliable_disk_def)
  then have "res = Inr ()" "st_calls t = st_calls s + 1"
    using l assms
    by (auto simp: log_apply_def apply_record_def append_record_def journal_append_def bindS_def
        reliable_disk_def Let_def split: if_splits)
  then show thesis using that log_apply_logs[OF l] l by simp
qed

lemma mark_unknown_reliable:
  assumes "reliable_disk env"
  obtains t ts where "mark_unknown env i reason s = (Inr (), t)" "logs (CommandUnknown i ts reason) True s t"
proof -
  define ts where "ts = clock_ns (env_clock env (st_calls s))"
  obtain t where "log_apply env (CommandUnknown i ts reason) (called s) = (Inr (), t)"
    "logs (CommandUnknown i ts reason) True (called s) t"
    by (rule log_apply_reliable[OF assms])
  then show thesis by (intro that[of t ts]) (simp_all add: mark_unknown_def ts_def)
qed

section \<open>Acknowledgements\<close>

definition ack_mirrors ::
    "execution_command \<Rightarrow> execution_ack \<Rightarrow> (string \<rightharpoonup> mirror_binding) \<Rightarrow> (string \<rightharpoonup> mirror_binding)" where
  "ack_mirrors c a m =
    (if ack_status a = Rejected then m
     else (case cmd_action c of
         Open \<Rightarrow> m(command_key c \<mapsto> opened_binding c (the (ack_external_id a)))
       | Modify \<Rightarrow> m
       | Reduce \<Rightarrow> (case m (command_key c) of None \<Rightarrow> m | Some b \<Rightarrow> m(command_key c \<mapsto> reduced_binding c b))
       | Close \<Rightarrow> m(command_key c := None)))"

lemma binding_key_opened [simp]: "binding_key (opened_binding c i) = command_key c"
  by (simp add: binding_key_def opened_binding_def command_key_def)

lemma binding_key_reduced [simp]: "binding_key (reduced_binding c b) = binding_key b"
  by (simp add: binding_key_def reduced_binding_def)

text \<open>Mirrors are filed under their own keys.\<close>

definition mirrors_filed :: "(string \<rightharpoonup> mirror_binding) \<Rightarrow> bool" where
  "mirrors_filed m \<longleftrightarrow> (\<forall>k b. m k = Some b \<longrightarrow> binding_key b = k)"

lemma mirror_mutation_ok:
  assumes "ack_status a \<in> {Accepted, Filled}" "cmd_action c = Open \<Longrightarrow> ack_external_id a \<noteq> None"
    and "mirrors_filed (mirrors (st_runtime s))"
  obtains mu where "mirror_mutation_for c a s = (Inr mu, s)"
    "apply_mutation mu (mirrors (st_runtime s)) = ack_mirrors c a (mirrors (st_runtime s))"
proof (cases "cmd_action c")
  case Open
  then obtain i where "ack_external_id a = Some i" using assms(2) by auto
  then show ?thesis
    using Open assms(1) that[of "Some (Upsert (opened_binding c i))"]
    by (auto simp: mirror_mutation_for_def ack_mirrors_def apply_mutation_def)
next
  case Modify
  then show ?thesis
    using assms(1) that[of None] by (auto simp: mirror_mutation_for_def ack_mirrors_def apply_mutation_def)
next
  case Reduce
  show ?thesis
  proof (cases "mirrors (st_runtime s) (command_key c)")
    case None
    then show ?thesis
      using Reduce assms(1) that[of None]
      by (auto simp: mirror_mutation_for_def ack_mirrors_def apply_mutation_def)
  next
    case (Some b)
    then have "binding_key b = command_key c" using assms(3) by (simp add: mirrors_filed_def)
    then show ?thesis
      using Reduce Some assms(1) that[of "Some (Upsert (reduced_binding c b))"]
      by (auto simp: mirror_mutation_for_def ack_mirrors_def apply_mutation_def)
  qed
next
  case Close
  then show ?thesis
    using assms(1) that[of "Some (Remove (command_key c))"]
    by (auto simp: mirror_mutation_for_def ack_mirrors_def apply_mutation_def)
qed

lemma terminal_ack:
  assumes "reliable_disk env" "mirrors_filed (mirrors (st_runtime s))"
    and "commands (st_runtime s) (ack_command_id a) = Some x"
    and "cmd_target_account_id (sc_command x) = ack_account_id a"
    and "ack_status a \<noteq> Unknown"
    and "ack_status a = Rejected \<or> cmd_action (sc_command x) \<noteq> Open \<or> ack_external_id a \<noteq> None"
  obtains t mu where "handle_ack env a s = (Inr (), t)" "logs (AckApplied a mu) True s t"
    "st_runtime t = (st_runtime s)\<lparr>commands := (commands (st_runtime s))(ack_command_id a := None),
       mirrors := ack_mirrors (sc_command x) a (mirrors (st_runtime s))\<rparr>"
proof -
  have "\<exists>mu. (if ack_status a \<in> {Accepted, Filled} then mirror_mutation_for (sc_command x) a else returnS None) s = (Inr mu, s) \<and>
      apply_mutation mu (mirrors (st_runtime s)) = ack_mirrors (sc_command x) a (mirrors (st_runtime s))"
  proof (cases "ack_status a \<in> {Accepted, Filled}")
    case True
    then show ?thesis using mirror_mutation_ok[OF True _ assms(2), of "sc_command x"] assms(6) by auto
  next
    case False
    then have "ack_status a = Rejected" using assms(5) by (cases "ack_status a") auto
    then show ?thesis by (simp add: ack_mirrors_def apply_mutation_def)
  qed
  then obtain mu where mu: "(if ack_status a \<in> {Accepted, Filled} then mirror_mutation_for (sc_command x) a else returnS None) s = (Inr mu, s)"
      "apply_mutation mu (mirrors (st_runtime s)) = ack_mirrors (sc_command x) a (mirrors (st_runtime s))"
    by blast
  have no_id: "\<not> (ack_status a \<in> {Accepted, Filled} \<and> cmd_action (sc_command x) = Open \<and> ack_external_id a = None)"
    using assms(6) by auto
  obtain t where t: "log_apply env (AckApplied a mu) s = (Inr (), t)" "logs (AckApplied a mu) True s t"
    by (rule log_apply_reliable[OF assms(1)])
  define m where "m = (if ack_status a \<in> {Accepted, Filled} then mirror_mutation_for (sc_command x) a else returnS None)"
  have "handle_ack env a s = bindS m (\<lambda>mirror. log_apply env (AckApplied a mirror)) s"
    using assms(3,4,5) no_id by (auto simp: handle_ack_def m_def)
  also have "\<dots> = (Inr (), t)" using mu(1) t(1) unfolding m_def[symmetric] by (simp add: bindS_def)
  finally show thesis
    using t(2) assms(5) mu(2) by (intro that[of t mu]) (simp_all add: logs_def)
qed

text \<open>
  Which handlers return, proved along their structure: \<open>returns_or F m\<close> says that \<open>m\<close> ends with a result, an
  error or one of the faults \<open>F\<close>. A handler that only may wait for ever, or not even that, does not panic.
\<close>

definition returns_or :: "'e fault set \<Rightarrow> ('s, 'e fault, 'a) handler \<Rightarrow> bool" where
  "returns_or F m \<longleftrightarrow> (\<forall>s f. fst (m s) = Inl f \<longrightarrow> f \<in> F \<or> (\<exists>e. f = Raised e))"

named_theorems returns_intros \<open>handlers that return\<close>

lemma returns_basic [returns_intros]:
  "returns_or F (returnS x)" "returns_or F (getS f)" "returns_or F (modifyS g)" "returns_or F (failS (Raised e))"
  by (auto simp: returns_or_def)

lemma returns_calls [returns_intros]:
  "returns_or F (unix_time_ns env)" "returns_or F (stored_values env)" "returns_or F (register_session a tx)"
  "returns_or F (append_record env r)" "returns_or F (apply_record r)"
  by (auto simp: returns_or_def unix_time_ns_def stored_values_def register_session_def append_record_def
      apply_record_def mapE_def Let_def split: sum.splits prod.splits)

lemma returns_send [returns_intros]: "returns_or {Stuck} (send_frame env session frame)"
  by (auto simp: returns_or_def send_frame_def split: send_outcome.splits)

lemma returns_bindS [returns_intros]:
  "returns_or F m \<Longrightarrow> (\<And>x. returns_or F (f x)) \<Longrightarrow> returns_or F (bindS m f)"
  unfolding returns_or_def bindS_def by (auto split: sum.splits prod.splits) (metis fst_conv)+

lemma returns_if [returns_intros]:
  "(b \<Longrightarrow> returns_or F m) \<Longrightarrow> (\<not> b \<Longrightarrow> returns_or F n) \<Longrightarrow> returns_or F (if b then m else n)"
  by simp

lemma returns_option [returns_intros]:
  "returns_or F m \<Longrightarrow> (\<And>x. returns_or F (f x)) \<Longrightarrow> returns_or F (case y of None \<Rightarrow> m | Some x \<Rightarrow> f x)"
  by (cases y) simp_all

lemma returns_eachS [returns_intros]: "(\<And>x. returns_or F (f x)) \<Longrightarrow> returns_or F (eachS f xs)"
  by (induction xs) (auto intro!: returns_intros)

lemma returns_log_apply [returns_intros]: "returns_or F (log_apply env r)"
  unfolding log_apply_def by (intro returns_intros)

lemma returns_mark_unknown [returns_intros]: "returns_or F (mark_unknown env i reason)"
  unfolding mark_unknown_def by (intro returns_intros)

lemma returns_dispatch [returns_intros]: "returns_or {Stuck} (dispatch_if_connected env c)"
  unfolding dispatch_if_connected_def by (intro returns_intros)

lemma returns_dispatch_queued [returns_intros]: "returns_or {Stuck} (dispatch_queued_for env a)"
  unfolding dispatch_queued_for_def by (intro returns_intros)

lemma returns_unregister [returns_intros]: "returns_or F (unregister_session env a sid)"
  unfolding unregister_session_def by (intro returns_intros)

lemma returns_mirror_mutation:
  "\<not> (cmd_action c = Open \<and> ack_external_id a = None) \<Longrightarrow> returns_or F (mirror_mutation_for c a)"
  by (auto simp: mirror_mutation_for_def intro!: returns_intros split: trade_action.split option.split)

lemma returns_ack [returns_intros]: "returns_or F (handle_ack env a)"
  unfolding handle_ack_def by (intro returns_intros returns_mirror_mutation) auto

lemma returns_always: "returns_or {} m \<Longrightarrow> fst (m s) \<noteq> Inl (Panicked p) \<and> fst (m s) \<noteq> Inl Stuck"
  unfolding returns_or_def by blast

text \<open>A task that panicked or waits for ever: the rest of it, and so its clean-up, never runs.\<close>

definition left_behind :: "'e fault + 'a \<Rightarrow> bool" where
  "left_behind r \<longleftrightarrow> r = Inl Stuck \<or> (\<exists>p. r = Inl (Panicked p))"

lemma left_behind_simps [simp]:
  "left_behind (Inl Stuck)" "left_behind (Inl (Panicked p))" "\<not> left_behind (Inl (Raised e))" "\<not> left_behind (Inr x)"
  by (simp_all add: left_behind_def)

lemma left_behind_mapE [simp]: "left_behind (mapE (map_fault g) r) = left_behind r"
proof (cases r)
  case (Inl f)
  then show ?thesis by (cases f) simp_all
qed simp

lemma not_left_behind: "returns_or {} m \<Longrightarrow> \<not> left_behind (fst (m s))"
  using returns_always[of m s] by (auto simp: left_behind_def)

section \<open>Marking and dispatching many\<close>

text \<open>The commands of a store after each id of a list was moved to a state.\<close>

lemma fold_set_state:
  "fold (set_stored_state st) ids m k =
    (if k \<in> set ids then map_option (\<lambda>x. x\<lparr>sc_state := st\<rparr>) (m k) else m k)"
  by (induction ids arbitrary: m) (auto simp: set_stored_state_apply option.map_comp o_def)

lemma mark_all_reliable:
  assumes "reliable_disk env"
  obtains t where "eachS (\<lambda>i. mark_unknown env i reason) ids s = (Inr (), t)" "same_frame s t"
    "st_sent t = st_sent s"
    "st_runtime t = (st_runtime s)\<lparr>commands := fold (set_stored_state UnknownOutcome) ids (commands (st_runtime s))\<rparr>"
proof -
  have "\<exists>t. eachS (\<lambda>i. mark_unknown env i reason) ids s = (Inr (), t) \<and> same_frame s t \<and> st_sent t = st_sent s \<and>
      st_runtime t = (st_runtime s)\<lparr>commands := fold (set_stored_state UnknownOutcome) ids (commands (st_runtime s))\<rparr>"
  proof (induction ids arbitrary: s)
    case (Cons i ids)
    obtain u ts where u: "mark_unknown env i reason s = (Inr (), u)" "logs (CommandUnknown i ts reason) True s u"
      by (rule mark_unknown_reliable[OF assms])
    obtain t where t: "eachS (\<lambda>i. mark_unknown env i reason) ids u = (Inr (), t)" "same_frame u t"
      "st_sent t = st_sent u"
      "st_runtime t = (st_runtime u)\<lparr>commands := fold (set_stored_state UnknownOutcome) ids (commands (st_runtime u))\<rparr>"
      using Cons.IH by blast
    then show ?case using u by (auto simp: logs_def intro: same_frame_trans)
  qed simp
  then show thesis using that by blast
qed

definition covers :: "environment \<Rightarrow> app_state \<Rightarrow> bool" where
  "covers env s \<longleftrightarrow> (\<forall>n. dom (commands (st_runtime s)) \<subseteq> set (env_keys env n))"

lemma disconnect_reliable:
  assumes "reliable_disk env" "covers env s" "commands_filed (commands (st_runtime s))"
    and "st_sessions s a = Some session"
  obtains t where "unregister_session env a (sess_id session) s = (Inr (), t)"
    "st_sessions t = (st_sessions s)(a := None)" "st_sent t = st_sent s"
    "st_runtime t = (st_runtime s)\<lparr>commands := (\<lambda>i. map_option (\<lambda>x.
       if sc_state x = Dispatched \<and> cmd_target_account_id (sc_command x) = a
       then x\<lparr>sc_state := UnknownOutcome\<rparr> else x) (commands (st_runtime s) i))\<rparr>"
proof -
  let ?u = "called (s\<lparr>st_sessions := (st_sessions s)(a := None)\<rparr>)"
  define xs where "xs = filter (\<lambda>x. sc_state x = Dispatched \<and> cmd_target_account_id (sc_command x) = a)
      (values_in (env_keys env (st_calls s)) (commands (st_runtime s)))"
  define ids where "ids = map (\<lambda>x. cmd_command_id (sc_command x)) xs"
  obtain t where t: "eachS (\<lambda>i. mark_unknown env i ''connection lost before terminal acknowledgement'') ids ?u = (Inr (), t)"
    "same_frame ?u t" "st_sent t = st_sent ?u"
    "st_runtime t = (st_runtime ?u)\<lparr>commands := fold (set_stored_state UnknownOutcome) ids (commands (st_runtime ?u))\<rparr>"
    by (rule mark_all_reliable[OF assms(1)])
  have "unregister_session env a (sess_id session) s = (Inr (), t)"
    using assms(4) t(1) by (simp add: unregister_session_def ids_def xs_def)
  moreover have ids: "k \<in> set ids \<longleftrightarrow> (\<exists>x. commands (st_runtime s) k = Some x \<and> sc_state x = Dispatched \<and>
      cmd_target_account_id (sc_command x) = a)" for k
  proof -
    have "dom (commands (st_runtime s)) \<subseteq> set (env_keys env (st_calls s))" using assms(2) by (simp add: covers_def)
    from values_in_set[OF this] show ?thesis
      using assms(3) by (force simp: ids_def xs_def commands_filed_def)
  qed
  have "fold (set_stored_state UnknownOutcome) ids (commands (st_runtime s)) k = map_option (\<lambda>x.
       if sc_state x = Dispatched \<and> cmd_target_account_id (sc_command x) = a
       then x\<lparr>sc_state := UnknownOutcome\<rparr> else x) (commands (st_runtime s) k)" for k
    using ids[of k] by (cases "commands (st_runtime s) k") (auto simp: fold_set_state)
  then have "fold (set_stored_state UnknownOutcome) ids (commands (st_runtime s)) = (\<lambda>i. map_option (\<lambda>x.
       if sc_state x = Dispatched \<and> cmd_target_account_id (sc_command x) = a
       then x\<lparr>sc_state := UnknownOutcome\<rparr> else x) (commands (st_runtime s) i))" by (rule ext)
  ultimately show thesis using t that by (auto simp: same_frame_def)
qed

text \<open>
  The channels of \<open>tokio::sync::mpsc\<close>, as documented: while the receiver is alive, a send finds room as long as
  fewer frames than the capacity were put in. If the receiver is alive but reads nothing, these are all that ever
  fit, and the next send waits for ever.
\<close>

definition capacity :: "app_state \<Rightarrow> nat" where
  "capacity s = unat (dc_queue_capacity (st_config s))"

definition channel_open :: "environment \<Rightarrow> nat \<Rightarrow> nat \<Rightarrow> bool" where
  "channel_open env cap tx \<longleftrightarrow> (\<forall>n k. k < cap \<longrightarrow> env_send env n tx k = Delivered)"

definition channel_unread :: "environment \<Rightarrow> nat \<Rightarrow> nat \<Rightarrow> bool" where
  "channel_unread env cap tx \<longleftrightarrow> (\<forall>n k. env_send env n tx k = (if k < cap then Delivered else NeverRoom))"

lemma unread_open: "channel_unread env cap tx \<Longrightarrow> channel_open env cap tx"
  by (simp add: channel_unread_def channel_open_def)

lemma put_in_called [simp]: "put_in tx (called s) = put_in tx s"
  by (simp add: put_in_def)

lemma dispatch_reliable:
  assumes "reliable_disk env" "channel_open env cap (sess_tx session)" "put_in (sess_tx session) s < cap"
    and "st_sessions s (cmd_target_account_id c) = Some session"
  obtains t where "dispatch_if_connected env c s = (Inr (), t)" "same_frame s t"
    "st_sent t = st_sent s @ [(sess_tx session, Command c)]"
    "st_runtime t = (st_runtime s)\<lparr>commands := set_stored_state Dispatched (cmd_command_id c) (commands (st_runtime s))\<rparr>"
proof -
  define ts where "ts = clock_ns (env_clock env (st_calls s))"
  obtain u where u: "log_apply env (CommandDispatched (cmd_command_id c) ts) (called s) = (Inr (), u)"
    "logs (CommandDispatched (cmd_command_id c) ts) True (called s) u"
    by (rule log_apply_reliable[OF assms(1)])
  have "put_in (sess_tx session) u < cap" using u(2) assms(3) by (simp add: logs_def put_in_def)
  then have "env_send env (st_calls u) (sess_tx session) (put_in (sess_tx session) u) = Delivered"
    using assms(2) by (simp add: channel_open_def)
  then have "dispatch_if_connected env c s =
      (Inr (), called (u\<lparr>st_sent := st_sent u @ [(sess_tx session, Command c)]\<rparr>))"
    using assms(4) u(1)
    by (simp add: dispatch_if_connected_def ts_def[symmetric] bindS_def[of "send_frame _ _ _"] send_frame_def)
  then show thesis
    by (rule that) (use u(2) in \<open>auto simp: logs_def same_frame_def\<close>)
qed

text \<open>A dispatch into a full channel nobody reads: the command is journaled as dispatched and never gets out.\<close>

lemma dispatch_hangs:
  assumes "reliable_disk env" "channel_unread env cap (sess_tx session)" "put_in (sess_tx session) s = cap"
    and "st_sessions s (cmd_target_account_id c) = Some session"
  obtains t where "dispatch_if_connected env c s = (Inl Stuck, t)" "same_frame s t" "st_sent t = st_sent s"
    "st_runtime t = (st_runtime s)\<lparr>commands := set_stored_state Dispatched (cmd_command_id c) (commands (st_runtime s))\<rparr>"
proof -
  define ts where "ts = clock_ns (env_clock env (st_calls s))"
  obtain u where u: "log_apply env (CommandDispatched (cmd_command_id c) ts) (called s) = (Inr (), u)"
    "logs (CommandDispatched (cmd_command_id c) ts) True (called s) u"
    by (rule log_apply_reliable[OF assms(1)])
  have "put_in (sess_tx session) u = cap" using u(2) assms(3) by (simp add: logs_def put_in_def)
  then have "dispatch_if_connected env c s = (Inl Stuck, called u)"
    using assms(2,4) u(1)
    by (simp add: dispatch_if_connected_def ts_def[symmetric] bindS_def[of "send_frame _ _ _"] send_frame_def
        channel_unread_def)
  then show thesis
    by (rule that) (use u(2) in \<open>auto simp: logs_def same_frame_def\<close>)
qed

lemma dispatch_all_reliable:
  assumes "reliable_disk env" "channel_open env cap (sess_tx session)" "st_sessions s a = Some session"
    and "\<forall>c \<in> set cs. cmd_target_account_id c = a" "put_in (sess_tx session) s + length cs \<le> cap"
  obtains t where "eachS (dispatch_if_connected env) cs s = (Inr (), t)" "same_frame s t"
    "st_sent t = st_sent s @ map (\<lambda>c. (sess_tx session, Command c)) cs"
    "st_runtime t = (st_runtime s)\<lparr>commands :=
       fold (set_stored_state Dispatched) (map cmd_command_id cs) (commands (st_runtime s))\<rparr>"
proof -
  have "\<exists>t. eachS (dispatch_if_connected env) cs s = (Inr (), t) \<and> same_frame s t \<and>
    st_sent t = st_sent s @ map (\<lambda>c. (sess_tx session, Command c)) cs \<and>
    st_runtime t = (st_runtime s)\<lparr>commands :=
       fold (set_stored_state Dispatched) (map cmd_command_id cs) (commands (st_runtime s))\<rparr>"
    using assms(3-5)
  proof (induction cs arbitrary: s)
    case (Cons c cs)
    have c: "st_sessions s (cmd_target_account_id c) = Some session" using Cons.prems by simp
    have room: "put_in (sess_tx session) s < cap" using Cons.prems(3) by simp
    obtain u where u: "dispatch_if_connected env c s = (Inr (), u)" "same_frame s u"
      "st_sent u = st_sent s @ [(sess_tx session, Command c)]"
      "st_runtime u = (st_runtime s)\<lparr>commands := set_stored_state Dispatched (cmd_command_id c) (commands (st_runtime s))\<rparr>"
      by (rule dispatch_reliable[OF assms(1,2) room c])
    have "st_sessions u a = Some session" using u(2) Cons.prems(1) by (simp add: same_frame_def)
    moreover have "put_in (sess_tx session) u + length cs \<le> cap" using Cons.prems(3) by (simp add: put_in_def u(3))
    ultimately obtain t where "eachS (dispatch_if_connected env) cs u = (Inr (), t)" "same_frame u t"
      "st_sent t = st_sent u @ map (\<lambda>c. (sess_tx session, Command c)) cs"
      "st_runtime t = (st_runtime u)\<lparr>commands :=
         fold (set_stored_state Dispatched) (map cmd_command_id cs) (commands (st_runtime u))\<rparr>"
      using Cons.IH[of u] Cons.prems(2) by auto
    then show ?case using u by (auto intro: same_frame_trans)
  qed simp
  then show thesis using that by blast
qed

lemma eachS_append: "eachS f (xs @ ys) = bindS (eachS f xs) (\<lambda>_. eachS f ys)"
  by (induction xs) (auto simp: bindS_def fun_eq_iff split: sum.split prod.split)

text \<open>More commands than the channel holds: as many as fit are sent, one more is marked, and the task hangs.\<close>

lemma dispatch_all_hangs:
  assumes "reliable_disk env" "channel_unread env cap (sess_tx session)" "st_sessions s a = Some session"
    and "\<forall>c \<in> set cs. cmd_target_account_id c = a"
    and "put_in (sess_tx session) s \<le> cap" "cap < put_in (sess_tx session) s + length cs"
  defines "room \<equiv> cap - put_in (sess_tx session) s"
  obtains t where "eachS (dispatch_if_connected env) cs s = (Inl Stuck, t)" "same_frame s t"
    "st_sent t = st_sent s @ map (\<lambda>c. (sess_tx session, Command c)) (take room cs)"
    "st_runtime t = (st_runtime s)\<lparr>commands :=
       fold (set_stored_state Dispatched) (map cmd_command_id (take (room + 1) cs)) (commands (st_runtime s))\<rparr>"
proof -
  have l: "room < length cs" using assms(5,6) by (simp add: room_def)
  have sub: "\<forall>c \<in> set (take room cs). cmd_target_account_id c = a" using assms(4) by (auto dest: in_set_takeD)
  have "put_in (sess_tx session) s + length (take room cs) \<le> cap" using assms(5) by (simp add: room_def)
  then obtain u where u: "eachS (dispatch_if_connected env) (take room cs) s = (Inr (), u)" "same_frame s u"
    "st_sent u = st_sent s @ map (\<lambda>c. (sess_tx session, Command c)) (take room cs)"
    "st_runtime u = (st_runtime s)\<lparr>commands :=
       fold (set_stored_state Dispatched) (map cmd_command_id (take room cs)) (commands (st_runtime s))\<rparr>"
    by (rule dispatch_all_reliable[OF assms(1) unread_open[OF assms(2)] assms(3) sub])
  have "put_in (sess_tx session) u = put_in (sess_tx session) s + length (take room cs)"
    by (simp add: put_in_def u(3) filter_map o_def)
  then have full: "put_in (sess_tx session) u = cap" using l assms(5) by (simp add: room_def)
  have "st_sessions u (cmd_target_account_id (cs ! room)) = Some session"
    using u(2) assms(3,4) l by (simp add: same_frame_def)
  then obtain t where t: "dispatch_if_connected env (cs ! room) u = (Inl Stuck, t)" "same_frame u t" "st_sent t = st_sent u"
    "st_runtime t = (st_runtime u)\<lparr>commands := set_stored_state Dispatched (cmd_command_id (cs ! room)) (commands (st_runtime u))\<rparr>"
    by (rule dispatch_hangs[OF assms(1,2) full])
  have "cs = take room cs @ cs ! room # drop (room + 1) cs" using l by (simp add: id_take_nth_drop)
  then have "eachS (dispatch_if_connected env) cs s =
      eachS (dispatch_if_connected env) (take room cs @ cs ! room # drop (room + 1) cs) s" by metis
  also have "\<dots> = (Inl Stuck, t)" using u(1) t(1) by (simp add: eachS_append)
  finally show thesis
    using t u l by (intro that[of t]) (auto intro: same_frame_trans simp: take_Suc_conv_app_nth)
qed

text \<open>The ids of the commands that are queued for an account.\<close>

definition queued_ids :: "app_state \<Rightarrow> string \<Rightarrow> string set" where
  "queued_ids s a = {i. \<exists>x. commands (st_runtime s) i = Some x \<and> sc_state x = Queued \<and>
     cmd_target_account_id (sc_command x) = a}"

text \<open>What \<open>dispatch_queued_for\<close> goes through: each command of the account that is queued, once.\<close>

lemma dispatch_queued_lists:
  assumes "covers env s" "commands_filed (commands (st_runtime s))"
  obtains cs where "dispatch_queued_for env a s = eachS (dispatch_if_connected env) cs (called s)"
    "distinct (map cmd_command_id cs)" "\<forall>c \<in> set cs. cmd_target_account_id c = a"
    "set cs = {sc_command x | i x. commands (st_runtime s) i = Some x \<and> sc_state x = Queued \<and>
       cmd_target_account_id (sc_command x) = a}"
    "set (map cmd_command_id cs) = queued_ids s a" "length cs = card (queued_ids s a)"
proof -
  define xs where "xs = filter (\<lambda>x. sc_state x = Queued \<and> cmd_target_account_id (sc_command x) = a)
      (values_in (env_keys env (st_calls s)) (commands (st_runtime s)))"
  define cs where "cs = map sc_command xs"
  have "dom (commands (st_runtime s)) \<subseteq> set (env_keys env (st_calls s))" using assms(1) by (simp add: covers_def)
  note mem = values_in_set[OF this]
  have set_cs: "set cs = {sc_command x | i x. commands (st_runtime s) i = Some x \<and> sc_state x = Queued \<and>
       cmd_target_account_id (sc_command x) = a}"
    by (auto simp: cs_def xs_def mem)
  have dist: "distinct (map cmd_command_id cs)"
    unfolding cs_def xs_def map_map o_def by (rule distinct_map_filter[OF values_in_ids_distinct[OF assms(2)]])
  have ids: "set (map cmd_command_id cs) = queued_ids s a"
    using assms(2) unfolding set_map set_cs queued_ids_def commands_filed_def by force
  have "length cs = card (queued_ids s a)"
    using distinct_card[OF dist] unfolding ids by simp
  then show thesis
    using dist set_cs ids by (intro that[of cs]) (auto simp: dispatch_queued_for_def cs_def xs_def)
qed

lemma dispatch_queued_reliable:
  assumes "reliable_disk env" "channel_open env cap (sess_tx session)" "covers env s"
    and "commands_filed (commands (st_runtime s))" "st_sessions s a = Some session"
    and "put_in (sess_tx session) s + card (queued_ids s a) \<le> cap"
  obtains t cs where "dispatch_queued_for env a s = (Inr (), t)" "same_frame s t"
    "st_sent t = st_sent s @ map (\<lambda>c. (sess_tx session, Command c)) cs" "distinct (map cmd_command_id cs)"
    "set cs = {sc_command x | i x. commands (st_runtime s) i = Some x \<and> sc_state x = Queued \<and>
       cmd_target_account_id (sc_command x) = a}"
    "st_runtime t = (st_runtime s)\<lparr>commands := (\<lambda>i. map_option (\<lambda>x.
       if sc_state x = Queued \<and> cmd_target_account_id (sc_command x) = a
       then x\<lparr>sc_state := Dispatched\<rparr> else x) (commands (st_runtime s) i))\<rparr>"
proof -
  obtain cs where cs: "dispatch_queued_for env a s = eachS (dispatch_if_connected env) cs (called s)"
    "distinct (map cmd_command_id cs)" "\<forall>c \<in> set cs. cmd_target_account_id c = a"
    "set cs = {sc_command x | i x. commands (st_runtime s) i = Some x \<and> sc_state x = Queued \<and>
       cmd_target_account_id (sc_command x) = a}"
    "set (map cmd_command_id cs) = queued_ids s a" "length cs = card (queued_ids s a)"
    by (rule dispatch_queued_lists[OF assms(3,4)])
  have "st_sessions (called s) a = Some session" "put_in (sess_tx session) (called s) + length cs \<le> cap"
    using assms(5,6) cs(6) by simp_all
  then obtain t where t: "eachS (dispatch_if_connected env) cs (called s) = (Inr (), t)" "same_frame (called s) t"
    "st_sent t = st_sent (called s) @ map (\<lambda>c. (sess_tx session, Command c)) cs"
    "st_runtime t = (st_runtime (called s))\<lparr>commands :=
       fold (set_stored_state Dispatched) (map cmd_command_id cs) (commands (st_runtime (called s)))\<rparr>"
    by (elim dispatch_all_reliable[OF assms(1,2) _ cs(3)])
  have "fold (set_stored_state Dispatched) (map cmd_command_id cs) (commands (st_runtime s)) k = map_option (\<lambda>x.
       if sc_state x = Queued \<and> cmd_target_account_id (sc_command x) = a
       then x\<lparr>sc_state := Dispatched\<rparr> else x) (commands (st_runtime s) k)" for k
    unfolding fold_set_state cs(5)
    by (cases "commands (st_runtime s) k") (auto simp: queued_ids_def)
  then have "fold (set_stored_state Dispatched) (map cmd_command_id cs) (commands (st_runtime s)) = (\<lambda>i. map_option (\<lambda>x.
       if sc_state x = Queued \<and> cmd_target_account_id (sc_command x) = a
       then x\<lparr>sc_state := Dispatched\<rparr> else x) (commands (st_runtime s) i))" by (rule ext)
  then show thesis using t cs(1,2,4) by (intro that[of t cs]) simp_all
qed

text \<open>Too many queued commands for a channel nobody reads.\<close>

lemma dispatch_queued_hangs:
  assumes "reliable_disk env" "channel_unread env cap (sess_tx session)" "covers env s"
    and "commands_filed (commands (st_runtime s))" "st_sessions s a = Some session"
    and "put_in (sess_tx session) s = 0" "cap < card (queued_ids s a)"
  obtains t where "dispatch_queued_for env a s = (Inl Stuck, t)" "same_frame s t"
    "\<exists>cs. st_sent t = st_sent s @ map (\<lambda>c. (sess_tx session, Command c)) cs \<and> length cs = cap"
    "card {i \<in> queued_ids s a. \<exists>x. commands (st_runtime t) i = Some x \<and> sc_state x = Dispatched} = cap + 1"
proof -
  obtain cs where cs: "dispatch_queued_for env a s = eachS (dispatch_if_connected env) cs (called s)"
    "distinct (map cmd_command_id cs)" "\<forall>c \<in> set cs. cmd_target_account_id c = a"
    "set (map cmd_command_id cs) = queued_ids s a" "length cs = card (queued_ids s a)"
    by (rule dispatch_queued_lists[OF assms(3,4)])
  have pre: "st_sessions (called s) a = Some session" "put_in (sess_tx session) (called s) = 0"
    using assms(5,6) by simp_all
  have len: "cap < length cs" using assms(7) cs(5) by simp
  obtain t where t: "eachS (dispatch_if_connected env) cs (called s) = (Inl Stuck, t)" "same_frame (called s) t"
    "st_sent t = st_sent (called s) @ map (\<lambda>c. (sess_tx session, Command c)) (take cap cs)"
    "st_runtime t = (st_runtime (called s))\<lparr>commands :=
       fold (set_stored_state Dispatched) (map cmd_command_id (take (cap + 1) cs)) (commands (st_runtime (called s)))\<rparr>"
    using dispatch_all_hangs[OF assms(1,2) pre(1) cs(3)] pre(2) len by (metis add_0 diff_zero le0)
  let ?ids = "set (map cmd_command_id (take (cap + 1) cs))"
  have sub: "?ids \<subseteq> queued_ids s a" unfolding cs(4)[symmetric] by (auto dest: in_set_takeD)
  have "{i \<in> queued_ids s a. \<exists>x. commands (st_runtime t) i = Some x \<and> sc_state x = Dispatched} = ?ids"
  proof (rule set_eqI)
    fix i
    have "\<exists>x. commands (st_runtime s) i = Some x \<and> sc_state x = Queued" if "i \<in> queued_ids s a" for i
      using that by (auto simp: queued_ids_def)
    then have marked: "\<exists>x. (\<exists>z. commands (st_runtime s) i = Some z \<and> z\<lparr>sc_state := Dispatched\<rparr> = x) \<and>
        sc_state x = Dispatched" if "i \<in> queued_ids s a" for i
      using that by fastforce
    have unmarked: "\<not> (\<exists>x. commands (st_runtime s) i = Some x \<and> sc_state x = Dispatched)" if "i \<in> queued_ids s a" for i
      using that by (auto simp: queued_ids_def)
    show "i \<in> {i \<in> queued_ids s a. \<exists>x. commands (st_runtime t) i = Some x \<and> sc_state x = Dispatched} \<longleftrightarrow> i \<in> ?ids"
      using sub marked[of i] unmarked[of i] by (auto simp: t(4) fold_set_state simp del: set_map)
  qed
  moreover have "card ?ids = cap + 1"
  proof -
    have "distinct (map cmd_command_id (take (cap + 1) cs))" using cs(2) by (metis distinct_take take_map)
    then show ?thesis using len by (simp add: distinct_card del: set_map)
  qed
  ultimately show thesis
    using t cs(1) len by (intro that[of t]) (auto intro!: exI[of _ "take cap cs"])
qed

section \<open>The life of a copied position\<close>

lemma command_key_of_build:
  assumes "build_command sha e r m now = Inr (Some c)"
  shows "command_key c = binding_key_of (ev_source_account_id e) (ev_source_order_id e) (rr_target_account_id r)"
  using build_command_ids[OF assms] by (simp add: command_key_def)

text \<open>After the acknowledgement of an opening, the route's mirror is the binding it created.\<close>

lemma acked_open_mirror:
  assumes "reliable_disk env" "mirrors_filed (mirrors (st_runtime s))"
    and "commands (st_runtime s) (ack_command_id a) = Some x"
    and "build_command sha e r m now = Inr (Some (sc_command x))" "ev_action e = Open"
    and "ack_account_id a = rr_target_account_id r" "ack_status a \<in> {Accepted, Filled}"
    and "ack_external_id a = Some i"
    and "ev_source_account_id e' = ev_source_account_id e" "ev_source_order_id e' = ev_source_order_id e"
  obtains t where "handle_ack env a s = (Inr (), t)"
    "route_mirror e' t r = Some (opened_binding (sc_command x) i)"
proof -
  note ids = build_command_ids[OF assms(4)]
  have tgt: "cmd_target_account_id (sc_command x) = ack_account_id a" using ids assms(6) by simp
  have st: "ack_status a \<noteq> Unknown" "ack_status a \<noteq> Rejected" using assms(7) by auto
  obtain t mu where t: "handle_ack env a s = (Inr (), t)"
    "st_runtime t = (st_runtime s)\<lparr>commands := (commands (st_runtime s))(ack_command_id a := None),
       mirrors := ack_mirrors (sc_command x) a (mirrors (st_runtime s))\<rparr>"
    by (rule terminal_ack[OF assms(1-3) tgt st(1)]) (use assms(8) in auto)
  have "cmd_action (sc_command x) = Open" using ids assms(5) by simp
  then have "route_mirror e' t r = Some (opened_binding (sc_command x) i)"
    using st assms(8-10) command_key_of_build[OF assms(4)] by (simp add: route_mirror_def t(2) ack_mirrors_def)
  with t(1) show thesis by (rule that)
qed

section \<open>Authorisation\<close>

lemma event_effect:
  assumes "snd (handle_event env e s) \<noteq> s" "snd (handle_event env e s) \<noteq> called s"
  obtains account where "config_account (st_config s) (ev_source_account_id e) = Some account"
    "can_publish (ac_role account)" "ev_origin_command_id e = None \<or> ac_allow_rebroadcast account"
    "ev_event_id e \<notin> seen_events (st_runtime s)"
proof (cases "config_account (st_config s) (ev_source_account_id e)")
  case None
  then show ?thesis using assms by (simp add: handle_event_def)
next
  case (Some account)
  then show ?thesis
    using assms that[of account] by (auto simp: handle_event_def split: if_splits)
qed

lemma ack_effect:
  assumes "snd (handle_ack env a s) \<noteq> s"
  obtains x where "commands (st_runtime s) (ack_command_id a) = Some x"
    "cmd_target_account_id (sc_command x) = ack_account_id a"
proof (cases "commands (st_runtime s) (ack_command_id a)")
  case None
  then show ?thesis using assms by (simp add: handle_ack_def)
next
  case (Some x)
  then show ?thesis using assms that[of x] by (auto simp: handle_ack_def split: if_splits)
qed

text \<open>An event that was handled to the end stays seen.\<close>

interpretation seen_stays: logged_property env "\<lambda>s. i \<in> seen_events (st_runtime s)" for env i
proof
  show "keeps (\<lambda>s. i \<in> seen_events (st_runtime s)) (log_apply env r)" for r
    unfolding keeps_def using logs_seen[OF log_apply_logs[OF surjective_pairing]] by blast
qed simp_all

lemma handled_is_seen:
  assumes "handle_event env e s = (Inr (), t)"
    and "config_account (st_config s) (ev_source_account_id e) = Some account"
    and "ev_origin_command_id e = None \<or> ac_allow_rebroadcast account"
  shows "ev_event_id e \<in> seen_events (st_runtime t)"
proof (cases "ev_event_id e \<in> seen_events (st_runtime s)")
  case True
  then show ?thesis
    using keepsD[OF seen_stays.keeps_handle_event, of "ev_event_id e" s env e] assms(1) by simp
next
  case False
  note nseen = False
  show ?thesis
  proof (cases "can_publish (ac_role account)")
    case False
    then show ?thesis using assms by (simp add: handle_event_def)
  next
    case True
    define ts where "ts = clock_ns (env_clock env (st_calls s))"
    define rs where "rs = routes_for (st_engine s) (ev_source_account_id e)"
    have step: "handle_event env e s = bindS (plan_routes env e ts rs) (\<lambda>planned.
        bindS (log_apply env (EventPlanned (ev_event_id e) planned)) (\<lambda>_.
        eachS (dispatch_if_connected env) planned)) (called s)"
      using True assms(2,3) nseen by (auto simp: handle_event_def ts_def rs_def)
    obtain planned where p: "plan_routes env e ts rs (called s) = (Inr planned, called s)"
    proof (cases "plan_routes env e ts rs (called s)")
      case (Pair p u)
      then show ?thesis
        using assms(1) step that plan_routes_state[of env e ts rs "called s"] by (cases p) auto
    qed
    obtain r1 u where l: "log_apply env (EventPlanned (ev_event_id e) planned) (called s) = (r1, u)"
      by (cases "log_apply env (EventPlanned (ev_event_id e) planned) (called s)")
    have "(case r1 of Inl f \<Rightarrow> (Inl f, u) | Inr y \<Rightarrow> eachS (dispatch_if_connected env) planned u) = (Inr (), t)"
      using assms(1) unfolding step bindS_def p by (simp add: l)
    then have ok: "succeeds r1" "eachS (dispatch_if_connected env) planned u = (Inr (), t)"
      by (simp_all add: succeeds_def split: sum.splits)
    have u: "ev_event_id e \<in> seen_events (st_runtime u)"
      using log_apply_logs[OF l] ok(1) by (simp add: logs_def)
    have "keeps (\<lambda>s. ev_event_id e \<in> seen_events (st_runtime s)) (eachS (dispatch_if_connected env) planned)"
      by (rule keeps_eachS) (rule seen_stays.keeps_dispatch)
    from keepsD[OF this, OF u] show ?thesis by (simp only: ok(2) snd_conv)
  qed
qed

section \<open>Properties\<close>

text \<open>A follower with one command in a given state, an environment where nothing fails, and its fill.\<close>

definition calm_env :: environment where
  "calm_env = test_env\<lparr>env_enc := (\<lambda>_. Some ''x'')\<rparr>"

definition with_command :: "stored_state \<Rightarrow> app_state" where
  "with_command st = test_connected\<lparr>st_runtime := \<lparr>seen_events = {''evt-1''},
     commands = Map.empty(cmd_command_id test_command \<mapsto> \<lparr>sc_command = test_command, sc_state = st\<rparr>),
     mirrors = Map.empty\<rparr>\<rparr>"

definition fill_ack :: execution_ack where
  "fill_ack = \<lparr>ack_command_id = cmd_command_id test_command, ack_account_id = ''follower'',
     ack_status = Filled, ack_external_id = Some ''900'', ack_timestamp_unix_ns = 3, ack_message = None\<rparr>"

lemma calm_env_ok: "reliable_disk calm_env" "channel_open calm_env cap tx"
  by (simp_all add: reliable_disk_def channel_open_def calm_env_def test_env_def)

lemma with_command_ok:
  "commands_filed (commands (st_runtime (with_command st)))" "covers calm_env (with_command st)"
  "mirrors_filed (mirrors (st_runtime (with_command st)))"
  "st_sessions (with_command st) ''follower'' = Some \<lparr>sess_id = 1, sess_tx = 7\<rparr>"
  "commands (st_runtime (with_command st)) (cmd_command_id test_command) =
     Some \<lparr>sc_command = test_command, sc_state = st\<rparr>"
  by (simp_all add: with_command_def commands_filed_def covers_def calm_env_def test_env_def
      mirrors_filed_def test_connected_def register_session_def test_start_def)

lemma with_command_room:
  "put_in 7 (with_command st) + card (queued_ids (with_command st) ''follower'') \<le> capacity (with_command st)"
proof -
  have "queued_ids (with_command st) ''follower'' \<subseteq> {cmd_command_id test_command}"
    by (auto simp: queued_ids_def with_command_def split: if_splits)
  then have "card (queued_ids (with_command st) ''follower'') \<le> 1" by (metis card_mono card.empty card_insert_if finite.emptyI finite.insertI One_nat_def empty_iff)
  then show ?thesis
    by (simp add: put_in_def capacity_def with_command_def test_connected_def register_session_def test_start_def
        test_config_def default_queue_capacity_def)
qed

text \<open>
  C6. Nobody acts for somebody else. If a frame changes anything in the daemon's state beyond the count
  of its environment calls, then it is an event of the authenticated account itself, which is configured,
  may publish, is not feeding back a copied trade (unless it may rebroadcast) and was
  not seen before; or it is an acknowledgement by the authenticated account of a command that is
  addressed to it.
\<close>

theorem frame_authority:
  assumes "snd (handle_frame env p f s) \<noteq> s" "snd (handle_frame env p f s) \<noteq> called s"
  shows "(\<exists>e account. f = Event e \<and> ev_source_account_id e = p \<and>
      config_account (st_config s) p = Some account \<and> can_publish (ac_role account) \<and>
      (ev_origin_command_id e = None \<or> ac_allow_rebroadcast account) \<and>
      ev_event_id e \<notin> seen_events (st_runtime s)) \<or>
    (\<exists>a x. f = Ack a \<and> ack_account_id a = p \<and>
      commands (st_runtime s) (ack_command_id a) = Some x \<and> cmd_target_account_id (sc_command x) = p)"
proof (cases f)
  case (Event e)
  then have e: "ev_source_account_id e = p" "snd (handle_event env e s) \<noteq> s"
    "snd (handle_event env e s) \<noteq> called s"
    using assms by (auto simp: handle_frame_def split: if_splits)
  from event_effect[OF e(2,3)] show ?thesis using Event e(1) by metis
next
  case (Ack a)
  then have a: "ack_account_id a = p" "snd (handle_ack env a s) \<noteq> s"
    using assms by (auto simp: handle_frame_def split: if_splits)
  from ack_effect[OF a(2)] show ?thesis using Ack a(1) by metis
qed (use assms in \<open>simp_all add: handle_frame_def\<close>)

theorem frame_authority_witness:
  "\<exists>x. commands (st_runtime (with_command Dispatched)) (ack_command_id fill_ack) = Some x \<and>
     cmd_target_account_id (sc_command x) = ''follower''"
proof -
  let ?s = "with_command Dispatched"
  have f: "handle_frame calm_env ''follower'' (Ack fill_ack) ?s = handle_ack calm_env fill_ack ?s"
    by (simp add: handle_frame_def fill_ack_def)
  obtain t mu where t: "handle_ack calm_env fill_ack ?s = (Inr (), t)"
    "st_runtime t = (st_runtime ?s)\<lparr>commands := (commands (st_runtime ?s))(ack_command_id fill_ack := None),
       mirrors := ack_mirrors test_command fill_ack (mirrors (st_runtime ?s))\<rparr>"
    by (rule terminal_ack[OF calm_env_ok(1) with_command_ok(3), of Dispatched fill_ack "\<lparr>sc_command = test_command, sc_state = Dispatched\<rparr>"])
      (use with_command_ok(5)[of Dispatched] in \<open>auto simp: fill_ack_def\<close>)
  have "commands (st_runtime t) (ack_command_id fill_ack) \<noteq> commands (st_runtime ?s) (ack_command_id fill_ack)"
    using with_command_ok(5)[of Dispatched] by (simp add: t(2)) (simp add: fill_ack_def)
  then have "t \<noteq> ?s" "t \<noteq> called ?s" by auto
  then show ?thesis using frame_authority[of calm_env "''follower''" "Ack fill_ack" ?s] by (auto simp: f t(1))
qed

text \<open>
  C11. A duplicate is ignored. Once an event has been handled to the end (and was not
  suppressed as feedback), every later event with the same id, from any account and with any
  content, leaves the state of the daemon exactly as it is.
\<close>

theorem duplicate_events_ignored:
  assumes "handle_event env e s = (Inr (), t)"
    and "config_account (st_config s) (ev_source_account_id e) = Some account"
    and "ev_origin_command_id e = None \<or> ac_allow_rebroadcast account"
    and "ev_event_id e' = ev_event_id e"
  shows "snd (handle_event env' e' t) = t"
  using handled_is_seen[OF assms(1-3)] seen_again[of e' t env'] assms(4) by simp

theorem duplicate_events_ignored_witness:
  "snd (handle_event test_env opening_event test_opened) = test_opened"
proof (rule duplicate_events_ignored[where s = test_connected and env = test_env and e = opening_event])
  show "handle_event test_env opening_event test_connected = (Inr (), test_opened)"
    using test_opened_eq(5) by (metis prod.collapse test_opened_def)
  show "config_account (st_config test_connected) (ev_source_account_id opening_event) =
      Some (test_account ''master'' Master)"
    by (simp add: test_connected_def register_session_def test_start_def config_account_def test_config_def
        test_account_def)
qed simp_all

text \<open>
  C14. What a final acknowledgement does, exactly. When the disk works and the follower accepts, fills or
  rejects a command it was sent (an accepted opening with its order id), the command leaves the
  store for good, the other commands and the seen events stay, and the mirrors change as the action says:
  an opening files the new position, a reduction lowers the remaining volumes, a close
  removes the position, a modification or a rejection changes none.
\<close>

theorem terminal_ack_effect:
  assumes "reliable_disk env" "mirrors_filed (mirrors (st_runtime s))"
    and "commands (st_runtime s) (ack_command_id a) = Some x"
    and "cmd_target_account_id (sc_command x) = ack_account_id a"
    and "ack_status a \<noteq> Unknown"
    and "ack_status a = Rejected \<or> cmd_action (sc_command x) \<noteq> Open \<or> ack_external_id a \<noteq> None"
  shows "\<exists>t. handle_ack env a s = (Inr (), t) \<and> st_sent t = st_sent s \<and>
    st_runtime t = (st_runtime s)\<lparr>commands := (commands (st_runtime s))(ack_command_id a := None),
       mirrors := ack_mirrors (sc_command x) a (mirrors (st_runtime s))\<rparr>"
  by (rule terminal_ack[OF assms]) (auto simp: logs_def)

theorem terminal_ack_effect_witness:
  "\<exists>t. handle_ack calm_env fill_ack (with_command Dispatched) = (Inr (), t) \<and>
     commands (st_runtime t) (cmd_command_id test_command) = None"
proof -
  have "\<exists>t. handle_ack calm_env fill_ack (with_command Dispatched) = (Inr (), t) \<and>
      st_sent t = st_sent (with_command Dispatched) \<and>
      st_runtime t = (st_runtime (with_command Dispatched))\<lparr>
        commands := (commands (st_runtime (with_command Dispatched)))(ack_command_id fill_ack := None),
        mirrors := ack_mirrors (sc_command \<lparr>sc_command = test_command, sc_state = Dispatched\<rparr>) fill_ack
          (mirrors (st_runtime (with_command Dispatched)))\<rparr>"
    by (rule terminal_ack_effect)
      (use with_command_ok calm_env_ok in \<open>simp_all add: fill_ack_def\<close>)
  then show ?thesis by (auto simp: fill_ack_def)
qed

text \<open>
  An acknowledgement cannot bring the daemon down: whatever it says and whatever the state and the disk,
  handling it never panics; the order id the code expects is always there when it is taken. Nor does it wait
  for a channel: an acknowledgement sends nothing.
\<close>

theorem ack_cannot_panic: "\<not> left_behind (fst (handle_ack env a s))"
  by (rule not_left_behind) (rule returns_ack)

text \<open>
  C12. Disconnecting fails closed and is complete. When the current session of an account ends, every
  command that was dispatched to that account and not acknowledged becomes UNKNOWN, every other
  command keeps its state, nothing is sent, and the account has no session any more.
\<close>

theorem disconnect_marks_unknown:
  assumes "reliable_disk env" "covers env s" "commands_filed (commands (st_runtime s))"
    and "st_sessions s a = Some session"
  shows "\<exists>t. unregister_session env a (sess_id session) s = (Inr (), t) \<and>
    st_sessions t = (st_sessions s)(a := None) \<and> st_sent t = st_sent s \<and>
    st_runtime t = (st_runtime s)\<lparr>commands := (\<lambda>i. map_option (\<lambda>x.
       if sc_state x = Dispatched \<and> cmd_target_account_id (sc_command x) = a
       then x\<lparr>sc_state := UnknownOutcome\<rparr> else x) (commands (st_runtime s) i))\<rparr>"
  by (rule disconnect_reliable[OF assms]) auto

theorem disconnect_marks_unknown_witness:
  "\<exists>t. unregister_session calm_env ''follower'' 1 (with_command Dispatched) = (Inr (), t) \<and>
     commands (st_runtime t) (cmd_command_id test_command) =
       Some \<lparr>sc_command = test_command, sc_state = UnknownOutcome\<rparr>"
  using disconnect_marks_unknown[OF calm_env_ok(1) with_command_ok(2,1,4), of Dispatched]
    with_command_ok(5)[of Dispatched]
  by auto

text \<open>
  An old connection cannot take down a new one. Ending a session that is not the account's current
  one, because the account reconnected or is gone, changes nothing at all.
\<close>

theorem stale_disconnect_ignored:
  assumes "\<forall>session. st_sessions s a = Some session \<longrightarrow> sess_id session \<noteq> i"
  shows "unregister_session env a i s = (Inr (), s)"
  using assms by (cases "st_sessions s a") (simp_all add: unregister_session_def)

theorem stale_disconnect_ignored_witness:
  "unregister_session test_env ''follower'' 1 (snd (register_session ''follower'' 8 test_connected)) =
     (Inr (), snd (register_session ''follower'' 8 test_connected))"
  by (rule stale_disconnect_ignored)
    (simp add: test_connected_def register_session_def test_start_def)

text \<open>
  C13. Reconnecting delivers what fits. The channel of a session holds as many frames as the configuration says.
  When the disk works, the receiver is alive and the queued commands fit into what is left of the channel,
  dispatching to a connected account returns and sends every command queued for it, each exactly once and to
  the account's current session, and nothing else; afterwards none of them is queued, and all other commands
  are as they were. (What happens when they do not fit and nobody reads is \<open>dispatch_queued_hangs\<close>.)
\<close>

theorem connect_delivers_queued:
  assumes "reliable_disk env" "channel_open env (capacity s) (sess_tx session)" "covers env s"
    and "commands_filed (commands (st_runtime s))" "st_sessions s a = Some session"
    and "put_in (sess_tx session) s + card (queued_ids s a) \<le> capacity s"
  shows "\<exists>t cs. dispatch_queued_for env a s = (Inr (), t) \<and>
    st_sent t = st_sent s @ map (\<lambda>c. (sess_tx session, Command c)) cs \<and> distinct (map cmd_command_id cs) \<and>
    set cs = {sc_command x | i x. commands (st_runtime s) i = Some x \<and> sc_state x = Queued \<and>
       cmd_target_account_id (sc_command x) = a} \<and>
    st_runtime t = (st_runtime s)\<lparr>commands := (\<lambda>i. map_option (\<lambda>x.
       if sc_state x = Queued \<and> cmd_target_account_id (sc_command x) = a
       then x\<lparr>sc_state := Dispatched\<rparr> else x) (commands (st_runtime s) i))\<rparr>"
  by (rule dispatch_queued_reliable[OF assms]) blast

theorem connect_delivers_queued_witness:
  "\<exists>t cs. dispatch_queued_for calm_env ''follower'' (with_command Queued) = (Inr (), t) \<and>
     test_command \<in> set cs \<and> st_sent t = st_sent (with_command Queued) @ map (\<lambda>c. (7, Command c)) cs"
proof -
  obtain t cs where "dispatch_queued_for calm_env ''follower'' (with_command Queued) = (Inr (), t)"
    "st_sent t = st_sent (with_command Queued) @ map (\<lambda>c. (7, Command c)) cs"
    "set cs = {sc_command x | i x. commands (st_runtime (with_command Queued)) i = Some x \<and> sc_state x = Queued \<and>
       cmd_target_account_id (sc_command x) = ''follower''}"
    using connect_delivers_queued[OF calm_env_ok with_command_ok(2,1,4), of Queued] with_command_room[of Queued] by auto
  moreover have "test_command \<in> {sc_command x | i x. commands (st_runtime (with_command Queued)) i = Some x \<and>
      sc_state x = Queued \<and> cmd_target_account_id (sc_command x) = ''follower''}"
    using with_command_ok(5)[of Queued] by force
  ultimately show ?thesis by blast
qed

text \<open>
  C15. A copied position can be closed. If a follower acknowledged the opening of an event with its
  order id, then a later close of the same source order on the same route builds a command
  for exactly that order of the follower, with the whole volume that was opened there.
\<close>

theorem acknowledged_open_can_be_closed:
  assumes "reliable_disk env" "mirrors_filed (mirrors (st_runtime s))"
    and "commands (st_runtime s) (ack_command_id a) = Some x"
    and "build_command sha e r m now = Inr (Some (sc_command x))" "ev_action e = Open"
    and "ack_account_id a = rr_target_account_id r" "ack_status a \<in> {Accepted, Filled}"
    and "ack_external_id a = Some i"
    and "ev_action e' = Close" "ev_source_account_id e' = ev_source_account_id e"
    and "ev_source_order_id e' = ev_source_order_id e" "allows r e'" "\<not> stale r e' now'"
  shows "\<exists>t c. handle_ack env a s = (Inr (), t) \<and>
    build_command sha e' r (route_mirror e' t r) now' = Inr (Some c) \<and>
    cmd_target_order_id c = Some i \<and> cmd_volume c = cmd_volume (sc_command x)"
proof -
  obtain t where t: "handle_ack env a s = (Inr (), t)" "route_mirror e' t r = Some (opened_binding (sc_command x) i)"
    by (rule acked_open_mirror[OF assms(1-8) assms(10,11)])
  have tgt: "command_target e' r (Some (opened_binding (sc_command x) i)) = Inr (Some i, cmd_volume (sc_command x))"
    using assms(9) by (simp add: command_target_def require_mirror_def opened_binding_def)
  have "build_command sha e' r (route_mirror e' t r) now' =
      Inr (Some (make_command sha e' r (Some i) (cmd_volume (sc_command x)) now'))"
    unfolding t(2) build_command_Some using assms(9,12,13) tgt by auto
  then show ?thesis using t(1) by auto
qed

theorem acknowledged_open_can_be_closed_witness:
  "\<exists>t c. handle_ack calm_env fill_ack (with_command Dispatched) = (Inr (), t) \<and>
     build_command length_digest (test_event Close f64_zero) test_rule
       (route_mirror (test_event Close f64_zero) t test_rule) 4 = Inr (Some c) \<and>
     cmd_target_order_id c = Some ''900'' \<and> cmd_volume c = cmd_volume test_command"
  using acknowledged_open_can_be_closed[OF calm_env_ok(1) with_command_ok(3), where st1 = Dispatched and a = fill_ack
      and x = "\<lparr>sc_command = test_command, sc_state = Dispatched\<rparr>" and sha = length_digest
      and e = opening_event and r = test_rule and m = None and now = 2 and i = "''900''"
      and e' = "test_event Close f64_zero" and now' = 4]
    with_command_ok(5)[of Dispatched] opening_command test_rule_allows
  by (simp add: fill_ack_def) (simp add: opening_event_def test_event_def test_rule_def)

text \<open>
  C16. An event whose mirror is not ready is consumed. If a reduction, a modification or a close arrives
  before the follower acknowledged the opening, so that no route of it has a mirror, it is journaled as
  seen with no command, and every later delivery of the same event is ignored: the
  follower keeps a position the master has closed.
\<close>

theorem event_without_mirror_is_consumed:
  assumes "reliable_disk env"
    and "config_account (st_config s) (ev_source_account_id e) = Some account" "can_publish (ac_role account)"
    and "ev_origin_command_id e = None" "ev_event_id e \<notin> seen_events (st_runtime s)"
    and "ev_action e \<noteq> Open" "\<forall>r. route_mirror e s r = None"
  shows "\<exists>t. handle_event env e s = (Inr (), t) \<and> st_sent t = st_sent s \<and>
    st_runtime t = (st_runtime s)\<lparr>seen_events := insert (ev_event_id e) (seen_events (st_runtime s))\<rparr> \<and>
    (\<forall>e' env'. ev_event_id e' = ev_event_id e \<longrightarrow> snd (handle_event env' e' t) = t)"
proof -
  define ts where "ts = clock_ns (env_clock env (st_calls s))"
  define rs where "rs = routes_for (st_engine s) (ev_source_account_id e)"
  have mirror: "route_mirror e (called s) r = None" for r using assms(7) by (simp add: route_mirror_def)
  have build: "build_command sha e r None now = Inr None \<or>
      build_command sha e r None now = Inl (Raised (MissingMirror (rr_id r)))" for sha r now
    using assms(6) by (cases "ev_action e") (simp_all add: build_command_def command_target_def require_mirror_def)
  have p: "plan_routes env e ts rs (called s) = (Inr [], called s)"
  proof (induction rs)
    case (Cons r rs)
    then show ?case
      unfolding plan_routes_Cons mirror using build[of "env_sha env" r ts] by (elim disjE) simp_all
  qed simp
  obtain t where t: "log_apply env (EventPlanned (ev_event_id e) []) (called s) = (Inr (), t)"
    "logs (EventPlanned (ev_event_id e) []) True (called s) t"
    by (rule log_apply_reliable[OF assms(1)])
  have h: "handle_event env e s = (Inr (), t)"
    using assms(2-5) p t(1) by (simp add: handle_event_def ts_def[symmetric] rs_def[symmetric])
  have "st_runtime t = (st_runtime s)\<lparr>seen_events := insert (ev_event_id e) (seen_events (st_runtime s))\<rparr>"
    using t(2) by (simp add: logs_def)
  moreover have "snd (handle_event env' e' t) = t" if "ev_event_id e' = ev_event_id e" for e' env'
    using calculation that by (intro seen_again) simp
  ultimately show ?thesis using h t(2) by (auto simp: logs_def)
qed

theorem event_without_mirror_is_consumed_witness:
  "\<exists>t. handle_event calm_env (test_event Close f64_zero) test_connected = (Inr (), t) \<and> st_sent t = []"
proof -
  have acc: "config_account (st_config test_connected) ''master'' = Some (test_account ''master'' Master)"
    by (simp add: test_connected_def register_session_def test_start_def config_account_def test_config_def
        test_account_def)
  have st: "st_sent test_connected = []" "st_runtime test_connected = replay_default"
    by (simp_all add: test_connected_def register_session_def test_start_def)
  show ?thesis
    using event_without_mirror_is_consumed[OF calm_env_ok(1), of test_connected "test_event Close f64_zero"
        "test_account ''master'' Master"] acc
    by (auto simp: st test_event_def test_account_def replay_default_def route_mirror_def)
qed

end
