(* ===== verification/Server.thy ===== *)
theory Server
  imports Handlers
begin

text \<open>
  One connection of the TCP server, \<open>handle_connection\<close> of
  \<open>crates/copier-daemon/src/server.rs\<close>: the login, the session, the loop over the lines of the
  agent, the clean-up, and the task that writes the session's frames to the socket. What the socket
  delivers and accepts is a record of parameters. The theorems: nothing happens without credentials,
  a connection is a run of the operations of one account, and its session never outlives it.
\<close>

section \<open>A connection\<close>

text \<open>
  What \<open>read_line\<close> returns: a line with its line end, or an error of the socket or the encoding.
  The end of the list is the end of the stream.
\<close>

datatype line_read = LineRead string | ReadFailed

text \<open>
  \<open>cn_welcome\<close> says whether the welcome was written in full; if not, its first \<open>cn_cut\<close> bytes were.
\<close>

record connection =
  cn_nodelay :: bool
  cn_reads :: "line_read list"
  cn_clock :: "nat option"
  cn_welcome :: bool
  cn_cut :: nat
  cn_tx :: nat

datatype connection_error =
    SocketFailed
  | BadFirstLine wire_error
  | FirstNotHello
  | UnknownHello string
  | ManagedInternally string
  | LoginRefused runtime_error
  | HandlerFailed runtime_error

text \<open>From the first line to the return of \<open>authenticate\<close>.\<close>

definition accept_hello ::
    "environment \<Rightarrow> daemon_config \<Rightarrow> string \<Rightarrow> connection_error + hello_frame" where
  "accept_hello env cfg first =
    bindE (mapE BadFirstLine (parse_agent_line first)) (\<lambda>frame.
    bindE (case frame of Hello hello \<Rightarrow> Inr hello | _ \<Rightarrow> Inl FirstNotHello) (\<lambda>hello.
    bindE (of_opt (UnknownHello (hello_account_id hello)) (config_account cfg (hello_account_id hello)))
      (\<lambda>account.
      if ac_backend account \<noteq> Agent then Inl (ManagedInternally (hello_account_id hello))
      else bindE (mapE LoginRefused
          (authenticate env cfg (hello_account_id hello) (hello_platform hello) (hello_token hello)))
        (\<lambda>_. Inr hello))))"

text \<open>The loop over the lines: an invalid frame is skipped, an error of a handler ends the loop.\<close>

fun serve_frames :: "environment \<Rightarrow> string \<Rightarrow> line_read list \<Rightarrow> (app_state, connection_error fault, unit) handler" where
  "serve_frames env account_id [] = returnS ()"
| "serve_frames env account_id (ReadFailed # _) = failS (Raised SocketFailed)"
| "serve_frames env account_id (LineRead line # rest) =
    (case parse_agent_line line of
       Inl _ \<Rightarrow> serve_frames env account_id rest
     | Inr frame \<Rightarrow>
         bindS (failing (map_fault HandlerFailed) (handle_frame env account_id frame)) (\<lambda>_.
         serve_frames env account_id rest))"

text \<open>
  The session: it is registered, the queued commands are dispatched and the lines are read; then it is
  unregistered, also after an error. A panic unwinds the task, and a send that never finds room keeps it for
  ever, so in these cases the clean-up does not run.
\<close>

definition serve_session :: "environment \<Rightarrow> string \<Rightarrow> nat \<Rightarrow> line_read list \<Rightarrow> (app_state, connection_error fault, unit) handler" where
  "serve_session env account_id tx reads =
    bindS (failing (map_fault HandlerFailed) (register_session account_id tx)) (\<lambda>session_id s.
      case bindS (failing (map_fault HandlerFailed) (dispatch_queued_for env account_id))
          (\<lambda>_. serve_frames env account_id reads) s of
        (Inl (Panicked p), t) \<Rightarrow> (Inl (Panicked p), t)
      | (Inl Stuck, t) \<Rightarrow> (Inl Stuck, t)
      | (connection_result, t) \<Rightarrow>
          (case failing (map_fault HandlerFailed) (unregister_session env account_id session_id) t of
             (cleanup_result, u) \<Rightarrow> (bindE connection_result (\<lambda>_. cleanup_result), u)))"

text \<open>The result, what the connection task wrote to the socket itself, and the state.\<close>

definition handle_connection :: "environment \<Rightarrow> connection \<Rightarrow> app_state \<Rightarrow>
    (connection_error fault + unit) \<times> string \<times> app_state" where
  "handle_connection env cn s =
    (if \<not> cn_nodelay cn then (Inl (Raised SocketFailed), [], s)
     else (case cn_reads cn of
         [] \<Rightarrow> (Inr (), [], s)
       | ReadFailed # _ \<Rightarrow> (Inl (Raised SocketFailed), [], s)
       | LineRead first # rest \<Rightarrow>
           (case accept_hello env (st_config s) first of
              Inl e \<Rightarrow> (Inl (Raised e), [], s)
            | Inr hello \<Rightarrow>
                if \<not> cn_welcome cn then (Inl (Raised SocketFailed),
                  take (cn_cut cn) (encode_server_frame (Welcome (clock_ns (cn_clock cn)))), s)
                else (case serve_session env (hello_account_id hello) (cn_tx cn) rest s of
                  (result, t) \<Rightarrow>
                    (result, encode_server_frame (Welcome (clock_ns (cn_clock cn))), t)))))"

text \<open>
  The writer task: the frames of the session's channel in order. \<open>wr n = None\<close> says that the n-th
  \<open>write_all\<close> wrote everything; \<open>Some k\<close> that it wrote only the first \<open>k\<close> bytes, because the
  socket failed or because the connection ended and aborted the task in the middle. Then the task ends.
\<close>

fun writer_task :: "(nat \<Rightarrow> nat option) \<Rightarrow> nat \<Rightarrow> server_frame list \<Rightarrow> string" where
  "writer_task wr n [] = []"
| "writer_task wr n (frame # rest) =
    (case wr n of
       None \<Rightarrow> encode_server_frame frame @ writer_task wr (n + 1) rest
     | Some k \<Rightarrow> take k (encode_server_frame frame))"

section \<open>The login\<close>

text \<open>The token an account must present.\<close>

definition presents_token :: "environment \<Rightarrow> account_config \<Rightarrow> string \<Rightarrow> bool" where
  "presents_token env account token \<longleftrightarrow>
     (case ac_token_env account of
        Some name \<Rightarrow> if trim_is_empty name then token = ac_token account
          else env_var env name = Some token \<and> token \<noteq> []
      | None \<Rightarrow> token = ac_token account)"

lemma read_secret_Inr [outcome_simps]:
  "read_secret var name = Inr value \<longleftrightarrow> var name = Some value \<and> value \<noteq> []"
  by (auto simp: read_secret_def outcome_simps)

lemma authenticate_Inr:
  "authenticate env cfg i platform token = Inr () \<longleftrightarrow>
     (\<exists>account. config_account cfg i = Some account \<and> ac_platform account = platform \<and>
        presents_token env account token)"
  by (auto simp: authenticate_def presents_token_def outcome_simps split: if_splits option.splits)

lemma hello_Inr [outcome_simps]:
  "(case frame of Hello hello \<Rightarrow> Inr hello | _ \<Rightarrow> Inl FirstNotHello) = Inr h \<longleftrightarrow> frame = Hello h"
  by (cases frame) auto

lemma map_fault_Panicked [simp]:
  "map_fault g e = Panicked p \<longleftrightarrow> e = Panicked p" "Panicked p = map_fault g e \<longleftrightarrow> e = Panicked p"
  "map_fault g e = Stuck \<longleftrightarrow> e = Stuck" "Stuck = map_fault g e \<longleftrightarrow> e = Stuck"
  by (cases e; auto)+

lemma accept_hello_Inr:
  "accept_hello env cfg first = Inr hello \<longleftrightarrow>
     parse_agent_line first = Inr (Hello hello) \<and>
     (\<exists>account. config_account cfg (hello_account_id hello) = Some account \<and> ac_backend account = Agent \<and>
        ac_platform account = hello_platform hello \<and> presents_token env account (hello_token hello))"
  by (auto simp: accept_hello_def outcome_simps authenticate_Inr split: if_splits)

lemma validated_token_nonempty:
  assumes "config_validate cfg = Inr ()" "config_account cfg i = Some account" "ac_backend account = Agent"
    and "presents_token env account token"
  shows "token \<noteq> []"
proof -
  have "backend_ok cfg account" using config_accountD[OF assms(2)] assms(1) by (simp add: config_validate_Inr)
  then show ?thesis
    using assms(3,4) by (auto simp: backend_ok_def presents_token_def split: option.splits if_splits)
qed

section \<open>A connection is a run of one account\<close>

fun op_account :: "operation \<Rightarrow> string option" where
  "op_account (Register a tx) = Some a"
| "op_account (DispatchQueued a) = Some a"
| "op_account (Frame a f) = Some a"
| "op_account (Unregister a i) = Some a"
| "op_account Restart = None"

lemma run_append:
  "\<forall>x \<in> set xs. op_account x \<noteq> None \<Longrightarrow> run env (xs @ ys) s = run env ys (run env xs s)"
proof (induction xs arbitrary: s)
  case (Cons x xs)
  then obtain t where "operate env x s = Some t" by (cases x) auto
  then show ?case using Cons by (simp add: run_def)
qed (simp add: run_def)

lemma run_one: "op_account x \<noteq> None \<Longrightarrow> run env [x] s = the (operate env x s)"
  by (cases x) (simp_all add: run_def)

lemma run_Cons:
  assumes "op_account x \<noteq> None" shows "run env (x # xs) s = run env xs (the (operate env x s))"
  using run_append[of "[x]" env xs s] run_one[OF assms, of env s] assms by simp

lemma serve_frames_run:
  "\<exists>ops. (\<forall>x \<in> set ops. op_account x = Some a) \<and> snd (serve_frames env a reads s) = run env ops s"
proof (induction reads arbitrary: s)
  case Nil
  show ?case by (intro exI[of _ "[]"]) (simp add: run_def)
next
  case (Cons r rest)
  show ?case
  proof (cases r)
    case ReadFailed
    then show ?thesis by (intro exI[of _ "[]"]) (simp add: run_def)
  next
    case (LineRead line)
    show ?thesis
    proof (cases "parse_agent_line line")
      case (Inl e)
      then show ?thesis using LineRead Cons by simp
    next
      case (Inr f)
      obtain res t where h: "handle_frame env a f s = (res, t)" by (cases "handle_frame env a f s")
      obtain ops where ops: "\<forall>x \<in> set ops. op_account x = Some a"
        "snd (serve_frames env a rest t) = run env ops t" using Cons by blast
      have one: "run env (Frame a f # xs) s = run env xs t" for xs using h by (simp add: run_Cons)
      show ?thesis
      proof (cases res)
        case (Inl e)
        have "snd (serve_frames env a (r # rest) s) = run env [Frame a f] s"
          using LineRead Inr h Inl one by (simp add: bindS_def failing_def run_def)
        then show ?thesis by (intro exI[of _ "[Frame a f]"]) simp
      next
        case inr: (Inr u)
        have "snd (serve_frames env a (r # rest) s) = run env (Frame a f # ops) s"
          using LineRead Inr h inr one ops(2) by (simp add: bindS_def failing_def)
        then show ?thesis using ops(1) by (intro exI[of _ "Frame a f # ops"]) simp
      qed
    qed
  qed
qed

text \<open>The session between its registration and its clean-up.\<close>

definition session_body :: "environment \<Rightarrow> string \<Rightarrow> line_read list \<Rightarrow> (app_state, connection_error fault, unit) handler" where
  "session_body env a reads = bindS (failing (map_fault HandlerFailed) (dispatch_queued_for env a))
     (\<lambda>_. serve_frames env a reads)"

lemma session_body_run:
  "\<exists>ops. (\<forall>x \<in> set ops. op_account x = Some a) \<and> snd (session_body env a reads s) = run env ops s"
proof -
  obtain res t where d: "dispatch_queued_for env a s = (res, t)" by (cases "dispatch_queued_for env a s")
  obtain ops where ops: "\<forall>x \<in> set ops. op_account x = Some a"
    "snd (serve_frames env a reads t) = run env ops t" using serve_frames_run by blast
  have one: "run env (DispatchQueued a # xs) s = run env xs t" for xs using d by (simp add: run_Cons)
  show ?thesis
  proof (cases res)
    case (Inl e)
    have "snd (session_body env a reads s) = run env [DispatchQueued a] s"
      using d Inl one by (simp add: session_body_def bindS_def failing_def run_def)
    then show ?thesis by (intro exI[of _ "[DispatchQueued a]"]) simp
  next
    case (Inr u)
    have "snd (session_body env a reads s) = run env (DispatchQueued a # ops) s"
      using d Inr one ops(2) by (simp add: session_body_def bindS_def failing_def)
    then show ?thesis using ops(1) by (intro exI[of _ "DispatchQueued a # ops"]) simp
  qed
qed

text \<open>A session either is left behind in its body, by a panic or a send without end, or ends with the clean-up.\<close>

lemma serve_session_cases:
  assumes "serve_session env a tx reads s = (res, t)"
  obtains (left) "left_behind res"
      "session_body env a reads (snd (register_session a tx s)) = (res, t)"
  | (cleaned) r u where "\<not> left_behind res"
      "session_body env a reads (snd (register_session a tx s)) = (r, u)"
      "t = snd (unregister_session env a (st_next_session_id s) u)"
proof -
  obtain r u where b: "session_body env a reads (snd (register_session a tx s)) = (r, u)"
    by (cases "session_body env a reads (snd (register_session a tx s))")
  have e: "serve_session env a tx reads s = (case (r, u) of
        (Inl (Panicked p), t) \<Rightarrow> (Inl (Panicked p), t)
      | (Inl Stuck, t) \<Rightarrow> (Inl Stuck, t)
      | (connection_result, t) \<Rightarrow>
          (case failing (map_fault HandlerFailed) (unregister_session env a (st_next_session_id s)) t of
             (cleanup_result, u) \<Rightarrow> (bindE connection_result (\<lambda>_. cleanup_result), u)))"
    using b unfolding serve_session_def session_body_def
    by (simp add: bindS_def failing_def register_session_def Let_def)
  show ?thesis
  proof (cases "left_behind r")
    case True
    then have "res = r" "t = u" using e assms by (auto simp: left_behind_def)
    then show ?thesis using True b left by auto
  next
    case False
    have t: "t = snd (unregister_session env a (st_next_session_id s) u)"
      "res = bindE r (\<lambda>_. mapE (map_fault HandlerFailed) (fst (unregister_session env a (st_next_session_id s) u)))"
      using e assms False by (auto simp: failing_def split: sum.splits fault.splits prod.splits)
    have "\<not> left_behind (mapE (map_fault HandlerFailed) (fst (unregister_session env a (st_next_session_id s) u)))"
      using not_left_behind[OF returns_unregister] by simp
    then have "\<not> left_behind res"
      using t(2) False by (cases r) simp_all
    then show ?thesis using cleaned b t(1) by blast
  qed
qed

section \<open>Sessions\<close>

text \<open>Frames and dispatching leave the table of sessions alone.\<close>

lemma keeps_frame_steps:
  "keeps (same_frame s) (log_apply env r)" "keeps (same_frame s) (unix_time_ns env)"
  "keeps (same_frame s) (stored_values env)" "keeps (same_frame s) (send_frame env session frame)"
  "keeps (same_frame s) (mirror_mutation_for c a)" "keeps (same_frame s) (plan_routes env e now rs)"
  using logs_same_frame[OF log_apply_logs[OF surjective_pairing, where env = env and r = r]] same_frame_trans[of s]
  by (auto simp: keeps_def unix_time_ns_def stored_values_def send_frame_def
      mirror_mutation_state plan_routes_state split: send_outcome.split) (simp_all add: same_frame_def)

lemma keeps_frame_handlers:
  "keeps (same_frame s) (mark_unknown env i reason)" "keeps (same_frame s) (dispatch_if_connected env c)"
  "keeps (same_frame s) (dispatch_queued_for env a)" "keeps (same_frame s) (handle_frame env a frame)"
proof -
  show m: "keeps (same_frame s) (mark_unknown env i reason)" for i reason
    unfolding mark_unknown_def by (intro keeps_intros keeps_frame_steps)
  show d: "keeps (same_frame s) (dispatch_if_connected env c)" for c
    unfolding dispatch_if_connected_def by (intro keeps_intros keeps_frame_steps m)
  show "keeps (same_frame s) (dispatch_queued_for env a)"
    unfolding dispatch_queued_for_def by (intro keeps_intros keeps_frame_steps d)
  have "keeps (same_frame s) (handle_event env e)" for e
    unfolding handle_event_def by (intro keeps_intros keeps_frame_steps d)
  moreover have "keeps (same_frame s) (handle_ack env k)" for k
    unfolding handle_ack_def by (intro keeps_intros keeps_frame_steps m)
  ultimately show "keeps (same_frame s) (handle_frame env a frame)"
    unfolding handle_frame_def by (cases frame) (auto intro: keeps_intros)
qed

lemma keeps_serve_frames: "keeps (same_frame s) (serve_frames env a reads)"
proof (induction env a reads rule: serve_frames.induct)
  case (1 env a)
  show ?case unfolding serve_frames.simps by (rule keeps_returnS)
next
  case (2 env a rest)
  show ?case unfolding serve_frames.simps by (rule keeps_failS)
next
  case (3 env a line rest)
  then show ?case
    by (cases "parse_agent_line line") (auto intro: keeps_intros keeps_frame_handlers)
qed

lemma session_body_frame: "same_frame s (snd (session_body env a reads s))"
  using keepsD[of "same_frame s" "session_body env a reads" s]
  by (simp add: session_body_def keeps_intros keeps_frame_handlers keeps_serve_frames)

lemma unregister_sessions:
  "st_sessions (snd (unregister_session env a sid s)) =
     (case st_sessions s a of None \<Rightarrow> st_sessions s
      | Some x \<Rightarrow> if sess_id x = sid then (st_sessions s)(a := None) else st_sessions s)"
proof (cases "\<exists>x. st_sessions s a = Some x \<and> sess_id x = sid")
  case True
  define s1 where "s1 = s\<lparr>st_sessions := (st_sessions s)(a := None)\<rparr>"
  have u: "unregister_session env a sid s = bindS (stored_values env) (\<lambda>stored.
      eachS (\<lambda>i. mark_unknown env i ''connection lost before terminal acknowledgement'')
        (map (\<lambda>x. cmd_command_id (sc_command x)) (filter (\<lambda>x. sc_state x = Dispatched \<and>
           cmd_target_account_id (sc_command x) = a) stored))) s1"
    using True by (auto simp: unregister_session_def s1_def)
  have "same_frame s1 (snd (unregister_session env a sid s))"
    unfolding u by (rule keepsD) (intro keeps_intros keeps_frame_steps keeps_frame_handlers same_frame_refl)+
  then show ?thesis using True by (auto simp: same_frame_def s1_def)
qed (auto simp: unregister_session_def split: option.split)

section \<open>The whole connection\<close>

lemma register_session_eq: "register_session a tx s = (Inr (st_next_session_id s),
   s\<lparr>st_next_session_id := st_next_session_id s + 1,
     st_sessions := (st_sessions s)(a \<mapsto> \<lparr>sess_id = st_next_session_id s, sess_tx = tx\<rparr>)\<rparr>)"
  by (simp add: register_session_def Let_def)

text \<open>A connection does nothing, or it is the session of an account whose agent has logged in.\<close>

lemma handle_connection_cases:
  assumes "handle_connection env cn s = (r, out, t)"
  obtains (turned_away) "t = s" "out = []" "\<not> left_behind r"
  | (unwelcomed) first rest hello where "cn_reads cn = LineRead first # rest"
      "accept_hello env (st_config s) first = Inr hello" "t = s" "\<not> left_behind r"
  | (session) first rest hello where "cn_reads cn = LineRead first # rest"
      "accept_hello env (st_config s) first = Inr hello"
      "serve_session env (hello_account_id hello) (cn_tx cn) rest s = (r, t)"
      "out = encode_server_frame (Welcome (clock_ns (cn_clock cn)))"
proof (cases "cn_nodelay cn \<and> (\<exists>first rest. cn_reads cn = LineRead first # rest)")
  case False
  then show ?thesis
    using assms by (auto simp: handle_connection_def split: if_splits list.splits line_read.splits intro: turned_away)
next
  case True
  then obtain first rest where f: "cn_nodelay cn" "cn_reads cn = LineRead first # rest" by blast
  show ?thesis
  proof (cases "accept_hello env (st_config s) first")
    case (Inl e)
    then show ?thesis using assms f by (intro turned_away) (auto simp: handle_connection_def)
  next
    case (Inr hello)
    show ?thesis
    proof (cases "cn_welcome cn")
      case False
      then show ?thesis
        using assms f Inr by (intro unwelcomed[OF f(2) Inr]) (auto simp: handle_connection_def)
    next
      case True
      then show ?thesis
        using assms f Inr by (intro session[OF f(2) Inr]) (auto simp: handle_connection_def split: prod.splits)
    qed
  qed
qed

lemma serve_session_sessions:
  assumes "serve_session env a tx reads s = (r, t)"
  shows "st_sessions t = (st_sessions s)(a :=
    if left_behind r then Some \<lparr>sess_id = st_next_session_id s, sess_tx = tx\<rparr> else None)"
  using assms
proof (cases rule: serve_session_cases)
  case left
  then show ?thesis
    using session_body_frame[of "snd (register_session a tx s)" env a reads]
    by (simp add: register_session_eq same_frame_def)
next
  case (cleaned r' u)
  then show ?thesis
    using session_body_frame[of "snd (register_session a tx s)" env a reads]
    by (simp add: register_session_eq same_frame_def unregister_sessions)
qed

lemma serve_session_run:
  "\<exists>ops. (\<forall>x \<in> set ops. op_account x = Some a) \<and> snd (serve_session env a tx reads s) = run env ops s"
proof -
  obtain r t where e: "serve_session env a tx reads s = (r, t)" by (cases "serve_session env a tx reads s")
  obtain ops where ops: "\<forall>x \<in> set ops. op_account x = Some a"
    "snd (session_body env a reads (snd (register_session a tx s))) = run env ops (snd (register_session a tx s))"
    using session_body_run by blast
  have reg: "run env (Register a tx # xs) s = run env xs (snd (register_session a tx s))" for xs
    by (simp add: run_Cons)
  from e show ?thesis
  proof (cases rule: serve_session_cases)
    case left
    then have "snd (serve_session env a tx reads s) = run env (Register a tx # ops) s"
      using e ops(2) by (simp add: reg)
    then show ?thesis using ops(1) by (intro exI[of _ "Register a tx # ops"]) simp
  next
    case (cleaned r' u)
    let ?ops = "Register a tx # ops @ [Unregister a (st_next_session_id s)]"
    have "\<forall>x \<in> set ops. op_account x \<noteq> None" using ops(1) by auto
    then have "run env ?ops s = t"
      using cleaned ops(2) by (simp add: reg run_append run_one)
    then show ?thesis using e ops(1) by (intro exI[of _ ?ops]) simp
  qed
qed

section \<open>Properties\<close>

text \<open>
  The connections of the witnesses: an agent that only logs in, and one that logs in and
  reports the opening of a position, which a route with inverted limits turns into a panic.
\<close>

definition login :: "string \<Rightarrow> hello_frame" where
  "login i = \<lparr>hello_account_id = i, hello_platform = Mt5, hello_token = ''secret''\<rparr>"

definition login_line :: "string \<Rightarrow> line_read" where
  "login_line i = LineRead (encode_agent_frame (Hello (login i)))"

definition test_connection :: "line_read list \<Rightarrow> connection" where
  "test_connection reads = \<lparr>cn_nodelay = True, cn_reads = reads, cn_clock = Some 2, cn_welcome = True, cn_cut = 0, cn_tx = 7\<rparr>"

definition inverted_start :: app_state where
  "inverted_start = test_start\<lparr>st_engine := \<lparr>routes_by_source = Map.empty(''master'' \<mapsto> [inverted_rule])\<rparr>\<rparr>"

lemma login_parses:
  assumes "clean i" "i \<noteq> []"
  shows "parse_agent_line (encode_agent_frame (Hello (login i))) = Inr (Hello (login i))"
proof -
  have "clean ''secret''" by (simp add: clean_def separator_codes)
  then show ?thesis
    using assms parse_encode_agent[of "Hello (login i)"] by (simp add: login_def)
qed

lemma test_logins:
  "parse_agent_line (encode_agent_frame (Hello (login ''master''))) = Inr (Hello (login ''master''))"
  "parse_agent_line (encode_agent_frame (Hello (login ''follower''))) = Inr (Hello (login ''follower''))"
  by (rule login_parses; simp add: clean_def separator_codes)+

lemma test_accept:
  assumes "i = ''master'' \<or> i = ''follower''"
  shows "accept_hello test_env test_config (encode_agent_frame (Hello (login i))) = Inr (login i)"
  using assms test_logins
  by (auto simp: accept_hello_Inr login_def config_account_def test_config_def test_account_def presents_token_def)

lemma test_connects:
  assumes "st_config s = test_config" "i = ''master'' \<or> i = ''follower''"
    and "serve_session test_env i 7 reads s = (r, t)"
  shows "handle_connection test_env (test_connection (login_line i # reads)) s =
    (r, encode_server_frame (Welcome 2), t)"
  using test_accept[OF assms(2)] assms(1,3)
  by (simp add: handle_connection_def test_connection_def login_line_def login_def test_clock)

lemma opening_event_wire: "agent_frame_ok (Event opening_event)" "agent_frame_clean (Event opening_event)"
  by (simp_all add: opening_event_def test_event_def event_validate_Inr f64_eval clean_def separator_codes opt_text_ok_def)

lemma no_commands:
  assumes "commands (st_runtime s) = Map.empty"
  shows "dispatch_queued_for test_env a s = (Inr (), called s)"
    "st_sessions s a = Some \<lparr>sess_id = i, sess_tx = tx\<rparr> \<Longrightarrow>
       unregister_session test_env a i s = (Inr (), called (s\<lparr>st_sessions := (st_sessions s)(a := None)\<rparr>))"
  using assms
  by (simp_all add: dispatch_queued_for_def unregister_session_def values_in_def map_filter_def)

lemma test_idle_session:
  "serve_session test_env ''follower'' 7 [] test_start = (Inr (), test_start\<lparr>st_next_session_id := 2, st_calls := 2\<rparr>)"
proof -
  define s1 where "s1 = snd (register_session ''follower'' 7 test_start)"
  have s1: "commands (st_runtime s1) = Map.empty" "st_sessions s1 ''follower'' = Some \<lparr>sess_id = 1, sess_tx = 7\<rparr>"
    "st_next_session_id test_start = 1"
    by (simp_all add: s1_def register_session_eq test_start_def replay_default_def)
  have "session_body test_env ''follower'' [] s1 = (Inr (), called s1)"
    using no_commands(1)[OF s1(1)] by (simp add: session_body_def bindS_def failing_def)
  moreover have "unregister_session test_env ''follower'' 1 (called s1) =
      (Inr (), test_start\<lparr>st_next_session_id := 2, st_calls := 2\<rparr>)"
    using s1 no_commands(2)[of "called s1" "''follower''" 1 7]
    by (simp add: s1_def register_session_eq) (simp add: test_start_def called_def)
  ultimately show ?thesis
    unfolding serve_session_def session_body_def[symmetric]
    by (simp add: bindS_def failing_def register_session_eq s1_def s1(3))
qed

lemma inverted_session:
  "fst (serve_session test_env ''master'' 7 [LineRead (encode_agent_frame (Event opening_event))] inverted_start) =
     Inl (Panicked ''min > max, or either was NaN'')"
proof -
  define s1 where "s1 = snd (register_session ''master'' 7 inverted_start)"
  have s1: "commands (st_runtime s1) = Map.empty"
    by (simp add: s1_def register_session_eq inverted_start_def test_start_def replay_default_def)
  have wire: "parse_agent_line (encode_agent_frame (Event opening_event)) = Inr (Event opening_event)"
    using parse_encode_agent[OF opening_event_wire(1)] wire_agent_id[OF opening_event_wire(2)] by simp
  have plan: "plan_routes test_env opening_event 2 [inverted_rule] u = (Inl (Panicked ''min > max, or either was NaN''), u)" for u
    unfolding plan_routes_Cons by (simp add: opening_event_def inverted_rule_panics(2))
  have f: "config_account (st_config s1) ''master'' = Some (test_account ''master'' Master)"
    "can_publish (ac_role (test_account ''master'' Master))"
    "routes_for (st_engine s1) ''master'' = [inverted_rule]" "seen_events (st_runtime s1) = {}"
    by (simp_all add: s1_def register_session_eq inverted_start_def test_start_def config_account_def
        test_config_def test_account_def replay_default_def routes_for_def)
  have "handle_frame test_env ''master'' (Event opening_event) (called s1) =
      (Inl (Panicked ''min > max, or either was NaN''), called (called s1))"
    using plan f by (simp add: handle_frame_def handle_event_def test_clock del: plan_routes.simps)
  then have "session_body test_env ''master'' [LineRead (encode_agent_frame (Event opening_event))] s1 =
      (Inl (Panicked ''min > max, or either was NaN''), called (called s1))"
    using no_commands(1)[OF s1] wire by (simp add: session_body_def bindS_def failing_def)
  then show ?thesis
    unfolding serve_session_def session_body_def[symmetric]
    by (simp add: bindS_def failing_def register_session_eq s1_def)
qed

text \<open>
  C8. No credentials, no effect. With a validated configuration, a connection changes the state of the daemon
  or makes it answer only if its first line is the login of an account that agents attach to, on the
  right platform, presenting the account's token, which is not empty.
\<close>

theorem connection_needs_credentials:
  assumes "handle_connection env cn s = (r, out, t)" "config_validate (st_config s) = Inr ()"
    and "t \<noteq> s \<or> out \<noteq> []"
  shows "\<exists>first rest hello account. cn_reads cn = LineRead first # rest \<and>
    parse_agent_line first = Inr (Hello hello) \<and>
    config_account (st_config s) (hello_account_id hello) = Some account \<and> ac_backend account = Agent \<and>
    ac_platform account = hello_platform hello \<and> presents_token env account (hello_token hello) \<and>
    hello_token hello \<noteq> []"
  using assms(1)
proof (cases rule: handle_connection_cases)
  case turned_away
  then show ?thesis using assms(3) by simp
next
  case (session first rest hello)
  then obtain account where acc: "parse_agent_line first = Inr (Hello hello)"
    "config_account (st_config s) (hello_account_id hello) = Some account" "ac_backend account = Agent"
    "ac_platform account = hello_platform hello" "presents_token env account (hello_token hello)"
    by (auto simp: accept_hello_Inr)
  then have "hello_token hello \<noteq> []" using validated_token_nonempty[OF assms(2)] by blast
  then show ?thesis using session(1) acc by blast
next
  case (unwelcomed first rest hello)
  then obtain account where acc: "parse_agent_line first = Inr (Hello hello)"
    "config_account (st_config s) (hello_account_id hello) = Some account" "ac_backend account = Agent"
    "ac_platform account = hello_platform hello" "presents_token env account (hello_token hello)"
    by (auto simp: accept_hello_Inr)
  then have "hello_token hello \<noteq> []" using validated_token_nonempty[OF assms(2)] by blast
  then show ?thesis using unwelcomed(1) acc by blast
qed

theorem connection_needs_credentials_witness:
  "\<exists>account. config_account test_config ''follower'' = Some account \<and> presents_token test_env account ''secret''"
proof -
  have "handle_connection test_env (test_connection [login_line ''follower'']) test_start =
      (Inr (), encode_server_frame (Welcome 2), test_start\<lparr>st_next_session_id := 2, st_calls := 2\<rparr>)"
    using test_connects[OF _ _ test_idle_session] by (simp add: test_start_def)
  from connection_needs_credentials[OF this] show ?thesis
    using test_config_valid test_logins
    by (auto simp: test_start_def test_connection_def login_line_def login_def encode_server_frame_def frame_line_def)
qed

text \<open>
  A connection is a run. Whatever an agent sends, in whatever order, and however the
  connection ends, its effect on the daemon is that of a sequence of the operations register, dispatch
  queued, handle frame and unregister, all of one account. The theorems about runs therefore hold
  of every sequence of connections.
\<close>

theorem connection_is_a_run:
  "\<exists>a ops. list_all (\<lambda>x. op_account x = Some a) ops \<and> snd (snd (handle_connection env cn s)) = run env ops s"
proof -
  obtain r out t where e: "handle_connection env cn s = (r, out, t)"
    by (cases "handle_connection env cn s")
  from e show ?thesis
  proof (cases rule: handle_connection_cases)
    case turned_away
    then show ?thesis using e by (intro exI[of _ "[]"] exI) (simp add: run_def)
  next
    case (unwelcomed first rest hello)
    then show ?thesis using e by (intro exI[of _ "[]"] exI) (simp add: run_def)
  next
    case (session first rest hello)
    then show ?thesis
      using e serve_session_run[of "hello_account_id hello" env "cn_tx cn" rest s]
      by (auto simp: list_all_iff)
  qed
qed

text \<open>
  C9. No session outlives its connection. Unless a handler panicked or waits for ever for room in a channel,
  after the connection the table of sessions holds only sessions that were there before: the session it
  registered is gone, even when a handler failed or the clean-up itself could not write to the journal.
\<close>

theorem connection_leaves_no_session:
  assumes "handle_connection env cn s = (r, out, t)" "\<forall>p. r \<noteq> Inl (Panicked p)" "r \<noteq> Inl Stuck"
  shows "st_sessions t \<subseteq>\<^sub>m st_sessions s"
  using assms(1)
proof (cases rule: handle_connection_cases)
  case turned_away
  then show ?thesis by simp
next
  case (session first rest hello)
  then show ?thesis
    using serve_session_sessions[OF session(3)] assms(2,3) by (auto simp: map_le_def left_behind_def)
qed simp

theorem connection_leaves_no_session_witness:
  "st_sessions (snd (snd (handle_connection test_env (test_connection [login_line ''follower'']) test_start)))
     \<subseteq>\<^sub>m st_sessions test_start"
proof -
  have "handle_connection test_env (test_connection [login_line ''follower'']) test_start =
      (Inr (), encode_server_frame (Welcome 2), test_start\<lparr>st_next_session_id := 2, st_calls := 2\<rparr>)"
    using test_connects[OF _ _ test_idle_session] by (simp add: test_start_def)
  from connection_leaves_no_session[OF this] this show ?thesis by simp
qed

text \<open>
  C10. A panic leaves a dead session behind. When a handler panics the clean-up does not run: the
  session of the connection stays registered although nobody reads that agent's answers any more, so
  commands go on being dispatched to it.
\<close>

theorem panic_leaves_session:
  assumes "handle_connection env cn s = (Inl (Panicked p), out, t)"
  shows "\<exists>a. st_sessions t a = Some \<lparr>sess_id = st_next_session_id s, sess_tx = cn_tx cn\<rparr>"
  using assms
proof (cases rule: handle_connection_cases)
  case turned_away
  then show ?thesis by simp
next
  case (session first rest hello)
  then show ?thesis using serve_session_sessions[OF session(3)] by auto
qed simp

theorem panic_leaves_session_witness:
  "\<exists>a. st_sessions (snd (snd (handle_connection test_env (test_connection [login_line ''master'',
      LineRead (encode_agent_frame (Event opening_event))]) inverted_start))) a = Some \<lparr>sess_id = 1, sess_tx = 7\<rparr>"
proof -
  obtain t where "serve_session test_env ''master'' 7 [LineRead (encode_agent_frame (Event opening_event))] inverted_start =
      (Inl (Panicked ''min > max, or either was NaN''), t)"
    using inverted_session by (metis prod.collapse)
  from test_connects[OF _ _ this]
  have c: "handle_connection test_env (test_connection [login_line ''master'',
      LineRead (encode_agent_frame (Event opening_event))]) inverted_start =
      (Inl (Panicked ''min > max, or either was NaN''), encode_server_frame (Welcome 2), t)"
    by (simp add: inverted_start_def test_start_def)
  have "st_next_session_id inverted_start = 1" by (simp add: inverted_start_def test_start_def)
  then show ?thesis using panic_leaves_session[OF c] c by (simp add: test_connection_def)
qed

section \<open>What the writer task wrote\<close>

text \<open>Whole frames, and after them the first bytes of at most one more.\<close>

lemma writer_task_lines:
  "\<exists>k. k \<le> length frames \<and> (\<forall>i < k. wr (n + i) = None) \<and> (k < length frames \<longrightarrow> wr (n + k) \<noteq> None) \<and>
     writer_task wr n frames = concat (map encode_server_frame (take k frames)) @
       (if k < length frames then take (the (wr (n + k))) (encode_server_frame (frames ! k)) else [])"
proof (induction wr n frames rule: writer_task.induct)
  case (2 wr n frame rest)
  show ?case
  proof (cases "wr n")
    case None
    then obtain k where k: "k \<le> length rest" "\<forall>i < k. wr (n + 1 + i) = None" "k < length rest \<longrightarrow> wr (n + 1 + k) \<noteq> None"
      "writer_task wr (n + 1) rest = concat (map encode_server_frame (take k rest)) @
         (if k < length rest then take (the (wr (n + 1 + k))) (encode_server_frame (rest ! k)) else [])"
      using 2 by blast
    then show ?thesis using None
      by (intro exI[of _ "Suc k"]) (auto simp: less_Suc_eq_0_disj)
  next
    case (Some k)
    then show ?thesis by (intro exI[of _ 0]) simp
  qed
qed simp

end
