(* ===== verification/Tasks.thy ===== *)
theory Tasks
  imports Prelude
begin

text \<open>
  Tasks of an asynchronous program: a task is finished or performs one atomic step on the shared state
  and goes on. Between two steps of a task any other task may run. Run alone a task is a handler; the
  rules of this theory derive invariants of every interleaving from what the single tasks guarantee
  to each other.
\<close>

section \<open>Tasks\<close>

datatype (dead 's, 'a) task =
    Finished 'a
  | Atomic "'s \<Rightarrow> 's \<times> ('s, 'a) task"

lemma task_induct [case_names Finished Atomic, induct type: task]:
  assumes "\<And>x. P (Finished x)" "\<And>f. (\<And>s. P (snd (f s))) \<Longrightarrow> P (Atomic f)"
  shows "P m"
proof (induction m)
  case (Atomic f)
  have "P (snd (f s))" for s by (rule Atomic[of "f s"]) (simp_all add: snds.simps prod_eq_iff)
  then show ?case by (rule assms(2))
qed (rule assms(1))

primrec bindT :: "('s, 'a) task \<Rightarrow> ('a \<Rightarrow> ('s, 'b) task) \<Rightarrow> ('s, 'b) task" where
  "bindT (Finished x) k = k x"
| "bindT (Atomic f) k = Atomic (\<lambda>s. map_prod id (\<lambda>m. bindT m k) (f s))"

text \<open>The task without interruption.\<close>

primrec alone :: "('s, 'a) task \<Rightarrow> 's \<Rightarrow> 'a \<times> 's" where
  "alone (Finished x) = (\<lambda>s. (x, s))"
| "alone (Atomic f) = (\<lambda>s. (\<lambda>(t, g). g t) (map_prod id alone (f s)))"

text \<open>Fallible tasks: the question mark operator, one atomic handler, and a loop.\<close>

type_synonym ('s, 'e, 'a) fallible_task = "('s, 'e + 'a) task"

definition bindTE :: "('s, 'e, 'a) fallible_task \<Rightarrow> ('a \<Rightarrow> ('s, 'e, 'b) fallible_task) \<Rightarrow> ('s, 'e, 'b) fallible_task" where
  "bindTE m f = bindT m (\<lambda>r. case r of Inl e \<Rightarrow> Finished (Inl e) | Inr x \<Rightarrow> f x)"

definition atomic :: "('s, 'e, 'a) handler \<Rightarrow> ('s, 'e, 'a) fallible_task" where
  "atomic m = Atomic (\<lambda>s. case m s of (r, t) \<Rightarrow> (t, Finished r))"

fun eachT :: "('a \<Rightarrow> ('s, 'e, unit) fallible_task) \<Rightarrow> 'a list \<Rightarrow> ('s, 'e, unit) fallible_task" where
  "eachT f [] = Finished (Inr ())"
| "eachT f (x # xs) = bindTE (f x) (\<lambda>_. eachT f xs)"

definition failingT :: "('e \<Rightarrow> 'f) \<Rightarrow> ('s, 'e, 'a) fallible_task \<Rightarrow> ('s, 'f, 'a) fallible_task" where
  "failingT g m = bindT m (\<lambda>r. Finished (mapE g r))"

lemma alone_bindT: "alone (bindT m k) s = (case alone m s of (x, t) \<Rightarrow> alone (k x) t)"
proof (induction m arbitrary: s)
  case (Atomic f)
  then show ?case by (cases "f s") (auto dest: meta_spec[of _ s])
qed simp

text \<open>Run alone, tasks are composed as handlers are.\<close>

declare alone.simps [simp del]

named_theorems alone_simps \<open>a task run alone is a handler\<close>

lemma alone_basic [alone_simps]:
  "alone (Finished (Inr x)) = returnS x" "alone (Finished (Inl e)) = failS e" "alone (atomic m) = m"
  by (auto simp: fun_eq_iff atomic_def alone.simps split: prod.split)

lemma alone_bindTE [alone_simps]: "alone (bindTE m f) = bindS (alone m) (\<lambda>x. alone (f x))"
  by (auto simp: fun_eq_iff bindTE_def alone_bindT bindS_def alone.simps split: prod.split sum.split)

lemma alone_eachT [alone_simps]: "alone (eachT f xs) = eachS (\<lambda>x. alone (f x)) xs"
  by (induction xs) (simp_all add: alone_simps)

lemma alone_failingT [alone_simps]: "alone (failingT g m) = failing g (alone m)"
  by (auto simp: fun_eq_iff failingT_def alone_bindT failing_def alone.simps split: prod.split)

lemma alone_if [alone_simps]: "alone (if b then m else n) = (if b then alone m else alone n)"
  by simp

lemma alone_option [alone_simps]:
  "alone (case x of None \<Rightarrow> m | Some y \<Rightarrow> f y) = (case x of None \<Rightarrow> alone m | Some y \<Rightarrow> alone (f y))"
  by (cases x) simp_all

section \<open>Pools of tasks\<close>

text \<open>
  One step of a pool: a task of the pool performs its next atomic step, a new task starts, or the
  whole pool is lost in a crash, after which the state is a recovered one.
\<close>

type_synonym ('s, 'a) pool = "'s \<times> ('s, 'a) task list"

inductive pool_step :: "('s, 'a) task set \<Rightarrow> ('s \<Rightarrow> 's option) \<Rightarrow> ('s, 'a) pool \<Rightarrow> ('s, 'a) pool \<Rightarrow> bool"
  for starts recover where
  advance: "i < length ts \<Longrightarrow> ts ! i = Atomic f \<Longrightarrow> f s = (t, m) \<Longrightarrow>
     pool_step starts recover (s, ts) (t, ts[i := m])"
| spawn: "m \<in> starts \<Longrightarrow> pool_step starts recover (s, ts) (s, ts @ [m])"
| crash: "recover s = Some t \<Longrightarrow> pool_step starts recover (s, ts) (t, [])"

inductive_cases pool_stepE: "pool_step starts recover (s, ts) q"

text \<open>The steps of one task of a pool; a part of a task can run to its end without interruption.\<close>

inductive task_step :: "'s \<times> ('s, 'a) task \<Rightarrow> 's \<times> ('s, 'a) task \<Rightarrow> bool" where
  step: "f s = (t, m) \<Longrightarrow> task_step (s, Atomic f) (t, m)"

inductive_simps task_step_simps: "task_step (s, m) q"

lemma task_steps_bindT:
  assumes "task_step\<^sup>*\<^sup>* p q"
  shows "task_step\<^sup>*\<^sup>* (fst p, bindT (snd p) k) (fst q, bindT (snd q) k)"
  using assms
proof (induction rule: rtranclp_induct)
  case (step q r)
  have "task_step (fst q, bindT (snd q) k) (fst r, bindT (snd r) k)"
    using step(2) by (cases q) (auto simp: task_step_simps intro: task_step.step)
  then show ?case using step(3) by (rule rtranclp.rtrancl_into_rtrancl[rotated])
qed simp

lemma task_steps_alone: "task_step\<^sup>*\<^sup>* (s, m) (snd (alone m s), Finished (fst (alone m s)))"
proof (induction m arbitrary: s)
  case (Finished x)
  then show ?case by (simp add: alone.simps)
next
  case (Atomic f)
  have "task_step (s, Atomic f) (fst (f s), snd (f s))" by (rule task_step.step) simp
  then have "task_step\<^sup>*\<^sup>* (s, Atomic f) (snd (alone (snd (f s)) (fst (f s))), Finished (fst (alone (snd (f s)) (fst (f s)))))"
    by (rule converse_rtranclp_into_rtranclp) (rule Atomic)
  then show ?case by (cases "f s") (simp add: alone.simps)
qed

text \<open>The steps of a task lead to where it gets alone.\<close>

lemma alone_task_steps: "task_step\<^sup>*\<^sup>* (s, m) (t, n) \<Longrightarrow> alone m s = alone n t"
proof -
  have "task_step\<^sup>*\<^sup>* p q \<Longrightarrow> alone (snd p) (fst p) = alone (snd q) (fst q)" for p q :: "'a \<times> ('a, 'b) task"
    by (induction rule: rtranclp_induct) (auto simp: alone.simps elim!: task_step.cases)
  from this[of "(s, m)" "(t, n)"] show "task_step\<^sup>*\<^sup>* (s, m) (t, n) \<Longrightarrow> alone m s = alone n t" by simp
qed

lemmas task_steps_nested = task_steps_bindT[of "(s, m)" "(t, n)" for s m t n, simplified]

lemma task_steps_bindTE:
  "task_step\<^sup>*\<^sup>* (s, m) (t, n) \<Longrightarrow> task_step\<^sup>*\<^sup>* (s, bindTE m f) (t, bindTE n f)"
  unfolding bindTE_def by (rule task_steps_nested)

lemma task_steps_failingT:
  "task_step\<^sup>*\<^sup>* (s, m) (t, n) \<Longrightarrow> task_step\<^sup>*\<^sup>* (s, failingT g m) (t, failingT g n)"
  unfolding failingT_def by (rule task_steps_nested)

lemma task_steps_done:
  assumes "alone m s = (Inr x, t)" shows "task_step\<^sup>*\<^sup>* (s, bindTE m f) (t, f x)"
  using task_steps_bindTE[OF task_steps_alone[of s m], of f] assms by (simp add: bindTE_def)

text \<open>The next part of a task is done; the rest is run from where it left the state.\<close>

lemma task_steps_next:
  assumes "alone m s = (Inr x, t)" "task_step\<^sup>*\<^sup>* (t, f x) q"
  shows "task_step\<^sup>*\<^sup>* (s, bindTE m f) q"
  using task_steps_done[OF assms(1)] assms(2) by (rule rtranclp_trans)

lemma pool_steps:
  assumes "task_step\<^sup>*\<^sup>* (s, m) q" "i < length ts" "ts ! i = m"
  shows "(pool_step starts recover)\<^sup>*\<^sup>* (s, ts) (fst q, ts[i := snd q])"
  using assms(1)
proof (induction rule: rtranclp_induct)
  case base
  have "ts[i := m] = ts" using assms(3) by (metis list_update_id)
  then show ?case by simp
next
  case (step q r)
  have "pool_step starts recover (fst q, ts[i := snd q]) (fst r, (ts[i := snd q])[i := snd r])"
    using step(2) assms(2) advance[of i "ts[i := snd q]"] by (cases q) (auto simp: task_step_simps)
  then show ?case using step(3) by simp
qed

section \<open>What tasks guarantee to each other\<close>

text \<open>
  The invariant \<open>I\<close> holds between any two steps, and every step changes the state only as
  \<open>R\<close> permits. A task may then rely on any fact that changes within \<open>R\<close> keep.
\<close>

definition stable :: "('s \<Rightarrow> bool) \<Rightarrow> ('s \<Rightarrow> 's \<Rightarrow> bool) \<Rightarrow> ('s \<Rightarrow> bool) \<Rightarrow> bool" where
  "stable I R P \<longleftrightarrow> (\<forall>s t. I s \<and> I t \<and> R s t \<and> P s \<longrightarrow> P t)"

text \<open>
  \<open>safe I R P m Q\<close>: started where \<open>P\<close> holds, every step of \<open>m\<close> keeps \<open>I\<close> and is within
  \<open>R\<close>, whatever the others do, and \<open>Q\<close> holds of its result when it is done.
\<close>

inductive safe :: "('s \<Rightarrow> bool) \<Rightarrow> ('s \<Rightarrow> 's \<Rightarrow> bool) \<Rightarrow> ('s \<Rightarrow> bool) \<Rightarrow> ('s, 'a) task \<Rightarrow> ('a \<Rightarrow> 's \<Rightarrow> bool) \<Rightarrow> bool"
  for I R where
  safe_Finished: "\<forall>s. I s \<and> P s \<longrightarrow> Q x s \<Longrightarrow> safe I R P (Finished x) Q"
| safe_Atomic: "\<forall>s. I s \<and> P s \<longrightarrow> I (fst (f s)) \<and> R s (fst (f s)) \<and>
      (\<exists>P'. stable I R P' \<and> P' (fst (f s)) \<and> safe I R P' (snd (f s)) Q) \<Longrightarrow> safe I R P (Atomic f) Q"

inductive_cases safe_AtomicE: "safe I R P (Atomic f) Q"

lemma stable_True [simp]: "stable I R (\<lambda>_. True)"
  by (simp add: stable_def)

lemma safe_weaken:
  assumes "safe I R P m Q" "\<forall>s. I s \<and> P' s \<longrightarrow> P s" shows "safe I R P' m Q"
  using assms(1)
proof cases
  case (safe_Finished x)
  then show ?thesis using assms(2) by (auto intro: safe.safe_Finished)
next
  case (safe_Atomic f)
  then show ?thesis using assms(2) by (auto intro: safe.safe_Atomic)
qed

lemma safe_bindT:
  assumes "safe I R P m Q" "\<forall>x. safe I R (Q x) (k x) Q'"
  shows "safe I R P (bindT m k) Q'"
  using assms
proof (induction P m Q rule: safe.induct)
  case (safe_Finished P Q x)
  then have "safe I R (Q x) (k x) Q'" by blast
  then show ?case using safe_Finished(1) by (auto intro: safe_weaken)
next
  case (safe_Atomic P f Q)
  show ?case
    unfolding bindT.simps
  proof (rule safe.safe_Atomic, intro allI impI conjI)
    fix s assume s: "I s \<and> P s"
    then obtain P' where p: "I (fst (f s))" "R s (fst (f s))" "stable I R P'" "P' (fst (f s))"
      "safe I R P' (bindT (snd (f s)) k) Q'"
      using safe_Atomic by blast
    then show "I (fst (map_prod id (\<lambda>m. bindT m k) (f s)))" "R s (fst (map_prod id (\<lambda>m. bindT m k) (f s)))"
      "\<exists>P'. stable I R P' \<and> P' (fst (map_prod id (\<lambda>m. bindT m k) (f s))) \<and>
        safe I R P' (snd (map_prod id (\<lambda>m. bindT m k) (f s))) Q'"
      by auto
  qed
qed

text \<open>A handler that keeps the invariant within the permitted changes.\<close>

definition guarantees :: "('s \<Rightarrow> bool) \<Rightarrow> ('s \<Rightarrow> 's \<Rightarrow> bool) \<Rightarrow> ('s, 'e, 'a) handler \<Rightarrow> bool" where
  "guarantees I R m \<longleftrightarrow> (\<forall>s. I s \<longrightarrow> I (snd (m s)) \<and> R s (snd (m s)))"

definition harmless :: "('s \<Rightarrow> bool) \<Rightarrow> ('s \<Rightarrow> 's \<Rightarrow> bool) \<Rightarrow> ('s, 'a) task \<Rightarrow> bool" where
  "harmless I R m \<longleftrightarrow> safe I R (\<lambda>_. True) m (\<lambda>_ _. True)"

named_theorems harmless_intros \<open>tasks that keep an invariant under interleaving\<close>

lemma safe_atomic:
  assumes "\<forall>s. I s \<and> P s \<longrightarrow> I (snd (m s)) \<and> R s (snd (m s)) \<and> Q (fst (m s)) (snd (m s))"
    and "\<forall>r. stable I R (Q r)"
  shows "safe I R P (atomic m) Q"
  unfolding atomic_def
proof (rule safe_Atomic, intro allI impI)
  fix s assume "I s \<and> P s"
  then have "I (snd (m s)) \<and> R s (snd (m s)) \<and> Q (fst (m s)) (snd (m s))" using assms(1) by blast
  then show "I (fst (case m s of (r, t) \<Rightarrow> (t, Finished r))) \<and> R s (fst (case m s of (r, t) \<Rightarrow> (t, Finished r))) \<and>
     (\<exists>P'. stable I R P' \<and> P' (fst (case m s of (r, t) \<Rightarrow> (t, Finished r))) \<and>
       safe I R P' (snd (case m s of (r, t) \<Rightarrow> (t, Finished r))) Q)"
    using assms(2) by (auto split: prod.split intro!: exI[of _ "Q (fst (m s))"] safe_Finished)
qed

lemma harmless_Finished [harmless_intros]: "harmless I R (Finished x)"
  by (simp add: harmless_def safe_Finished)

lemma harmless_atomic [harmless_intros]: "guarantees I R m \<Longrightarrow> harmless I R (atomic m)"
  unfolding harmless_def by (rule safe_atomic) (simp_all add: guarantees_def)

lemma harmless_bindT: "harmless I R m \<Longrightarrow> (\<And>x. harmless I R (k x)) \<Longrightarrow> harmless I R (bindT m k)"
  unfolding harmless_def by (rule safe_bindT) auto

lemma harmless_bindTE [harmless_intros]:
  "harmless I R m \<Longrightarrow> (\<And>x. harmless I R (f x)) \<Longrightarrow> harmless I R (bindTE m f)"
  unfolding bindTE_def by (rule harmless_bindT) (auto intro: harmless_Finished split: sum.split)

lemma harmless_failingT [harmless_intros]: "harmless I R m \<Longrightarrow> harmless I R (failingT g m)"
  unfolding failingT_def by (rule harmless_bindT) (auto intro: harmless_Finished)

lemma harmless_eachT [harmless_intros]: "(\<And>x. harmless I R (f x)) \<Longrightarrow> harmless I R (eachT f xs)"
  by (induction xs) (auto intro: harmless_intros)

lemma harmless_if [harmless_intros]:
  "(b \<Longrightarrow> harmless I R m) \<Longrightarrow> (\<not> b \<Longrightarrow> harmless I R n) \<Longrightarrow> harmless I R (if b then m else n)"
  by simp

lemma harmless_option [harmless_intros]:
  "harmless I R m \<Longrightarrow> (\<And>y. harmless I R (f y)) \<Longrightarrow> harmless I R (case x of None \<Rightarrow> m | Some y \<Rightarrow> f y)"
  by (cases x) simp_all

text \<open>
  \<open>ensures I R P m K\<close>: started where \<open>P\<close> holds the task is safe, and when it succeeds
  \<open>K\<close> holds, whatever the other tasks did meanwhile.
\<close>

definition ensures ::
    "('s \<Rightarrow> bool) \<Rightarrow> ('s \<Rightarrow> 's \<Rightarrow> bool) \<Rightarrow> ('s \<Rightarrow> bool) \<Rightarrow> ('s, 'e, 'a) fallible_task \<Rightarrow> ('s \<Rightarrow> bool) \<Rightarrow> bool" where
  "ensures I R P m K \<longleftrightarrow> safe I R P m (\<lambda>r s. case r of Inl e \<Rightarrow> True | Inr x \<Rightarrow> K s)"

lemma case_sum_True: "(case r of Inl e \<Rightarrow> True | Inr x \<Rightarrow> True)"
  by (cases r) simp_all

lemma ensures_True: "ensures I R (\<lambda>_. True) m (\<lambda>_. True) \<longleftrightarrow> harmless I R m"
  by (simp add: ensures_def harmless_def case_sum_True)

lemma ensures_harmless: "harmless I R m \<Longrightarrow> ensures I R P m (\<lambda>_. True)"
  unfolding ensures_True[symmetric] unfolding ensures_def by (rule safe_weaken) auto

lemma ensures_return: "\<forall>s. P s \<longrightarrow> K s \<Longrightarrow> ensures I R P (Finished (Inr x)) K"
  by (simp add: ensures_def safe_Finished)

lemma ensures_bindTE:
  assumes "ensures I R P m K" "\<And>x. ensures I R K (f x) L"
  shows "ensures I R P (bindTE m f) L"
  unfolding ensures_def bindTE_def
proof (rule safe_bindT[OF assms(1)[unfolded ensures_def]], rule allI)
  fix r
  show "safe I R (\<lambda>s. case r of Inl e \<Rightarrow> True | Inr x \<Rightarrow> K s) (case r of Inl e \<Rightarrow> Finished (Inl e) | Inr x \<Rightarrow> f x)
      (\<lambda>r s. case r of Inl e \<Rightarrow> True | Inr x \<Rightarrow> L s)"
    using assms(2) by (cases r) (simp_all add: ensures_def safe_Finished)
qed

lemma ensures_atomic:
  assumes "stable I R K"
    and "\<forall>s. I s \<and> P s \<longrightarrow> I (snd (m s)) \<and> R s (snd (m s)) \<and> (\<forall>x. fst (m s) = Inr x \<longrightarrow> K (snd (m s)))"
  shows "ensures I R P (atomic m) K"
  unfolding ensures_def
proof (rule safe_atomic)
  show "\<forall>r. stable I R (\<lambda>s. case r of Inl e \<Rightarrow> True | Inr x \<Rightarrow> K s)"
    using assms(1) by (auto simp: stable_def split: sum.split)
qed (use assms(2) in \<open>auto split: sum.split\<close>)

lemma ensures_kept: "stable I R K \<Longrightarrow> guarantees I R m \<Longrightarrow> ensures I R K (atomic m) K"
  by (rule ensures_atomic) (auto simp: guarantees_def stable_def)

section \<open>Interface: a pool whose tasks are harmless\<close>

text \<open>
  When every task that may start is harmless and a recovery re-establishes the invariant, the
  invariant holds in every reachable state, whatever the interleaving.
\<close>

locale harmless_pool =
  fixes I :: "'s \<Rightarrow> bool" and R :: "'s \<Rightarrow> 's \<Rightarrow> bool" and starts :: "('s, 'a) task set"
    and recover :: "'s \<Rightarrow> 's option"
  assumes start_harmless: "m \<in> starts \<Longrightarrow> harmless I R m"
    and recover_inv: "recover s = Some t \<Longrightarrow> I s \<Longrightarrow> I t"
begin

definition pool_ok :: "('s, 'a) pool \<Rightarrow> bool" where
  "pool_ok p \<longleftrightarrow> I (fst p) \<and> (\<forall>m \<in> set (snd p). \<exists>P. stable I R P \<and> P (fst p) \<and> safe I R P m (\<lambda>_ _. True))"

lemma pool_ok_step:
  assumes "pool_step starts recover p q" "pool_ok p" shows "pool_ok q"
  using assms
proof (induction rule: pool_step.induct)
  case (advance i ts f s t m)
  then obtain P where P: "stable I R P" "P s" "safe I R P (Atomic f) (\<lambda>_ _. True)"
    using nth_mem[of i ts] by (fastforce simp: pool_ok_def)
  have s: "I s" using advance.prems by (simp add: pool_ok_def)
  obtain P' where n: "I t" "R s t" "stable I R P'" "P' t" "safe I R P' m (\<lambda>_ _. True)"
    using P s advance(3) by (force elim: safe_AtomicE)
  have "\<exists>P. stable I R P \<and> P t \<and> safe I R P x (\<lambda>_ _. True)" if x: "x \<in> set ts" for x
  proof -
    obtain Px where px: "stable I R Px" "Px s" "safe I R Px x (\<lambda>_ _. True)"
      using advance.prems x by (auto simp: pool_ok_def)
    then have "Px t" using s n(1,2) by (auto simp: stable_def)
    then show ?thesis using px by blast
  qed
  then show ?case
    using n set_update_subset_insert[of ts i m] by (auto simp: pool_ok_def)
next
  case (spawn m s ts)
  then have "\<exists>P. stable I R P \<and> P s \<and> safe I R P m (\<lambda>_ _. True)"
    using start_harmless[of m] by (auto simp: harmless_def intro!: exI[of _ "\<lambda>_. True"])
  then show ?case using spawn by (auto simp: pool_ok_def)
next
  case (crash s t ts)
  then show ?case using recover_inv by (auto simp: pool_ok_def)
qed

lemma pool_invariant:
  assumes "(pool_step starts recover)\<^sup>*\<^sup>* (s, []) (t, ts)" "I s" shows "I t"
proof -
  have "pool_ok (t, ts)"
    using assms(1)
  proof (induction rule: rtranclp_induct)
    case base
    then show ?case using assms(2) by (simp add: pool_ok_def)
  next
    case (step p q)
    then show ?case using pool_ok_step by blast
  qed
  then show ?thesis by (simp add: pool_ok_def)
qed

end

end
