(* ===== verification/Interleaving.thy ===== *)
theory Interleaving
  imports Server Tasks
begin

text \<open>
  The daemon with its concurrency: every handler of \<open>runtime.rs\<close> and the connection of
  \<open>server.rs\<close> as a task whose atomic steps are the critical sections between two
  \<open>await\<close>s (a lock held for one access, one append to the journal, one send). Any number of
  connections are served at once and the process may crash between any two steps. Run alone each task is
  its handler; journal-before-send holds of every interleaving, at-most-once does not.
\<close>

section \<open>The handlers as tasks\<close>

type_synonym 'a runtime_task = "(app_state, runtime_error fault, 'a) fallible_task"

definition log_apply_task :: "environment \<Rightarrow> journal_record \<Rightarrow> unit runtime_task" where
  "log_apply_task env r = bindTE (atomic (append_record env r)) (\<lambda>_. atomic (apply_record r))"

definition mark_unknown_task :: "environment \<Rightarrow> string \<Rightarrow> string \<Rightarrow> unit runtime_task" where
  "mark_unknown_task env cid reason =
    bindTE (atomic (unix_time_ns env)) (\<lambda>t. log_apply_task env (CommandUnknown cid t reason))"

definition dispatch_task :: "environment \<Rightarrow> execution_command \<Rightarrow> unit runtime_task" where
  "dispatch_task env command =
    bindTE (atomic (getS (\<lambda>s. st_sessions s (cmd_target_account_id command)))) (\<lambda>found.
      case found of
        None \<Rightarrow> Finished (Inr ())
      | Some session \<Rightarrow>
          bindTE (atomic (unix_time_ns env)) (\<lambda>t.
          bindTE (log_apply_task env (CommandDispatched (cmd_command_id command) t)) (\<lambda>_.
          bindTE (atomic (send_frame env session (Command command))) (\<lambda>sent.
            if sent then Finished (Inr ())
            else mark_unknown_task env (cmd_command_id command) ''session queue closed before write''))))"

definition dispatch_queued_task :: "environment \<Rightarrow> string \<Rightarrow> unit runtime_task" where
  "dispatch_queued_task env account_id =
    bindTE (atomic (stored_values env)) (\<lambda>stored.
      eachT (dispatch_task env)
        (map sc_command (filter (\<lambda>x. sc_state x = Queued \<and>
           cmd_target_account_id (sc_command x) = account_id) stored)))"

text \<open>Registering takes a number first and the lock of the session table afterwards.\<close>

definition next_session :: "u64 runtime" where
  "next_session s = (Inr (st_next_session_id s), s\<lparr>st_next_session_id := st_next_session_id s + 1\<rparr>)"

definition insert_session :: "string \<Rightarrow> nat \<Rightarrow> u64 \<Rightarrow> u64 runtime" where
  "insert_session account_id tx i s =
    (Inr i, s\<lparr>st_sessions := (st_sessions s)(account_id \<mapsto> \<lparr>sess_id = i, sess_tx = tx\<rparr>)\<rparr>)"

definition register_task :: "string \<Rightarrow> nat \<Rightarrow> u64 runtime_task" where
  "register_task account_id tx =
    bindTE (atomic next_session) (\<lambda>i. atomic (insert_session account_id tx i))"

definition remove_session :: "string \<Rightarrow> u64 \<Rightarrow> bool runtime" where
  "remove_session account_id session_id s =
    (case st_sessions s account_id of
       None \<Rightarrow> (Inr False, s)
     | Some session \<Rightarrow>
         if sess_id session \<noteq> session_id then (Inr False, s)
         else (Inr True, s\<lparr>st_sessions := (st_sessions s)(account_id := None)\<rparr>))"

definition unregister_task :: "environment \<Rightarrow> string \<Rightarrow> u64 \<Rightarrow> unit runtime_task" where
  "unregister_task env account_id session_id =
    bindTE (atomic (remove_session account_id session_id)) (\<lambda>removed.
      if \<not> removed then Finished (Inr ())
      else bindTE (atomic (stored_values env)) (\<lambda>stored.
        eachT (\<lambda>i. mark_unknown_task env i ''connection lost before terminal acknowledgement'')
          (map (\<lambda>x. cmd_command_id (sc_command x)) (filter (\<lambda>x. sc_state x = Dispatched \<and>
             cmd_target_account_id (sc_command x) = account_id) stored))))"

fun plan_task ::
    "environment \<Rightarrow> trade_event \<Rightarrow> i64 \<Rightarrow> route_rule list \<Rightarrow> execution_command list runtime_task" where
  "plan_task env e now [] = Finished (Inr [])"
| "plan_task env e now (r # rs) =
    bindTE (atomic (getS (\<lambda>s. mirrors (st_runtime s)
      (binding_key_of (ev_source_account_id e) (ev_source_order_id e) (rr_target_account_id r))))) (\<lambda>mirror.
      case build_command (env_sha env) e r mirror now of
        Inr (Some command) \<Rightarrow> bindTE (plan_task env e now rs) (\<lambda>planned. Finished (Inr (command # planned)))
      | Inr None \<Rightarrow> plan_task env e now rs
      | Inl (Raised (MissingMirror _)) \<Rightarrow> plan_task env e now rs
      | Inl (Raised error) \<Rightarrow> Finished (Inl (Raised (RouteFailed error)))
      | Inl (Panicked p) \<Rightarrow> Finished (Inl (Panicked p))
      | Inl Stuck \<Rightarrow> Finished (Inl Stuck))"

definition event_task :: "environment \<Rightarrow> trade_event \<Rightarrow> unit runtime_task" where
  "event_task env e =
    bindTE (atomic (getS (\<lambda>s. config_account (st_config s) (ev_source_account_id e)))) (\<lambda>found.
    bindTE (atomic (liftE (of_opt (Raised (UnknownSourceAccount (ev_source_account_id e))) found))) (\<lambda>account.
      if \<not> can_publish (ac_role account)
        then Finished (Inl (Raised (NotPermittedToPublish (ev_source_account_id e))))
      else if ev_origin_command_id e \<noteq> None \<and> \<not> ac_allow_rebroadcast account then Finished (Inr ())
      else bindTE (atomic (getS (\<lambda>s. ev_event_id e \<in> seen_events (st_runtime s)))) (\<lambda>seen.
        if seen then Finished (Inr ())
        else bindTE (atomic (unix_time_ns env)) (\<lambda>now.
          bindTE (atomic (getS (\<lambda>s. routes_for (st_engine s) (ev_source_account_id e)))) (\<lambda>routes.
          bindTE (plan_task env e now routes) (\<lambda>planned.
          bindTE (log_apply_task env (EventPlanned (ev_event_id e) planned)) (\<lambda>_.
          eachT (dispatch_task env) planned)))))))"

definition mirror_mutation_task ::
    "execution_command \<Rightarrow> execution_ack \<Rightarrow> mirror_mutation option runtime_task" where
  "mirror_mutation_task c a =
    (case cmd_action c of
       Open \<Rightarrow> (case ack_external_id a of
           None \<Rightarrow> Finished (Inl (Panicked ''validated external id''))
         | Some i \<Rightarrow> Finished (Inr (Some (Upsert (opened_binding c i)))))
     | Modify \<Rightarrow> Finished (Inr None)
     | Reduce \<Rightarrow> bindTE (atomic (getS (\<lambda>s. mirrors (st_runtime s) (command_key c)))) (\<lambda>current.
         case current of
           None \<Rightarrow> Finished (Inr None)
         | Some b \<Rightarrow> Finished (Inr (Some (Upsert (reduced_binding c b)))))
     | Close \<Rightarrow> Finished (Inr (Some (Remove (command_key c)))))"

definition ack_task :: "environment \<Rightarrow> execution_ack \<Rightarrow> unit runtime_task" where
  "ack_task env a =
    bindTE (atomic (getS (\<lambda>s. map_option sc_command (commands (st_runtime s) (ack_command_id a))))) (\<lambda>found.
      case found of
        None \<Rightarrow> Finished (Inr ())
      | Some c \<Rightarrow>
          if cmd_target_account_id c \<noteq> ack_account_id a then Finished (Inl (Raised AckTargetMismatch))
          else if ack_status a = Unknown then log_apply_task env (AckApplied a None)
          else if ack_status a \<in> {Accepted, Filled} \<and> cmd_action c = Open \<and> ack_external_id a = None
            then mark_unknown_task env (cmd_command_id c) ''open acknowledgement omitted external order id''
          else bindTE (if ack_status a \<in> {Accepted, Filled} then mirror_mutation_task c a else Finished (Inr None))
            (\<lambda>mirror. log_apply_task env (AckApplied a mirror)))"

definition frame_task :: "environment \<Rightarrow> string \<Rightarrow> agent_frame \<Rightarrow> unit runtime_task" where
  "frame_task env peer frame =
    (case frame of
       Hello _ \<Rightarrow> Finished (Inl (Raised HelloNotFirst))
     | Event e \<Rightarrow>
         if ev_source_account_id e \<noteq> peer then Finished (Inl (Raised EventSourceMismatch))
         else event_task env e
     | Ack a \<Rightarrow>
         if ack_account_id a \<noteq> peer then Finished (Inl (Raised AckAccountMismatch))
         else ack_task env a
     | Ping _ \<Rightarrow> Finished (Inr ()))"

section \<open>A connection as a task\<close>

type_synonym connection_job = "(app_state, connection_error fault, unit) fallible_task"

fun serve_frames_task :: "environment \<Rightarrow> string \<Rightarrow> line_read list \<Rightarrow> connection_job" where
  "serve_frames_task env account_id [] = Finished (Inr ())"
| "serve_frames_task env account_id (ReadFailed # _) = Finished (Inl (Raised SocketFailed))"
| "serve_frames_task env account_id (LineRead line # rest) =
    (case parse_agent_line line of
       Inl _ \<Rightarrow> serve_frames_task env account_id rest
     | Inr frame \<Rightarrow>
         bindTE (failingT (map_fault HandlerFailed) (frame_task env account_id frame)) (\<lambda>_.
         serve_frames_task env account_id rest))"

definition finish_session :: "environment \<Rightarrow> string \<Rightarrow> u64 \<Rightarrow> connection_error fault + unit \<Rightarrow> connection_job" where
  "finish_session env account_id session_id connection_result =
    (case connection_result of
       Inl (Panicked p) \<Rightarrow> Finished (Inl (Panicked p))
     | Inl Stuck \<Rightarrow> Finished (Inl Stuck)
     | _ \<Rightarrow> bindT (failingT (map_fault HandlerFailed) (unregister_task env account_id session_id))
         (\<lambda>cleanup_result. Finished (bindE connection_result (\<lambda>_. cleanup_result))))"

definition session_task :: "environment \<Rightarrow> string \<Rightarrow> nat \<Rightarrow> line_read list \<Rightarrow> connection_job" where
  "session_task env account_id tx reads =
    bindTE (failingT (map_fault HandlerFailed) (register_task account_id tx)) (\<lambda>session_id.
    bindT (bindTE (failingT (map_fault HandlerFailed) (dispatch_queued_task env account_id))
        (\<lambda>_. serve_frames_task env account_id reads)) (finish_session env account_id session_id))"

definition connection_task :: "environment \<Rightarrow> connection \<Rightarrow> connection_job" where
  "connection_task env cn =
    (if \<not> cn_nodelay cn then Finished (Inl (Raised SocketFailed))
     else (case cn_reads cn of
         [] \<Rightarrow> Finished (Inr ())
       | ReadFailed # _ \<Rightarrow> Finished (Inl (Raised SocketFailed))
       | LineRead first # rest \<Rightarrow>
           bindTE (atomic (getS st_config)) (\<lambda>config.
           (case accept_hello env config first of
              Inl e \<Rightarrow> Finished (Inl (Raised e))
            | Inr hello \<Rightarrow>
                if \<not> cn_welcome cn then Finished (Inl (Raised SocketFailed))
                else session_task env (hello_account_id hello) (cn_tx cn) rest))))"

section \<open>Run alone, the tasks are the handlers\<close>

lemma alone_log_apply [alone_simps]: "alone (log_apply_task env r) = log_apply env r"
  by (simp add: log_apply_task_def log_apply_def alone_simps)

lemma alone_mark_unknown [alone_simps]: "alone (mark_unknown_task env i reason) = mark_unknown env i reason"
  by (simp add: mark_unknown_task_def mark_unknown_def alone_simps)

lemma alone_dispatch [alone_simps]: "alone (dispatch_task env c) = dispatch_if_connected env c"
  by (simp add: dispatch_task_def dispatch_if_connected_def alone_simps cong: if_cong option.case_cong)

lemma alone_dispatch_queued [alone_simps]: "alone (dispatch_queued_task env a) = dispatch_queued_for env a"
  by (simp add: dispatch_queued_task_def dispatch_queued_for_def alone_simps)

lemma alone_register [alone_simps]: "alone (register_task a tx) = register_session a tx"
  by (simp add: register_task_def fun_eq_iff register_session_def next_session_def insert_session_def
      alone_simps bindS_def Let_def)

lemma alone_unregister [alone_simps]: "alone (unregister_task env a i) = unregister_session env a i"
proof
  fix s
  show "alone (unregister_task env a i) s = unregister_session env a i s"
    by (cases "st_sessions s a")
      (simp_all add: unregister_task_def unregister_session_def remove_session_def alone_simps bindS_def)
qed

lemma alone_plan [alone_simps]: "alone (plan_task env e now rs) = plan_routes env e now rs"
proof (induction rs)
  case (Cons r rs)
  have "alone (case x of
        Inr (Some command) \<Rightarrow> bindTE (plan_task env e now rs) (\<lambda>planned. Finished (Inr (command # planned)))
      | Inr None \<Rightarrow> plan_task env e now rs
      | Inl (Raised (MissingMirror _)) \<Rightarrow> plan_task env e now rs
      | Inl (Raised error) \<Rightarrow> Finished (Inl (Raised (RouteFailed error)))
      | Inl (Panicked p) \<Rightarrow> Finished (Inl (Panicked p))
      | Inl Stuck \<Rightarrow> Finished (Inl Stuck)) = (case x of
        Inr (Some command) \<Rightarrow> bindS (plan_routes env e now rs) (\<lambda>planned. returnS (command # planned))
      | Inr None \<Rightarrow> plan_routes env e now rs
      | Inl (Raised (MissingMirror _)) \<Rightarrow> plan_routes env e now rs
      | Inl (Raised error) \<Rightarrow> failS (Raised (RouteFailed error))
      | Inl (Panicked p) \<Rightarrow> failS (Panicked p)
      | Inl Stuck \<Rightarrow> failS Stuck)" for x
    by (auto simp: alone_simps Cons split: sum.split fault.split route_error.split option.split)
  then show ?case by (simp add: alone_simps)
qed (simp add: alone_simps)

lemma alone_event [alone_simps]: "alone (event_task env e) = handle_event env e"
proof -
  have lift: "alone (atomic (liftE r)) = liftE r" for r :: "runtime_error fault + account_config"
    by (simp add: alone_simps)
  show ?thesis
    unfolding event_task_def handle_event_def alone_bindTE alone_if lift
    by (simp add: alone_simps cong: if_cong)
qed

lemma alone_mirror_mutation [alone_simps]: "alone (mirror_mutation_task c a) = mirror_mutation_for c a"
  by (auto simp: mirror_mutation_task_def mirror_mutation_for_def alone_simps
      split: trade_action.split option.split)

lemma alone_ack [alone_simps]: "alone (ack_task env a) = handle_ack env a"
  unfolding ack_task_def handle_ack_def alone_bindTE alone_option alone_if
  by (simp add: alone_simps cong: if_cong option.case_cong)

lemma alone_frame [alone_simps]: "alone (frame_task env a f) = handle_frame env a f"
  by (cases f) (simp_all add: frame_task_def handle_frame_def alone_simps)

lemma alone_serve_frames [alone_simps]: "alone (serve_frames_task env a reads) = serve_frames env a reads"
  by (induction env a reads rule: serve_frames.induct)
    (auto simp: alone_simps split: sum.split)

lemma alone_session: "alone (session_task env a tx reads) s = serve_session env a tx reads s"
proof -
  define body where "body = session_body env a reads"
  have "alone (bindT (bindTE (failingT (map_fault HandlerFailed) (dispatch_queued_task env a))
        (\<lambda>_. serve_frames_task env a reads)) (finish_session env a i)) u =
     (case body u of
        (Inl (Panicked p), t) \<Rightarrow> (Inl (Panicked p), t)
      | (Inl Stuck, t) \<Rightarrow> (Inl Stuck, t)
      | (connection_result, t) \<Rightarrow>
          (case failing (map_fault HandlerFailed) (unregister_session env a i) t of
             (cleanup_result, u) \<Rightarrow> (bindE connection_result (\<lambda>_. cleanup_result), u)))" for i u
    by (simp add: alone_bindT alone_simps alone.simps prod_eq_iff body_def session_body_def finish_session_def
        split: prod.split sum.split fault.split)
  then show ?thesis
    by (simp add: session_task_def serve_session_def alone_simps bindS_def failing_def register_session_eq
        body_def session_body_def)
qed

lemma alone_connection:
  "alone (connection_task env cn) s = (case handle_connection env cn s of (r, out, t) \<Rightarrow> (r, t))"
  by (auto simp: connection_task_def handle_connection_def alone_simps alone_session
      split: list.split line_read.split sum.split prod.split)

section \<open>Interface: what the steps of the daemon keep\<close>

text \<open>
  An invariant that every atomic step keeps within the permitted changes, where dispatching may need more than
  one step to show it. Then every connection keeps it, however it is interleaved with others.
\<close>

locale step_guarantees =
  fixes env :: environment and I :: "app_state \<Rightarrow> bool" and R :: "app_state \<Rightarrow> app_state \<Rightarrow> bool"
  assumes no_change: "R s s"
    and append_step: "guarantees I R (append_record env r)"
    and apply_step: "guarantees I R (apply_record r)"
    and other_steps: "I s \<Longrightarrow> I (called s) \<and> R s (called s)"
      "I s \<Longrightarrow> I (s\<lparr>st_sessions := m\<rparr>) \<and> R s (s\<lparr>st_sessions := m\<rparr>)"
      "I s \<Longrightarrow> I (s\<lparr>st_next_session_id := n\<rparr>) \<and> R s (s\<lparr>st_next_session_id := n\<rparr>)"
begin

lemma basic_steps:
  "guarantees I R (getS f)" "guarantees I R (liftE r)" "guarantees I R (unix_time_ns env)"
  "guarantees I R (stored_values env)" "guarantees I R next_session" "guarantees I R (insert_session a tx i)"
  "guarantees I R (remove_session a i)"
  using no_change other_steps
  by (auto simp: guarantees_def unix_time_ns_def stored_values_def next_session_def insert_session_def
      remove_session_def split: option.split)

lemma harmless_log_apply: "harmless I R (log_apply_task env r)"
  unfolding log_apply_task_def by (intro harmless_intros append_step apply_step)

lemma harmless_mark_unknown: "harmless I R (mark_unknown_task env i reason)"
  unfolding mark_unknown_task_def by (intro harmless_intros basic_steps harmless_log_apply)

lemma harmless_dispatching:
  assumes "\<And>session c. guarantees I R (send_frame env session (Command c))"
  shows "harmless I R (dispatch_task env c)"
  unfolding dispatch_task_def
  by (intro harmless_intros basic_steps harmless_log_apply harmless_mark_unknown assms)

end

locale interleaved_property = step_guarantees env I R for env I R +
  assumes dispatching: "harmless I R (dispatch_task env c)"
begin

lemma harmless_event: "harmless I R (event_task env e)"
proof -
  have "harmless I R (plan_task env e now rs)" for now rs
  proof (induction rs)
    case (Cons r rs)
    show ?case
      unfolding plan_task.simps
      by (intro harmless_intros basic_steps)
        (auto intro!: harmless_intros Cons split: sum.split fault.split route_error.split option.split)
  qed (simp add: harmless_intros)
  then show ?thesis
    unfolding event_task_def
    by (intro harmless_intros basic_steps harmless_log_apply dispatching)
qed

lemma harmless_ack: "harmless I R (ack_task env a)"
proof -
  have "harmless I R (mirror_mutation_task c a)" for c
    unfolding mirror_mutation_task_def
    by (auto intro!: harmless_intros basic_steps split: trade_action.split option.split)
  then show ?thesis
    unfolding ack_task_def
    by (intro harmless_intros basic_steps harmless_log_apply harmless_mark_unknown)
qed

lemma harmless_serve_frames: "harmless I R (serve_frames_task env a reads)"
proof (induction reads)
  case (Cons r rest)
  have "harmless I R (frame_task env a f)" for f
    unfolding frame_task_def
    by (cases f) (auto intro: harmless_intros harmless_event harmless_ack)
  then show ?case
    using Cons by (cases r) (auto intro!: harmless_intros split: sum.split)
qed (simp add: harmless_intros)

lemma harmless_connection: "harmless I R (connection_task env cn)"
proof -
  have finish: "harmless I R (finish_session env a i r)" for a i r
    unfolding finish_session_def unregister_task_def
    by (auto intro!: harmless_intros harmless_bindT basic_steps harmless_mark_unknown
        split: sum.split fault.split)
  have "harmless I R (session_task env a tx reads)" for a tx reads
    unfolding session_task_def register_task_def dispatch_queued_task_def
    by (intro harmless_intros harmless_bindT basic_steps dispatching harmless_serve_frames finish)
  then show ?thesis
    unfolding connection_task_def
    by (auto intro!: harmless_intros basic_steps split: list.split line_read.split sum.split)
qed

end

text \<open>The daemon: any number of connections, and a restart after a crash between any two steps.\<close>

definition daemon_step :: "environment \<Rightarrow> (app_state, connection_error fault + unit) pool \<Rightarrow>
    (app_state, connection_error fault + unit) pool \<Rightarrow> bool" where
  "daemon_step env = pool_step (range (connection_task env)) (restart env)"

section \<open>Journal before send, under every interleaving\<close>

text \<open>The history of records only grows, so a record once written can be relied on.\<close>

definition extends :: "app_state \<Rightarrow> app_state \<Rightarrow> bool" where
  "extends s t \<longleftrightarrow> (\<exists>rs. st_written t = st_written s @ rs)"

definition journal_first :: "daemon_config \<Rightarrow> copy_engine \<Rightarrow> app_state \<Rightarrow> bool" where
  "journal_first cfg eng s \<longleftrightarrow> started_as cfg eng s \<and> engine_new (dc_routes cfg) = Inr eng \<and>
     dc_durability cfg \<noteq> NoDurability \<and> sent_is_journaled s"

lemma append_record_extends: "extends s (snd (append_record env r s))"
  by (simp add: extends_def append_record_journal)

lemma append_journal_first:
  assumes "journal_first cfg eng s" shows "journal_first cfg eng (snd (append_record env r s))"
proof -
  have "logs r False s (snd (append_record env r s))" using append_record_logs[OF surjective_pairing] by blast
  then show ?thesis
    using assms logs_sent_is_journaled keepsD[OF start_up.keeps_append, of cfg eng s env r]
    unfolding journal_first_def by blast
qed

lemma append_record_success:
  assumes "append_record env r s = (Inr x, t)" "jr_durability (st_journal s) \<noteq> NoDurability"
  shows "r \<in> set (st_written t)"
  using append_record_logs[OF assms(1)] assms(2) by simp

interpretation journal_first_steps: step_guarantees env "journal_first cfg eng" extends for env cfg eng
proof
  show "guarantees (journal_first cfg eng) extends (append_record env r)" for r
    by (simp add: guarantees_def append_journal_first append_record_extends)
qed (simp_all add: guarantees_def apply_record_def journal_first_def extends_def sent_is_journaled_def
    sent_commands_def started_as_def)

lemma dispatch_journal_first: "harmless (journal_first cfg eng) extends (dispatch_task env c)"
proof -
  let ?I = "journal_first cfg eng"
  let ?J = "\<lambda>t s. CommandDispatched (cmd_command_id c) t \<in> set (st_written s)"
  have rely: "stable ?I extends (?J t)" for t
    by (auto simp: stable_def extends_def)
  have "ensures ?I extends (\<lambda>_. True) (atomic (append_record env (CommandDispatched (cmd_command_id c) t))) (?J t)" for t
  proof (rule ensures_atomic[OF rely], intro allI impI conjI)
    fix s assume s: "?I s \<and> True"
    let ?r = "append_record env (CommandDispatched (cmd_command_id c) t) s"
    show "?I (snd ?r)" "extends s (snd ?r)" using s append_journal_first append_record_extends by auto
    show "?J t (snd ?r)" if "fst ?r = Inr x" for x
      using that s append_record_success[of env _ s x "snd ?r"] by (auto simp: journal_first_def started_as_def prod_eq_iff)
  qed
  then have log: "ensures ?I extends (\<lambda>_. True) (log_apply_task env (CommandDispatched (cmd_command_id c) t)) (?J t)" for t
    unfolding log_apply_task_def
    by (rule ensures_bindTE) (intro ensures_kept rely journal_first_steps.apply_step)
  have send: "ensures ?I extends (?J t) (atomic (send_frame env session (Command c))) (\<lambda>_. True)" for t session
    by (rule ensures_atomic) (auto simp: send_frame_def journal_first_def started_as_def extends_def
        sent_is_journaled_def sent_commands_def map_filter_def split: send_outcome.split)
  have part: "ensures ?I extends (\<lambda>_. True) (bindTE (log_apply_task env (CommandDispatched (cmd_command_id c) t)) (\<lambda>_.
      bindTE (atomic (send_frame env session (Command c))) (\<lambda>sent.
      if sent then Finished (Inr ())
      else mark_unknown_task env (cmd_command_id c) ''session queue closed before write''))) (\<lambda>_. True)" for t session
    by (rule ensures_bindTE[OF log], rule ensures_bindTE[OF send])
      (intro ensures_harmless harmless_intros journal_first_steps.harmless_mark_unknown)
  have step: "harmless ?I extends (atomic (getS f))" "harmless ?I extends (atomic (unix_time_ns env))" for f
    by (rule harmless_atomic, rule journal_first_steps.basic_steps)+
  show ?thesis
    unfolding dispatch_task_def
    by (rule harmless_bindTE[OF step(1)], rule harmless_option[OF harmless_Finished],
        rule harmless_bindTE[OF step(2)], rule part[unfolded ensures_True])
qed

interpretation journal_first: interleaved_property env "journal_first cfg eng" extends for env cfg eng
  by unfold_locales (rule dispatch_journal_first)

interpretation journal_first_pool: harmless_pool "journal_first cfg eng" extends "range (connection_task env)"
  "restart env" for env cfg eng
proof
  show "harmless (journal_first cfg eng) extends m" if "m \<in> range (connection_task env)" for m
    using that journal_first.harmless_connection by auto
  show "journal_first cfg eng t" if "restart env s = Some t" "journal_first cfg eng s" for s t
    using restart_started[OF that(1)] that(2) by (auto simp: journal_first_def sent_is_journaled_def started_as_def)
qed

section \<open>The journal file, under every interleaving and crash\<close>

text \<open>The file holds exactly the records of the history, one line each.\<close>

definition whole_file :: "environment \<Rightarrow> daemon_config \<Rightarrow> copy_engine \<Rightarrow> app_state \<Rightarrow> bool" where
  "whole_file env cfg eng s \<longleftrightarrow> started_as cfg eng s \<and> engine_new (dc_routes cfg) = Inr eng \<and> file_matches env s"

interpretation whole_file_steps: step_guarantees env "whole_file env cfg eng" "\<lambda>_ _. True" for env cfg eng
proof
  show "guarantees (whole_file env cfg eng) (\<lambda>_ _. True) (append_record env r)" for r
    using append_file_matches keepsD[OF start_up.keeps_append] by (auto simp: guarantees_def whole_file_def)
qed (simp_all add: guarantees_def apply_record_def whole_file_def file_matches_def started_as_def)

interpretation whole_file: interleaved_property env "whole_file env cfg eng" "\<lambda>_ _. True" for env cfg eng
proof unfold_locales
  show "harmless (whole_file env cfg eng) (\<lambda>_ _. True) (dispatch_task env c)" for c
    by (rule whole_file_steps.harmless_dispatching)
      (simp add: guarantees_def send_frame_def whole_file_def file_matches_def started_as_def split: send_outcome.split)
qed

interpretation whole_file_pool: harmless_pool "whole_file env cfg eng" "\<lambda>_ _. True" "range (connection_task env)"
  "restart env" for env cfg eng
proof
  show "harmless (whole_file env cfg eng) (\<lambda>_ _. True) m" if "m \<in> range (connection_task env)" for m
    using that whole_file.harmless_connection by auto
  show "whole_file env cfg eng t" if "restart env s = Some t" "whole_file env cfg eng s" for s t
    using restart_started[OF that(1)] that(2) by (auto simp: whole_file_def file_matches_def)
qed

lemma whole_file_restart:
  assumes "whole_file env cfg eng s" "whole_writes env" "serde_ok (env_enc env) (env_dec env) (set (st_written s))"
  obtains t where "restart env s = Some t" "st_runtime t = finalize_after_replay (replayed s)"
proof -
  have "jr_contents (st_journal s) = file_of (map (line_of (env_enc env)) (st_written s))"
    using assms(1,2) by (simp add: whole_file_def file_matches_def)
  then have "journal_open (env_dec env) True (Some (jr_contents (st_journal s))) (dc_durability (st_config s)) =
      Inr (\<lparr>jr_durability = dc_durability (st_config s), jr_contents = jr_contents (st_journal s)\<rparr>,
        finalize_after_replay (replayed s))"
    using replay_file_records[OF assms(3)] by (simp add: journal_open_def replayed_def)
  moreover have "engine_new (dc_routes (st_config s)) = Inr eng"
    using assms(1) by (simp add: whole_file_def started_as_def)
  ultimately show thesis using that by (simp add: restart_def app_new_def)
qed

section \<open>An interleaving that sends a command twice\<close>

text \<open>How far the tasks of a connection get by their own steps.\<close>

lemma event_task_planned:
  assumes "config_account (st_config s) (ev_source_account_id e) = Some account" "can_publish (ac_role account)"
    and "ev_origin_command_id e = None" "ev_event_id e \<notin> seen_events (st_runtime s)"
    and "plan_routes env e (clock_ns (env_clock env (st_calls s)))
      (routes_for (st_engine s) (ev_source_account_id e)) (called s) = (Inr planned, called s)"
    and "log_apply env (EventPlanned (ev_event_id e) planned) (called s) = (Inr (), u)"
  shows "task_step\<^sup>*\<^sup>* (s, event_task env e) (u, eachT (dispatch_task env) planned)"
proof -
  have get: "alone (atomic (getS f)) x = (Inr (f x), x)" for f :: "app_state \<Rightarrow> 'b" and x
    by (simp add: alone_simps)
  show ?thesis
    unfolding event_task_def
    apply (rule task_steps_next[OF get])
    apply (rule task_steps_next[where x = account and t = s])
     apply (simp add: alone_simps assms(1))
    apply (simp only: assms(2,3) simp_thms if_False not_True_eq_False)
    apply (rule task_steps_next[OF get])
    apply (simp only: assms(4) if_False)
    apply (rule task_steps_next[where t = "called s"])
     apply (simp add: alone_simps unix_time_eq)
    apply (rule task_steps_next[OF get])
    apply (rule task_steps_next[where x = planned and t = "called s"])
     apply (simp add: alone_simps assms(5))
    apply (rule task_steps_done[where x = "()"])
    apply (simp add: alone_simps assms(6))
    done
qed

lemma session_task_serving:
  assumes "register_session a tx s = (Inr i, s1)" "dispatch_queued_for env a s1 = (Inr (), s2)"
    and "task_step\<^sup>*\<^sup>* (s2, serve_frames_task env a reads) (t, m)"
  shows "task_step\<^sup>*\<^sup>* (s, session_task env a tx reads) (t, bindT m (finish_session env a i))"
proof -
  have "task_step\<^sup>*\<^sup>* (s1, bindTE (failingT (map_fault HandlerFailed) (dispatch_queued_task env a))
      (\<lambda>_. serve_frames_task env a reads)) (t, m)"
    using assms(2,3) by (intro task_steps_next[where x = "()" and t = s2]) (simp_all add: alone_simps)
  from task_steps_nested[OF this] show ?thesis
    unfolding session_task_def
    using assms(1) by (intro task_steps_next[where x = i and t = s1]) (simp_all add: alone_simps)
qed

lemma connection_task_serving:
  assumes "st_config s = test_config" "i = ''master'' \<or> i = ''follower''"
    and "task_step\<^sup>*\<^sup>* (s, session_task test_env i tx reads) (t, m)"
  shows "task_step\<^sup>*\<^sup>* (s, connection_task test_env ((test_connection (login_line i # reads))\<lparr>cn_tx := tx\<rparr>)) (t, m)"
proof -
  have "connection_task test_env ((test_connection (login_line i # reads))\<lparr>cn_tx := tx\<rparr>) =
      bindTE (atomic (getS st_config)) (\<lambda>config.
        case accept_hello test_env config (encode_agent_frame (Hello (login i))) of
          Inl e \<Rightarrow> Finished (Inl (Raised e))
        | Inr hello \<Rightarrow> session_task test_env (hello_account_id hello) tx reads)"
    by (simp add: connection_task_def test_connection_def login_line_def cong: sum.case_cong)
  then show ?thesis
    using assms(1,3) test_accept[OF assms(2)]
    by (simp only:) (intro task_steps_next[where x = test_config and t = s], simp_all add: alone_simps login_def)
qed

text \<open>The two connections: the master reports an opening while the follower logs in.\<close>

definition opening_connection :: connection where
  "opening_connection = (test_connection [login_line ''master'', LineRead (encode_agent_frame (Event opening_event))])\<lparr>cn_tx := 7\<rparr>"

definition follower_connection :: connection where
  "follower_connection = (test_connection [login_line ''follower''])\<lparr>cn_tx := 8\<rparr>"

lemma test_dispatch:
  assumes "jr_durability (st_journal s) = Flush" "st_sessions s ''follower'' = Some session"
  obtains t where "dispatch_if_connected test_env test_command s = (Inr (), t)" "same_frame s t"
    "st_sent t = st_sent s @ [(sess_tx session, Command test_command)]"
    "st_written t = st_written s @ [CommandDispatched (cmd_command_id test_command) 2]"
proof -
  have e: "test_enc (CommandDispatched i t) = Some ''2''" for i t by (simp add: test_enc_def)
  have "dispatch_if_connected test_env test_command s = (Inr (), snd (dispatch_if_connected test_env test_command s)) \<and>
    same_frame s (snd (dispatch_if_connected test_env test_command s)) \<and>
    st_sent (snd (dispatch_if_connected test_env test_command s)) = st_sent s @ [(sess_tx session, Command test_command)] \<and>
    st_written (snd (dispatch_if_connected test_env test_command s)) =
      st_written s @ [CommandDispatched (cmd_command_id test_command) 2]"
    using assms by (simp add: dispatch_if_connected_def test_clock test_log e send_frame_def
        bindS_def[of "send_frame _ _ _"] same_frame_def)
  then show thesis by (intro that) auto
qed

lemma test_queued:
  assumes "commands (st_runtime s) = Map.empty(cmd_command_id test_command \<mapsto> \<lparr>sc_command = test_command, sc_state = Queued\<rparr>)"
  shows "dispatch_queued_for test_env ''follower'' s = eachS (dispatch_if_connected test_env) [test_command] (called s)"
proof -
  have "env_keys test_env n = [cmd_command_id test_command]" for n by (simp add: test_env_def)
  then show ?thesis
    using assms by (simp add: dispatch_queued_for_def values_in_def map_filter_simps del: eachS.simps)
qed

text \<open>The master's connection up to the record of its event, with the command not yet dispatched.\<close>

definition serving_rest :: "(app_state, runtime_error fault, unit) fallible_task \<Rightarrow> connection_job" where
  "serving_rest m = bindT (bindTE (failingT (map_fault HandlerFailed) m) (\<lambda>_. Finished (Inr ())))
     (finish_session test_env ''master'' 1)"

lemma opening_connection_steps:
  obtains u where
    "task_step\<^sup>*\<^sup>* (test_start, connection_task test_env opening_connection)
      (u, serving_rest (eachT (dispatch_task test_env) [test_command]))"
    "st_config u = test_config" "st_sent u = []" "st_written u = [EventPlanned ''evt-1'' [test_command]]"
    "jr_durability (st_journal u) = Flush"
    "commands (st_runtime u) = Map.empty(cmd_command_id test_command \<mapsto> \<lparr>sc_command = test_command, sc_state = Queued\<rparr>)"
    "st_sessions u = Map.empty(''master'' \<mapsto> \<lparr>sess_id = 1, sess_tx = 7\<rparr>)"
proof -
  define s1 where "s1 = snd (register_session ''master'' 7 test_start)"
  have sess: "st_sessions s1 = Map.empty(''master'' \<mapsto> \<lparr>sess_id = 1, sess_tx = 7\<rparr>)"
    by (simp add: s1_def register_session_eq test_start_def)
  have f: "st_config s1 = test_config" "st_sent s1 = []" "st_written s1 = []" "jr_durability (st_journal s1) = Flush"
    "st_runtime s1 = replay_default" "st_engine s1 = st_engine test_start"
    by (simp_all add: s1_def register_session_eq test_start_def)
  have acc: "config_account (st_config (called s1)) (ev_source_account_id opening_event) = Some (test_account ''master'' Master)"
    "can_publish (ac_role (test_account ''master'' Master))"
    by (simp_all add: f config_account_def test_config_def test_account_def)
  have rts: "routes_for (st_engine (called s1)) (ev_source_account_id opening_event) = [test_rule]"
    by (simp add: f routes_for_def test_start_def)
  have plan: "plan_routes test_env opening_event (clock_ns (env_clock test_env (st_calls (called s1))))
      (routes_for (st_engine (called s1)) (ev_source_account_id opening_event)) (called (called s1)) =
      (Inr [test_command], called (called s1))"
    unfolding rts using test_plan[of "called (called s1)"]
    by (simp add: f test_clock replay_default_def del: plan_routes.simps)
  have e: "test_enc (EventPlanned i cs) = Some ''1''" for i cs by (simp add: test_enc_def)
  have "jr_durability (st_journal (called (called s1))) = Flush" by (simp add: f)
  note l = test_log[OF this e, of "ev_event_id opening_event" "[test_command]"]
  define u where "u = snd (log_apply test_env (EventPlanned (ev_event_id opening_event) [test_command]) (called (called s1)))"
  have lu: "log_apply test_env (EventPlanned (ev_event_id opening_event) [test_command]) (called (called s1)) = (Inr (), u)"
    unfolding u_def l by simp
  have ev: "task_step\<^sup>*\<^sup>* (called s1, event_task test_env opening_event) (u, eachT (dispatch_task test_env) [test_command])"
    by (rule event_task_planned[OF acc _ _ plan lu]) (simp_all add: f replay_default_def)
  have wire: "parse_agent_line (encode_agent_frame (Event opening_event)) = Inr (Event opening_event)"
    using parse_encode_agent[OF opening_event_wire(1)] wire_agent_id[OF opening_event_wire(2)] by simp
  have serve: "task_step\<^sup>*\<^sup>* (called s1, serve_frames_task test_env ''master'' [LineRead (encode_agent_frame (Event opening_event))])
      (u, bindTE (failingT (map_fault HandlerFailed) (eachT (dispatch_task test_env) [test_command])) (\<lambda>_. Finished (Inr ())))"
    using task_steps_bindTE[OF task_steps_failingT[OF ev]] by (simp add: wire frame_task_def del: eachT.simps)
  have reg: "register_session ''master'' 7 test_start = (Inr 1, s1)"
    by (simp add: s1_def register_session_eq) (simp add: test_start_def)
  have "dispatch_queued_for test_env ''master'' s1 = (Inr (), called s1)"
    by (rule no_commands(1)) (simp add: f replay_default_def)
  note session_task_serving[OF reg this serve]
  then have "task_step\<^sup>*\<^sup>* (test_start, connection_task test_env opening_connection)
      (u, serving_rest (eachT (dispatch_task test_env) [test_command]))"
    unfolding opening_connection_def serving_rest_def
    by (intro connection_task_serving) (simp_all add: test_start_def)
  moreover have "st_config u = test_config" "st_sent u = []" "st_written u = [EventPlanned ''evt-1'' [test_command]]"
    "jr_durability (st_journal u) = Flush"
    "commands (st_runtime u) = Map.empty(cmd_command_id test_command \<mapsto> \<lparr>sc_command = test_command, sc_state = Queued\<rparr>)"
    "st_sessions u = Map.empty(''master'' \<mapsto> \<lparr>sess_id = 1, sess_tx = 7\<rparr>)"
    unfolding u_def l by (simp_all add: f sess replay_default_def insert_queued_def)
  ultimately show thesis by (rule that)
qed

lemma follower_connection_steps:
  assumes "st_config u = test_config" "jr_durability (st_journal u) = Flush"
    and "commands (st_runtime u) = Map.empty(cmd_command_id test_command \<mapsto> \<lparr>sc_command = test_command, sc_state = Queued\<rparr>)"
  obtains v m where "task_step\<^sup>*\<^sup>* (u, connection_task test_env follower_connection) (v, m)"
    "m = bindT (serve_frames_task test_env ''follower'' []) (finish_session test_env ''follower'' (st_next_session_id u))"
    "st_sent v = st_sent u @ [(8, Command test_command)]"
    "st_written v = st_written u @ [CommandDispatched (cmd_command_id test_command) 2]"
    "jr_durability (st_journal v) = Flush" "st_sessions v ''follower'' \<noteq> None"
proof -
  define v1 where "v1 = snd (register_session ''follower'' 8 u)"
  have f: "st_sent v1 = st_sent u" "st_written v1 = st_written u" "jr_durability (st_journal v1) = Flush"
    "st_sessions (called v1) ''follower'' = Some \<lparr>sess_id = st_next_session_id u, sess_tx = 8\<rparr>"
    "st_runtime v1 = st_runtime u"
    using assms(2) by (simp_all add: v1_def register_session_eq)
  obtain v where v: "dispatch_if_connected test_env test_command (called v1) = (Inr (), v)" "same_frame (called v1) v"
    "st_sent v = st_sent (called v1) @ [(8, Command test_command)]"
    "st_written v = st_written (called v1) @ [CommandDispatched (cmd_command_id test_command) 2]"
    using test_dispatch[OF _ f(4)] f(3) by auto
  have reg: "register_session ''follower'' 8 u = (Inr (st_next_session_id u), v1)"
    by (simp add: v1_def register_session_eq)
  have "dispatch_queued_for test_env ''follower'' v1 = (Inr (), v)"
    using test_queued[of v1] assms(3) v(1) by (simp add: f bindS_def)
  note session_task_serving[OF reg this rtranclp.rtrancl_refl, of "[]"]
  then have "task_step\<^sup>*\<^sup>* (u, connection_task test_env follower_connection)
      (v, bindT (serve_frames_task test_env ''follower'' []) (finish_session test_env ''follower'' (st_next_session_id u)))"
    unfolding follower_connection_def using assms(1) by (intro connection_task_serving) simp_all
  from that[OF this refl] show thesis using v f by (auto simp: same_frame_def)
qed

lemma sent_twice_reached:
  obtains t ts where "(daemon_step test_env)\<^sup>*\<^sup>* (test_start, []) (t, ts)"
    "sent_commands t = [test_command, test_command]"
    "set (st_written t) = {EventPlanned ''evt-1'' [test_command], CommandDispatched (cmd_command_id test_command) 2}"
proof -
  let ?A = "connection_task test_env opening_connection" and ?B = "connection_task test_env follower_connection"
  let ?rest = "serving_rest (eachT (dispatch_task test_env) [test_command])"
  obtain u where u: "task_step\<^sup>*\<^sup>* (test_start, ?A) (u, ?rest)"
    "st_config u = test_config" "st_sent u = []" "st_written u = [EventPlanned ''evt-1'' [test_command]]"
    "jr_durability (st_journal u) = Flush"
    "commands (st_runtime u) = Map.empty(cmd_command_id test_command \<mapsto> \<lparr>sc_command = test_command, sc_state = Queued\<rparr>)"
    by (rule opening_connection_steps)
  obtain v m where v: "task_step\<^sup>*\<^sup>* (u, ?B) (v, m)" "m = bindT (serve_frames_task test_env ''follower'' [])
      (finish_session test_env ''follower'' (st_next_session_id u))" "st_sent v = st_sent u @ [(8, Command test_command)]"
    "st_written v = st_written u @ [CommandDispatched (cmd_command_id test_command) 2]"
    "jr_durability (st_journal v) = Flush" "st_sessions v ''follower'' \<noteq> None"
    by (rule follower_connection_steps[OF u(2,5,6)])
  obtain session where "st_sessions v ''follower'' = Some session" using v(6) by auto
  then obtain t where t: "dispatch_if_connected test_env test_command v = (Inr (), t)"
    "st_sent t = st_sent v @ [(sess_tx session, Command test_command)]"
    "st_written t = st_written v @ [CommandDispatched (cmd_command_id test_command) 2]"
    using test_dispatch[OF v(5)] by auto
  have "alone (eachT (dispatch_task test_env) [test_command]) v = (Inr (), t)"
    using t(1) by (simp add: alone_simps bindS_def del: eachT.simps)
  then have "task_step\<^sup>*\<^sup>* (v, ?rest) (t, serving_rest (Finished (Inr ())))"
    unfolding serving_rest_def
    using task_steps_alone[of v "eachT (dispatch_task test_env) [test_command]"]
    by (intro task_steps_nested task_steps_bindTE task_steps_failingT) (simp del: eachT.simps)
  note steps = u(1)[THEN pool_steps, of 0 "[?A, ?B]"] v(1)[THEN pool_steps, of 1 "[?rest, ?B]"]
    this[THEN pool_steps, of 0 "[?rest, m]"]
  have "(daemon_step test_env)\<^sup>*\<^sup>* (test_start, []) (test_start, [?A, ?B])"
    using spawn[of ?A "range (connection_task test_env)" "restart test_env" test_start "[]"]
      spawn[of ?B "range (connection_task test_env)" "restart test_env" test_start "[?A]"]
    unfolding daemon_step_def by (auto intro: rtranclp.rtrancl_into_rtrancl)
  also have "(daemon_step test_env)\<^sup>*\<^sup>* \<dots> (u, [?rest, ?B])" using steps(1) by (simp add: daemon_step_def)
  also have "(daemon_step test_env)\<^sup>*\<^sup>* \<dots> (v, [?rest, m])" using steps(2) by (simp add: daemon_step_def)
  also have "(daemon_step test_env)\<^sup>*\<^sup>* \<dots> (t, [serving_rest (Finished (Inr ())), m])"
    using steps(3) by (simp add: daemon_step_def)
  finally show thesis
    by (rule that) (use t(2,3) v(3,4) u(3,4) in \<open>auto simp: sent_commands_def map_filter_def\<close>)
qed

section \<open>Properties\<close>

text \<open>
  C1. Journal before send holds under concurrency. However many connections are served at once, however
  their steps are interleaved, and wherever the process crashes and restarts, every command that was
  put into a session's channel has its dispatch record in the journal.
\<close>

theorem interleaved_journaled_before_sent:
  assumes "app_new cfg \<lparr>jr_durability = dc_durability cfg, jr_contents = []\<rparr> replay_default = Inr s"
    and "dc_durability cfg \<noteq> NoDurability" "(daemon_step env)\<^sup>*\<^sup>* (s, []) (t, ts)"
    and "c \<in> set (sent_commands t)"
  shows "\<exists>when. CommandDispatched (cmd_command_id c) when \<in> set (st_written t)"
proof -
  have "journal_first cfg (st_engine s) s"
    using fresh_start[OF assms(1)] assms(2) by (simp add: journal_first_def)
  then have "journal_first cfg (st_engine s) t"
    by (rule journal_first_pool.pool_invariant[OF assms(3)[unfolded daemon_step_def]])
  then show ?thesis using assms(4) by (auto simp: journal_first_def sent_is_journaled_def started_as_def)
qed

theorem interleaved_journaled_before_sent_witness:
  "\<exists>t ts when. (daemon_step test_env)\<^sup>*\<^sup>* (test_start, []) (t, ts) \<and> test_command \<in> set (sent_commands t) \<and>
     CommandDispatched (cmd_command_id test_command) when \<in> set (st_written t)"
proof -
  obtain t ts where t: "(daemon_step test_env)\<^sup>*\<^sup>* (test_start, []) (t, ts)"
    "sent_commands t = [test_command, test_command]"
    by (rule sent_twice_reached)
  then show ?thesis
    using interleaved_journaled_before_sent[OF test_start_new _ t(1), of test_command] test_invariants(6) by auto
qed

text \<open>
  C2. A crash at any point can be recovered from. In every state that concurrent connections
  and earlier crashes can lead to, even between writing a record and taking it in, the journal
  file reads back, and the restarted daemon's state is the replay of all the records ever written.
  A write must put the whole line or nothing into the file, and the serialiser must read back what it wrote.
\<close>

theorem crash_always_recoverable:
  assumes "app_new cfg \<lparr>jr_durability = dc_durability cfg, jr_contents = []\<rparr> replay_default = Inr s"
    and "(daemon_step env)\<^sup>*\<^sup>* (s, []) (t, ts)" "whole_writes env"
    and "serde_ok (env_enc env) (env_dec env) (set (st_written t))"
  shows "\<exists>u. restart env t = Some u \<and>
    st_runtime u = finalize_after_replay (fold replay_apply (st_written t) replay_default)"
proof -
  have "whole_file env cfg (st_engine s) s"
    using fresh_start[OF assms(1)] by (simp add: whole_file_def)
  then have "whole_file env cfg (st_engine s) t"
    by (rule whole_file_pool.pool_invariant[OF assms(2)[unfolded daemon_step_def]])
  then show ?thesis
    using whole_file_restart[OF _ assms(3,4)] unfolding replayed_def by metis
qed

theorem crash_always_recoverable_witness:
  "\<exists>t ts u. (daemon_step test_env)\<^sup>*\<^sup>* (test_start, []) (t, ts) \<and> st_written t \<noteq> [] \<and> restart test_env t = Some u"
proof -
  obtain t ts where t: "(daemon_step test_env)\<^sup>*\<^sup>* (test_start, []) (t, ts)"
    "set (st_written t) = {EventPlanned ''evt-1'' [test_command], CommandDispatched (cmd_command_id test_command) 2}"
    by (rule sent_twice_reached)
  have "serde_ok (env_enc test_env) (env_dec test_env) (set (st_written t))"
    unfolding t(2) using test_serde by simp
  from crash_always_recoverable[OF test_start_new t(1) test_invariants(4) this]
  show ?thesis using t by fastforce
qed

text \<open>
  C4. At most once fails under concurrency. While the master's connection has journaled a command and has
  not dispatched it yet, the follower logs in and its connection dispatches the queued command; the
  master's connection then finds the new session and dispatches the same command again: the same
  order is sent twice.
\<close>

theorem connect_during_event_sends_twice:
  "\<exists>t ts. (daemon_step test_env)\<^sup>*\<^sup>* (test_start, []) (t, ts) \<and> sent_commands t = [test_command, test_command]"
  by (rule sent_twice_reached) blast

end
