(* ===== verification/Venues.thy ===== *)
theory Venues
  imports Handlers
begin

text \<open>
  Starting the direct venues, \<open>spawn\<close> of \<open>crates/copier-daemon/src/venues/mod.rs\<close> and
  \<open>spawn_hub\<close> of \<open>venues/ctrader.rs\<close>: which task is started for which account, with which secrets, and
  what stops the start-up. A started task is a value of the list that is the state.
\<close>

section \<open>Started tasks\<close>

record hub_account =
  ha_local :: account_config
  ha_ctid :: i64
  ha_access_token :: string

datatype venue =
    MetaApiAccount account_config metaapi_global string
  | CTraderHub ctrader_environment string string string "hub_account list"

type_synonym 'a starting = "(venue list, secret_error fault, 'a) handler"

definition spawn_venue :: "venue \<Rightarrow> unit starting" where
  "spawn_venue v = modifyS (\<lambda>started. started @ [v])"

definition secret :: "environment \<Rightarrow> string \<Rightarrow> string starting" where
  "secret env name = liftE (mapE Raised (read_secret (env_var env) name))"

definition expect :: "string \<Rightarrow> 'a option \<Rightarrow> 'a starting" where
  "expect message x = liftE (of_opt (Panicked message) x)"

fun prepare_accounts :: "environment \<Rightarrow> account_config list \<Rightarrow> hub_account list starting" where
  "prepare_accounts env [] = returnS []"
| "prepare_accounts env (account # rest) =
    bindS (expect ''validated cTrader account config'' (ac_ctrader account)) (\<lambda>direct.
    bindS (secret env (cta_access_token_env direct)) (\<lambda>access_token.
    bindS (prepare_accounts env rest) (\<lambda>prepared.
    returnS (\<lparr>ha_local = account, ha_ctid = cta_ctid_trader_account_id direct,
      ha_access_token = access_token\<rparr> # prepared))))"

definition spawn_hub ::
    "environment \<Rightarrow> daemon_config \<Rightarrow> ctrader_environment \<Rightarrow> account_config list \<Rightarrow> unit starting" where
  "spawn_hub env cfg kind accounts =
    bindS (expect ''validated cTrader global config'' (dc_ctrader cfg)) (\<lambda>global.
    bindS (secret env (ctg_client_id_env global)) (\<lambda>client_id.
    bindS (secret env (ctg_client_secret_env global)) (\<lambda>client_secret.
    bindS (prepare_accounts env accounts) (\<lambda>prepared.
    spawn_venue (CTraderHub kind (case kind of Live \<Rightarrow> ctg_live_url global | Demo \<Rightarrow> ctg_demo_url global)
      client_id client_secret prepared)))))"

text \<open>The loop over the accounts collects the cTrader accounts of each environment.\<close>

fun spawn_accounts :: "environment \<Rightarrow> daemon_config \<Rightarrow> account_config list \<Rightarrow>
    (account_config list \<times> account_config list) starting" where
  "spawn_accounts env cfg [] = returnS ([], [])"
| "spawn_accounts env cfg (account # rest) =
    (case ac_backend account of
       Agent \<Rightarrow> spawn_accounts env cfg rest
     | CTraderOpenApi \<Rightarrow>
         bindS (expect ''validated cTrader config'' (ac_ctrader account)) (\<lambda>direct.
         bindS (spawn_accounts env cfg rest) (\<lambda>(live, demo).
         returnS (case cta_environment direct of
             Live \<Rightarrow> (account # live, demo)
           | Demo \<Rightarrow> (live, account # demo))))
     | MetaApi \<Rightarrow>
         bindS (expect ''validated MetaApi config'' (dc_metaapi cfg)) (\<lambda>global.
         bindS (secret env (mag_auth_token_env global)) (\<lambda>auth_token.
         bindS (spawn_venue (MetaApiAccount account global auth_token)) (\<lambda>_.
         spawn_accounts env cfg rest))))"

definition spawn_venues :: "environment \<Rightarrow> daemon_config \<Rightarrow> unit starting" where
  "spawn_venues env cfg =
    bindS (spawn_accounts env cfg (dc_accounts cfg)) (\<lambda>(live, demo).
    bindS (if live \<noteq> [] then spawn_hub env cfg Live live else returnS ()) (\<lambda>_.
    if demo \<noteq> [] then spawn_hub env cfg Demo demo else returnS ()))"

section \<open>What is started\<close>

definition secret_of :: "environment \<Rightarrow> string \<Rightarrow> string" where
  "secret_of env name = (case env_var env name of None \<Rightarrow> [] | Some v \<Rightarrow> v)"

definition has_secret :: "environment \<Rightarrow> string \<Rightarrow> bool" where
  "has_secret env name \<longleftrightarrow> secret_of env name \<noteq> []"

definition hub_account_of :: "environment \<Rightarrow> account_config \<Rightarrow> hub_account" where
  "hub_account_of env account = (let direct = the (ac_ctrader account) in
     \<lparr>ha_local = account, ha_ctid = cta_ctid_trader_account_id direct,
      ha_access_token = secret_of env (cta_access_token_env direct)\<rparr>)"

definition in_environment :: "ctrader_environment \<Rightarrow> account_config \<Rightarrow> bool" where
  "in_environment kind account \<longleftrightarrow> ac_backend account = CTraderOpenApi \<and>
     map_option cta_environment (ac_ctrader account) = Some kind"

definition hub_of :: "environment \<Rightarrow> daemon_config \<Rightarrow> ctrader_environment \<Rightarrow> venue list" where
  "hub_of env cfg kind = (let accounts = filter (in_environment kind) (dc_accounts cfg); global = the (dc_ctrader cfg) in
     if accounts = [] then []
     else [CTraderHub kind (case kind of Live \<Rightarrow> ctg_live_url global | Demo \<Rightarrow> ctg_demo_url global)
       (secret_of env (ctg_client_id_env global)) (secret_of env (ctg_client_secret_env global))
       (map (hub_account_of env) accounts)])"

definition metaapi_of :: "environment \<Rightarrow> daemon_config \<Rightarrow> account_config list \<Rightarrow> venue list" where
  "metaapi_of env cfg accounts = (let global = the (dc_metaapi cfg) in
     map (\<lambda>a. MetaApiAccount a global (secret_of env (mag_auth_token_env global)))
       (filter (\<lambda>a. ac_backend a = MetaApi) accounts))"

text \<open>The environment variables the configuration names.\<close>

definition secrets_set :: "environment \<Rightarrow> daemon_config \<Rightarrow> bool" where
  "secrets_set env cfg \<longleftrightarrow>
     (\<forall>g. dc_metaapi cfg = Some g \<longrightarrow> has_secret env (mag_auth_token_env g)) \<and>
     (\<forall>g. dc_ctrader cfg = Some g \<longrightarrow> has_secret env (ctg_client_id_env g) \<and> has_secret env (ctg_client_secret_env g)) \<and>
     (\<forall>a \<in> set (dc_accounts cfg). \<forall>d. ac_backend a = CTraderOpenApi \<and> ac_ctrader a = Some d \<longrightarrow>
        has_secret env (cta_access_token_env d))"

lemma secret_found: "has_secret env name \<Longrightarrow> secret env name s = (Inr (secret_of env name), s)"
  by (auto simp: has_secret_def secret_of_def secret_def read_secret_def split: option.splits)

lemma bindS_secret: "has_secret env name \<Longrightarrow> bindS (secret env name) f s = f (secret_of env name) s"
  by (simp add: bindS_def secret_found)

lemma bindS_expect [simp]: "bindS (expect message (Some x)) f s = f x s"
  by (simp add: expect_def)

lemma bindS_spawn [simp]: "bindS (spawn_venue v) f s = f () (s @ [v])"
  by (simp add: spawn_venue_def)

lemma prepare_accounts_ok:
  assumes "\<forall>a \<in> set accounts. \<exists>d. ac_ctrader a = Some d \<and> has_secret env (cta_access_token_env d)"
  shows "prepare_accounts env accounts s = (Inr (map (hub_account_of env) accounts), s)"
  using assms
proof (induction accounts)
  case (Cons a accounts)
  then obtain d where "ac_ctrader a = Some d" "has_secret env (cta_access_token_env d)" by auto
  then show ?case using Cons
    by (simp add: bindS_secret hub_account_of_def Let_def bindS_def[of "prepare_accounts _ _"])
qed simp

lemma spawn_accounts_ok:
  assumes "\<forall>a \<in> set accounts. backend_ok cfg a"
    and "\<forall>g. dc_metaapi cfg = Some g \<longrightarrow> has_secret env (mag_auth_token_env g)"
  shows "spawn_accounts env cfg accounts s =
    (Inr (filter (in_environment Live) accounts, filter (in_environment Demo) accounts), s @ metaapi_of env cfg accounts)"
  using assms
proof (induction accounts arbitrary: s)
  case (Cons a accounts)
  have ih: "spawn_accounts env cfg accounts u =
    (Inr (filter (in_environment Live) accounts, filter (in_environment Demo) accounts), u @ metaapi_of env cfg accounts)" for u
    using Cons by simp
  have ok: "backend_ok cfg a" using Cons.prems by simp
  show ?case
  proof (cases "ac_backend a")
    case Agent
    then have "\<not> in_environment k a" for k by (simp add: in_environment_def)
    then show ?thesis using Agent by (simp add: ih metaapi_of_def Let_def)
  next
    case CTraderOpenApi
    then obtain d where d: "ac_ctrader a = Some d" using ok by (auto simp: backend_ok_def)
    then have "in_environment k a \<longleftrightarrow> cta_environment d = k" for k
      using CTraderOpenApi by (simp add: in_environment_def)
    then show ?thesis
      using CTraderOpenApi d
      by (cases "cta_environment d") (simp_all add: bindS_def[of "spawn_accounts _ _ _"] ih metaapi_of_def Let_def)
  next
    case MetaApi
    then obtain g where g: "dc_metaapi cfg = Some g" using ok by (auto simp: backend_ok_def)
    then have "has_secret env (mag_auth_token_env g)" using Cons.prems(2) by blast
    moreover have "\<not> in_environment k a" for k using MetaApi by (simp add: in_environment_def)
    ultimately show ?thesis using MetaApi g by (simp add: bindS_secret ih metaapi_of_def Let_def)
  qed
qed (simp add: metaapi_of_def Let_def)

lemma spawn_hub_ok:
  assumes "config_validate cfg = Inr ()" "secrets_set env cfg" "filter (in_environment kind) (dc_accounts cfg) \<noteq> []"
  shows "spawn_hub env cfg kind (filter (in_environment kind) (dc_accounts cfg)) s = (Inr (), s @ hub_of env cfg kind)"
proof -
  have ok: "backend_ok cfg a" if "a \<in> set (dc_accounts cfg)" for a
    using assms(1) that by (simp add: config_validate_Inr)
  have cta: "\<exists>d. ac_ctrader a = Some d \<and> has_secret env (cta_access_token_env d)"
    if "a \<in> set (filter (in_environment kind) (dc_accounts cfg))" for a
    using that assms(2) by (auto simp: in_environment_def secrets_set_def)
  obtain a where "a \<in> set (filter (in_environment kind) (dc_accounts cfg))" using assms(3) by fastforce
  then obtain g where g: "dc_ctrader cfg = Some g" using ok[of a] by (auto simp: in_environment_def backend_ok_def)
  then have "has_secret env (ctg_client_id_env g)" "has_secret env (ctg_client_secret_env g)"
    using assms(2) by (simp_all add: secrets_set_def)
  moreover have p: "prepare_accounts env (filter (in_environment kind) (dc_accounts cfg)) s =
      (Inr (map (hub_account_of env) (filter (in_environment kind) (dc_accounts cfg))), s)"
    using cta by (intro prepare_accounts_ok) blast
  ultimately show ?thesis
    using g assms(3)
    by (simp add: spawn_hub_def bindS_secret bindS_def[of "prepare_accounts _ _"] hub_of_def Let_def spawn_venue_def)
qed

section \<open>Properties\<close>

text \<open>
  Every direct account is served exactly once. With a validated configuration whose environment
  variables are set, the start-up succeeds and starts, in this order, one task for every MetaApi
  account, one hub for all the live cTrader accounts if there are any and one for all the demo
  accounts, each with the secrets its variables hold, and nothing for the accounts of agents.
\<close>

theorem venues_started_exactly:
  assumes "config_validate cfg = Inr ()" "secrets_set env cfg"
  shows "spawn_venues env cfg [] =
    (Inr (), metaapi_of env cfg (dc_accounts cfg) @ hub_of env cfg Live @ hub_of env cfg Demo)"
proof -
  have "\<forall>a \<in> set (dc_accounts cfg). backend_ok cfg a" using assms(1) by (simp add: config_validate_Inr)
  then have a: "spawn_accounts env cfg (dc_accounts cfg) [] =
      (Inr (filter (in_environment Live) (dc_accounts cfg), filter (in_environment Demo) (dc_accounts cfg)),
       metaapi_of env cfg (dc_accounts cfg))"
    using assms(2) by (subst spawn_accounts_ok) (simp_all add: secrets_set_def)
  have h: "(if filter (in_environment k) (dc_accounts cfg) \<noteq> []
      then spawn_hub env cfg k (filter (in_environment k) (dc_accounts cfg)) else returnS ()) s =
      (Inr (), s @ hub_of env cfg k)" for k s
    using spawn_hub_ok[OF assms, of k s] by (simp add: hub_of_def Let_def)
  show ?thesis
    by (simp only: spawn_venues_def bindS_def a h prod.case sum.case append.assoc)
qed

text \<open>The configuration of the witness: a live cTrader follower next to the accounts of the tests.\<close>

definition direct_account :: account_config where
  "direct_account = (test_account ''ct'' Follower)\<lparr>ac_platform := CTrader, ac_backend := CTraderOpenApi,
     ac_ctrader := Some \<lparr>cta_ctid_trader_account_id = 5, cta_access_token_env = ''T'', cta_environment = Live\<rparr>\<rparr>"

definition direct_config :: daemon_config where
  "direct_config = test_config\<lparr>dc_accounts := dc_accounts test_config @ [direct_account],
     dc_ctrader := Some \<lparr>ctg_client_id_env = ''I'', ctg_client_secret_env = ''S'',
       ctg_live_url = default_ctrader_live_url, ctg_demo_url = default_ctrader_demo_url\<rparr>\<rparr>"

lemma direct_config_ready:
  "config_validate direct_config = Inr ()"
  "secrets_set (test_env\<lparr>env_var := (\<lambda>n. Some (''value of '' @ n))\<rparr>) direct_config"
proof -
  have "\<not> trim_is_empty ''ct''" "\<not> trim_is_empty ''T''" "\<not> trim_is_empty ''I''" "\<not> trim_is_empty ''S''"
    by code_simp+
  then show "config_validate direct_config = Inr ()"
    using test_config_valid
    by (simp add: config_validate_Inr direct_config_def direct_account_def test_config_def test_account_def
        backend_ok_def globals_ok_def) blast
  show "secrets_set (test_env\<lparr>env_var := (\<lambda>n. Some (''value of '' @ n))\<rparr>) direct_config"
    by (simp add: secrets_set_def has_secret_def secret_of_def direct_config_def test_config_def)
qed

theorem venues_started_exactly_witness:
  "spawn_venues (test_env\<lparr>env_var := (\<lambda>n. Some (''value of '' @ n))\<rparr>) direct_config [] =
    (Inr (), [CTraderHub Live default_ctrader_live_url ''value of I'' ''value of S''
      [\<lparr>ha_local = direct_account, ha_ctid = 5, ha_access_token = ''value of T''\<rparr>]])"
  using venues_started_exactly[OF direct_config_ready]
  by (simp add: metaapi_of_def hub_of_def hub_account_of_def in_environment_def Let_def secret_of_def
      direct_config_def direct_account_def test_config_def test_account_def)

end
