(* ===== verification/Json.thy ===== *)
theory Json
  imports Venues
begin

text \<open>
  What the direct venues use of \<open>serde_json\<close>: reading a value goes through its accessors, which are
  parameters; a value the program builds with \<open>json!\<close> is the list of its fields. Also what both
  venues share: the comparison of optional prices and the environment of a venue.
\<close>

section \<open>Values that are read\<close>

text \<open>
  The accessors of \<open>serde_json::Value\<close> and its parser; \<open>js_empty\<close> is the value \<open>json!({})\<close>.
\<close>

record 'j json_api =
  js_parse :: "string \<Rightarrow> 'j option"
  js_get :: "'j \<Rightarrow> string \<Rightarrow> 'j option"
  js_i64 :: "'j \<Rightarrow> i64 option"
  js_u64 :: "'j \<Rightarrow> u64 option"
  js_f64 :: "'j \<Rightarrow> f64 option"
  js_str :: "'j \<Rightarrow> string option"
  js_array :: "'j \<Rightarrow> 'j list option"
  js_empty :: 'j

text \<open>\<open>Option::and_then\<close> and \<open>Option::or_else\<close>.\<close>

definition and_then :: "'a option \<Rightarrow> ('a \<Rightarrow> 'b option) \<Rightarrow> 'b option" where
  "and_then x f = (case x of None \<Rightarrow> None | Some y \<Rightarrow> f y)"

definition or_else :: "'a option \<Rightarrow> 'a option \<Rightarrow> 'a option" where
  "or_else x y = (case x of None \<Rightarrow> y | Some z \<Rightarrow> Some z)"

definition unwrap_or :: "'a option \<Rightarrow> 'a \<Rightarrow> 'a" where
  "unwrap_or x y = (case x of None \<Rightarrow> y | Some z \<Rightarrow> z)"

lemma option_simps [simp]:
  "and_then None f = None" "and_then (Some y) f = f y" "or_else None u = u" "or_else (Some z) u = Some z"
  "unwrap_or None v = v" "unwrap_or (Some w) v = w"
  by (simp_all add: and_then_def or_else_def unwrap_or_def)

section \<open>Values that are built\<close>

datatype payload_value =
    PInt i64
  | PNat u64
  | PNum f64
  | PText string
  | PBool bool
  | PNull
  | PIds "i64 list"

type_synonym payload = "(string \<times> payload_value) list"

text \<open>\<open>payload["name"] = json!(price)\<close>, when there is a price.\<close>

definition with_price :: "string \<Rightarrow> f64 option \<Rightarrow> payload \<Rightarrow> payload" where
  "with_price name price payload =
    (case price of None \<Rightarrow> payload | Some v \<Rightarrow> payload @ [(name, PNum v)])"

section \<open>Prices\<close>

definition price_tolerance :: f64 where "price_tolerance = of_frac False 1 (10 ^ 10)"

definition changed_price :: "f64 option \<Rightarrow> f64 option \<Rightarrow> bool" where
  "changed_price left right =
    (case (left, right) of
       (Some l, Some r) \<Rightarrow> flt price_tolerance (fabs (fsub l r))
     | (None, None) \<Rightarrow> False
     | _ \<Rightarrow> True)"

text \<open>\<open>f64 as i64\<close>\<close>

definition f64_to_i64 :: "f64 \<Rightarrow> i64" where
  "f64_to_i64 x = word_of_int (f64_to_int x)"

section \<open>The environment of a venue\<close>

text \<open>Whether the n-th message to the provider can be sent.\<close>

record 'j venue_env =
  ve_env :: environment
  ve_json :: "'j json_api"
  ve_send_ok :: "nat \<Rightarrow> bool"

text \<open>A handler of the daemon within a venue's own state.\<close>

definition on_part :: "('v \<Rightarrow> 's) \<Rightarrow> ('s \<Rightarrow> 'v \<Rightarrow> 'v) \<Rightarrow> ('s, 'e, 'a) handler \<Rightarrow> ('v, 'e, 'a) handler" where
  "on_part get put m v = (case m (get v) of (r, s) \<Rightarrow> (r, put s v))"

lemma keeps_on_part:
  assumes "keeps I m" "\<And>s v. get (put s v) = s"
  shows "keeps (\<lambda>v. I (get v)) (on_part get put m)"
  using assms by (auto simp: keeps_def on_part_def split: prod.split)

section \<open>Values of the witnesses\<close>

text \<open>A small kind of values with its accessors, on which the theorems about the venues are applied.\<close>

datatype sample_json = SInt i64 | SText string | SList "sample_json list" | SObject "(string \<times> sample_json) list"

definition sample_js :: "sample_json json_api" where
  "sample_js = \<lparr>js_parse = (\<lambda>_. None),
     js_get = (\<lambda>v name. case v of SObject fs \<Rightarrow> map_of fs name | _ \<Rightarrow> None),
     js_i64 = (\<lambda>v. case v of SInt n \<Rightarrow> Some n | _ \<Rightarrow> None), js_u64 = (\<lambda>_. None), js_f64 = (\<lambda>_. None),
     js_str = (\<lambda>v. case v of SText t \<Rightarrow> Some t | _ \<Rightarrow> None),
     js_array = (\<lambda>v. case v of SList vs \<Rightarrow> Some vs | _ \<Rightarrow> None), js_empty = SObject []\<rparr>"

definition sample_ve :: "sample_json venue_env" where
  "sample_ve = \<lparr>ve_env = calm_env, ve_json = sample_js, ve_send_ok = (\<lambda>_. True)\<rparr>"

lemma sample_js_simps [simp]:
  "js_get sample_js (SObject fs) name = map_of fs name" "js_i64 sample_js (SInt n) = Some n"
  "js_i64 sample_js (SText t) = None" "js_i64 sample_js (SObject fs) = None"
  "js_str sample_js (SText t) = Some t" "js_str sample_js (SInt n) = None" "js_u64 sample_js v = None"
  "js_f64 sample_js v = None" "js_array sample_js (SList vs) = Some vs"
  "ve_env sample_ve = calm_env" "ve_json sample_ve = sample_js"
  by (simp_all add: sample_js_def sample_ve_def)

end
