(* ===== verification/CTrader.thy ===== *)
theory CTrader
  imports Json
begin

text \<open>
  The hub of the cTrader Open API, \<open>crates/copier-daemon/src/venues/ctrader.rs\<close>: the log-in of every
  account and its symbols and positions, the messages for commands, the outcome of orders and the
  protection of filled ones, and the events of position changes. The web socket and \<open>serde_json\<close>
  are parameters.
\<close>

section \<open>State\<close>

definition APPLICATION_AUTH_REQ :: i64 where "APPLICATION_AUTH_REQ = 2100"
definition APPLICATION_AUTH_RES :: i64 where "APPLICATION_AUTH_RES = 2101"
definition ACCOUNT_AUTH_REQ :: i64 where "ACCOUNT_AUTH_REQ = 2102"
definition ACCOUNT_AUTH_RES :: i64 where "ACCOUNT_AUTH_RES = 2103"
definition NEW_ORDER_REQ :: i64 where "NEW_ORDER_REQ = 2106"
definition AMEND_POSITION_SLTP_REQ :: i64 where "AMEND_POSITION_SLTP_REQ = 2110"
definition CLOSE_POSITION_REQ :: i64 where "CLOSE_POSITION_REQ = 2111"
definition SYMBOLS_LIST_REQ :: i64 where "SYMBOLS_LIST_REQ = 2114"
definition SYMBOLS_LIST_RES :: i64 where "SYMBOLS_LIST_RES = 2115"
definition SYMBOL_BY_ID_REQ :: i64 where "SYMBOL_BY_ID_REQ = 2116"
definition SYMBOL_BY_ID_RES :: i64 where "SYMBOL_BY_ID_RES = 2117"
definition RECONCILE_REQ :: i64 where "RECONCILE_REQ = 2124"
definition RECONCILE_RES :: i64 where "RECONCILE_RES = 2125"
definition EXECUTION_EVENT :: i64 where "EXECUTION_EVENT = 2126"
definition ORDER_ERROR_EVENT :: i64 where "ORDER_ERROR_EVENT = 2132"
definition ERROR_RES :: i64 where "ERROR_RES = 2142"
definition HEARTBEAT_EVENT :: i64 where "HEARTBEAT_EVENT = 51"

lemmas payload_types = APPLICATION_AUTH_REQ_def APPLICATION_AUTH_RES_def ACCOUNT_AUTH_REQ_def
  ACCOUNT_AUTH_RES_def NEW_ORDER_REQ_def AMEND_POSITION_SLTP_REQ_def CLOSE_POSITION_REQ_def
  SYMBOLS_LIST_REQ_def SYMBOLS_LIST_RES_def SYMBOL_BY_ID_REQ_def SYMBOL_BY_ID_RES_def RECONCILE_REQ_def
  RECONCILE_RES_def EXECUTION_EVENT_def ORDER_ERROR_EVENT_def ERROR_RES_def HEARTBEAT_EVENT_def

record symbol_info =
  si_id :: i64
  si_name :: string
  si_lot_size_cents :: f64

record ct_position =
  cp_id :: string
  cp_symbol :: string
  cp_side :: side
  cp_volume_lots :: f64
  cp_price :: "f64 option"
  cp_stop_loss :: "f64 option"
  cp_take_profit :: "f64 option"
  cp_origin_command_id :: "string option"

record account_runtime =
  ar_account :: hub_account
  ar_session_id :: u64
  ar_symbols_by_name :: "string \<rightharpoonup> symbol_info"
  ar_symbols_by_id :: "i64 \<rightharpoonup> symbol_info"
  ar_positions :: "string \<rightharpoonup> ct_position"

text \<open>What the web socket delivers next: a message, or an error; the end of the list is its end.\<close>

datatype ws_message = WsText string | WsBinary string | WsPing | WsPong | WsClose | WsOther
datatype ws_read = WsMessage ws_message | WsFailed

text \<open>
  The hub: the shared state of the daemon, the accounts by their cTrader id, the requests that await
  their outcome, what the socket will deliver and what was sent on it. \<open>hb_order\<close> is the order in which the
  hash map of the accounts is traversed.
\<close>

record hub =
  hb_app :: app_state
  hb_runtimes :: "i64 \<rightharpoonup> account_runtime"
  hb_pending :: "string \<rightharpoonup> execution_command"
  hb_protection :: "string \<rightharpoonup> execution_command \<times> string"
  hb_socket :: "ws_read list"
  hb_sent :: "(i64 \<times> string \<times> payload) list"
  hb_order :: "i64 list"

datatype hub_error =
    HubRuntime runtime_error
  | HubMessage string
  | HubSocket
  | HubBadJson
  | HubEvent model_error

type_synonym 'a hub_call = "(hub, hub_error fault, 'a) handler"

definition hub_fail :: "string \<Rightarrow> hub_error fault" where
  "hub_fail message = Raised (HubMessage message)"

definition on_app :: "'a runtime \<Rightarrow> 'a hub_call" where
  "on_app m = on_part hb_app (\<lambda>s h. h\<lparr>hb_app := s\<rparr>) (failing (map_fault HubRuntime) m)"

definition send_json :: "'j venue_env \<Rightarrow> i64 \<Rightarrow> string \<Rightarrow> payload \<Rightarrow> unit hub_call" where
  "send_json ve payload_type client_msg_id payload h =
    (if ve_send_ok ve (length (hb_sent h))
     then (Inr (), h\<lparr>hb_sent := hb_sent h @ [(payload_type, client_msg_id, payload)]\<rparr>)
     else (Inl (Raised HubSocket), h))"

text \<open>\<open>runtimes.values().find(..)\<close> by the local account id.\<close>

definition runtime_of :: "string \<Rightarrow> hub \<Rightarrow> account_runtime option" where
  "runtime_of local_id h =
    find (\<lambda>r. ac_id (ha_local (ar_account r)) = local_id) (List.map_filter (hb_runtimes h) (hb_order h))"

section \<open>Reading values\<close>

definition as_i64 :: "'j json_api \<Rightarrow> 'j \<Rightarrow> i64 option" where
  "as_i64 js v = or_else (js_i64 js v)
    (or_else (and_then (js_u64 js v) (\<lambda>n. if unat n < 2 ^ 63 then Some (word_of_nat (unat n)) else None))
      (and_then (js_str js v) parse_i64))"

definition as_f64 :: "'j json_api \<Rightarrow> 'j \<Rightarrow> f64 option" where
  "as_f64 js v = or_else (js_f64 js v)
    (or_else (map_option (\<lambda>n. f64_of_int (sint n)) (js_i64 js v))
      (or_else (map_option (\<lambda>n. f64_of_int (uint n)) (js_u64 js v))
        (and_then (js_str js v) parse_f64_str)))"

definition value_to_string :: "'j json_api \<Rightarrow> 'j \<Rightarrow> string option" where
  "value_to_string js v = or_else (js_str js v)
    (or_else (map_option show_i64 (js_i64 js v)) (map_option (\<lambda>n. show_nat (unat n)) (js_u64 js v)))"

definition enum_number :: "'j json_api \<Rightarrow> 'j option \<Rightarrow> (string \<times> i64) list \<Rightarrow> i64 option" where
  "enum_number js value names =
    and_then value (\<lambda>v. or_else (as_i64 js v) (and_then (js_str js v) (map_of names)))"

text \<open>A field of a value, read in one way.\<close>

definition field_as :: "'j json_api \<Rightarrow> 'j \<Rightarrow> string \<Rightarrow> ('j \<Rightarrow> 'a option) \<Rightarrow> 'a option" where
  "field_as js v name f = and_then (js_get js v name) f"

definition execution_types :: "(string \<times> i64) list" where
  "execution_types =
    [(''ORDER_ACCEPTED'', 2), (''ORDER_FILLED'', 3), (''ORDER_REPLACED'', 4), (''ORDER_CANCELLED'', 5),
     (''ORDER_EXPIRED'', 6), (''ORDER_REJECTED'', 7), (''ORDER_CANCEL_REJECTED'', 8), (''ORDER_PARTIAL_FILL'', 11)]"

definition position_statuses :: "(string \<times> i64) list" where
  "position_statuses =
    [(''POSITION_STATUS_OPEN'', 1), (''POSITION_STATUS_CLOSED'', 2), (''POSITION_STATUS_CREATED'', 3),
     (''POSITION_STATUS_ERROR'', 4)]"

definition trade_sides :: "(string \<times> i64) list" where
  "trade_sides = [(''BUY'', 1), (''SELL'', 2)]"

definition label_prefix :: string where "label_prefix = ''CopierR:''"

definition strip_prefix :: "string \<Rightarrow> string \<Rightarrow> string option" where
  "strip_prefix p s = (if starts_with p s then Some (drop (length p) s) else None)"

definition parse_position :: "'j json_api \<Rightarrow> 'j \<Rightarrow> (i64 \<rightharpoonup> symbol_info) \<Rightarrow> hub_error fault + ct_position" where
  "parse_position js v symbols =
    bindE (of_opt (hub_fail ''cTrader position omitted id'') (field_as js v ''positionId'' (value_to_string js))) (\<lambda>i.
    bindE (of_opt (hub_fail ''cTrader position omitted tradeData'') (js_get js v ''tradeData'')) (\<lambda>trade.
    bindE (of_opt (hub_fail ''cTrader position omitted symbol id'') (field_as js trade ''symbolId'' (as_i64 js))) (\<lambda>symbol_id.
    bindE (of_opt (hub_fail (''unknown cTrader symbol id '' @ show_i64 symbol_id)) (symbols symbol_id)) (\<lambda>symbol.
    let volume_cents = unwrap_or (field_as js trade ''volume'' (as_f64 js)) f64_zero;
        side_number = unwrap_or (enum_number js (js_get js trade ''tradeSide'') trade_sides) 0 in
    bindE (if side_number = 1 then Inr Buy else if side_number = 2 then Inr Sell
      else Inl (hub_fail (''unknown cTrader trade side '' @ show_i64 side_number))) (\<lambda>side.
    let label = unwrap_or (field_as js trade ''label'' (js_str js)) [] in
    Inr \<lparr>cp_id = i, cp_symbol = si_name symbol, cp_side = side,
      cp_volume_lots = fdiv volume_cents (si_lot_size_cents symbol),
      cp_price = field_as js v ''price'' (as_f64 js), cp_stop_loss = field_as js v ''stopLoss'' (as_f64 js),
      cp_take_profit = field_as js v ''takeProfit'' (as_f64 js),
      cp_origin_command_id = strip_prefix label_prefix label\<rparr>)))))"

definition execution_external_id :: "'j json_api \<Rightarrow> 'j \<Rightarrow> string option" where
  "execution_external_id js payload =
    or_else (and_then (js_get js payload ''position'') (\<lambda>p. field_as js p ''positionId'' (value_to_string js)))
      (and_then (js_get js payload ''order'') (\<lambda>p. field_as js p ''orderId'' (value_to_string js)))"

fun parse_ws_message :: "'j json_api \<Rightarrow> ws_message \<Rightarrow> hub_error fault + 'j option" where
  "parse_ws_message js (WsText text) = bindE (of_opt (Raised HubBadJson) (js_parse js text)) (\<lambda>v. Inr (Some v))"
| "parse_ws_message js (WsBinary bytes) =
    (if \<not> utf8_valid bytes then Inl (Raised HubBadJson)
     else bindE (of_opt (Raised HubBadJson) (js_parse js bytes)) (\<lambda>v. Inr (Some v)))"
| "parse_ws_message js WsPing = Inr None"
| "parse_ws_message js WsPong = Inr None"
| "parse_ws_message js WsClose = Inl (Raised HubSocket)"
| "parse_ws_message js WsOther = Inr None"

section \<open>Symbols and positions at start-up\<close>

fun light_symbols :: "'j json_api \<Rightarrow> 'j list \<Rightarrow> hub_error fault + (i64 \<times> string) list" where
  "light_symbols js [] = Inr []"
| "light_symbols js (v # vs) =
    bindE (of_opt (hub_fail ''cTrader symbol omitted id'') (field_as js v ''symbolId'' (as_i64 js))) (\<lambda>i.
    let name = unwrap_or (field_as js v ''symbolName'' (js_str js)) [] in
    bindE (light_symbols js vs) (\<lambda>rest. Inr (if name \<noteq> [] then (i, name) # rest else rest)))"

definition parse_light_symbols :: "'j json_api \<Rightarrow> 'j \<Rightarrow> hub_error fault + (i64 \<times> string) list" where
  "parse_light_symbols js v =
    bindE (of_opt (hub_fail ''cTrader symbols response omitted symbols'')
      (and_then (js_get js v ''payload'') (\<lambda>p. field_as js p ''symbol'' (js_array js)))) (light_symbols js)"

text \<open>The loop over the details; later entries replace earlier ones, as do those of the name table.\<close>

fun symbol_details :: "'j json_api \<Rightarrow> (i64 \<rightharpoonup> string) \<Rightarrow> (string \<rightharpoonup> symbol_info) \<times> (i64 \<rightharpoonup> symbol_info) \<Rightarrow>
    'j list \<Rightarrow> hub_error fault + (string \<rightharpoonup> symbol_info) \<times> (i64 \<rightharpoonup> symbol_info)" where
  "symbol_details js names tables [] = Inr tables"
| "symbol_details js names tables (v # vs) =
    bindE (of_opt (hub_fail ''cTrader full symbol omitted id'') (field_as js v ''symbolId'' (as_i64 js))) (\<lambda>i.
      case names i of
        None \<Rightarrow> symbol_details js names tables vs
      | Some name \<Rightarrow>
          let info = \<lparr>si_id = i, si_name = name,
            si_lot_size_cents = unwrap_or (field_as js v ''lotSize'' (as_f64 js)) (of_frac False 10000000 1)\<rparr> in
          symbol_details js names ((fst tables)(name \<mapsto> info), (snd tables)(i \<mapsto> info)) vs)"

definition parse_symbol_details :: "'j json_api \<Rightarrow> (i64 \<times> string) list \<Rightarrow> 'j \<Rightarrow>
    hub_error fault + (string \<rightharpoonup> symbol_info) \<times> (i64 \<rightharpoonup> symbol_info)" where
  "parse_symbol_details js light v =
    bindE (of_opt (hub_fail ''cTrader symbol details response omitted symbols'')
      (and_then (js_get js v ''payload'') (\<lambda>p. field_as js p ''symbol'' (js_array js))))
      (symbol_details js (map_of (rev light)) (Map.empty, Map.empty))"

fun reconcile_positions :: "'j json_api \<Rightarrow> (i64 \<rightharpoonup> symbol_info) \<Rightarrow> (string \<rightharpoonup> ct_position) \<Rightarrow> 'j list \<Rightarrow>
    hub_error fault + (string \<rightharpoonup> ct_position)" where
  "reconcile_positions js symbols positions [] = Inr positions"
| "reconcile_positions js symbols positions (v # vs) =
    bindE (parse_position js v symbols) (\<lambda>p.
      reconcile_positions js symbols (positions(cp_id p \<mapsto> p)) vs)"

definition parse_reconcile_positions ::
    "'j json_api \<Rightarrow> 'j \<Rightarrow> (i64 \<rightharpoonup> symbol_info) \<Rightarrow> hub_error fault + (string \<rightharpoonup> ct_position)" where
  "parse_reconcile_positions js v symbols =
    reconcile_positions js symbols Map.empty
      (unwrap_or (and_then (js_get js v ''payload'') (\<lambda>p. field_as js p ''position'' (js_array js))) [])"

section \<open>The message for a command\<close>

definition parse_target_position :: "execution_command \<Rightarrow> string + i64" where
  "parse_target_position c =
    bindE (of_opt ''cTrader command requires target position id'' (cmd_target_order_id c)) (\<lambda>i.
    of_opt ''invalid cTrader target position id'' (parse_i64 i))"

text \<open>The volume in cents: \<open>(lots * lot_size).round() as i64\<close>.\<close>

definition cents :: "f64 \<Rightarrow> symbol_info \<Rightarrow> i64" where
  "cents lots symbol = f64_to_i64 (fround (fmul lots (si_lot_size_cents symbol)))"

definition order_label :: "execution_command \<Rightarrow> string" where
  "order_label c = label_prefix @ cmd_command_id c"

definition command_message :: "account_runtime \<Rightarrow> execution_command \<Rightarrow> string + i64 \<times> payload" where
  "command_message r c =
    (let ctid = ha_ctid (ar_account r);
         find_symbol = of_opt (''cTrader symbol '' @ cmd_symbol c @ '' not found'') (ar_symbols_by_name r (cmd_symbol c)) in
     (case cmd_action c of
        Open \<Rightarrow>
          bindE find_symbol (\<lambda>symbol.
          bindE (case cmd_side c of Some Buy \<Rightarrow> Inr 1 | Some Sell \<Rightarrow> Inr 2
            | None \<Rightarrow> Inl ''cTrader open command omitted side'') (\<lambda>side.
          let volume = cents (cmd_volume c) symbol in
          if sint volume \<le> 0 then Inl ''cTrader normalized volume is zero''
          else Inr (NEW_ORDER_REQ, [(''ctidTraderAccountId'', PInt ctid), (''symbolId'', PInt (si_id symbol)),
            (''orderType'', PInt 1), (''tradeSide'', PInt side), (''volume'', PInt volume),
            (''clientOrderId'', PText (cmd_command_id c)), (''label'', PText (order_label c))])))
      | Modify \<Rightarrow>
          bindE (parse_target_position c) (\<lambda>position_id.
          Inr (AMEND_POSITION_SLTP_REQ,
            with_price ''takeProfit'' (cmd_take_profit c) (with_price ''stopLoss'' (cmd_stop_loss c)
              [(''ctidTraderAccountId'', PInt ctid), (''positionId'', PInt position_id)])))
      | _ \<Rightarrow>
          bindE (parse_target_position c) (\<lambda>position_id.
          bindE find_symbol (\<lambda>symbol.
          let lots = (if cmd_action c = Close
            then unwrap_or (map_option cp_volume_lots (ar_positions r (show_i64 position_id))) (cmd_volume c)
            else cmd_volume c) in
          Inr (CLOSE_POSITION_REQ, [(''ctidTraderAccountId'', PInt ctid), (''positionId'', PInt position_id),
            (''volume'', PInt (cents lots symbol))])))))"

section \<open>Events of position changes\<close>

definition event_name :: "string \<Rightarrow> string \<Rightarrow> string \<Rightarrow> trade_action \<Rightarrow> i64 \<Rightarrow> string" where
  "event_name venue account_id position_id action now =
     venue @ '':'' @ account_id @ '':'' @ position_id @ '':'' @ action_to_string action @ '':'' @ show_i64 now"

definition position_event ::
    "account_config \<Rightarrow> ct_position \<Rightarrow> trade_action \<Rightarrow> f64 \<Rightarrow> f64 option \<Rightarrow> i64 \<Rightarrow> trade_event" where
  "position_event account p action volume remaining_volume now =
    \<lparr>ev_event_id = event_name ''ctrader'' (ac_id account) (cp_id p) action now,
     ev_source_account_id = ac_id account, ev_platform = ac_platform account, ev_action = action,
     ev_source_order_id = cp_id p, ev_symbol = cp_symbol p, ev_side = Some (cp_side p), ev_volume = volume,
     ev_remaining_volume = remaining_volume, ev_price = cp_price p, ev_stop_loss = cp_stop_loss p,
     ev_take_profit = cp_take_profit p, ev_timestamp_unix_ns = now,
     ev_origin_command_id = cp_origin_command_id p\<rparr>"

definition emit_event :: "'j venue_env \<Rightarrow> account_runtime \<Rightarrow> ct_position \<Rightarrow> trade_action \<Rightarrow> f64 \<Rightarrow>
    f64 option \<Rightarrow> unit hub_call" where
  "emit_event ve r p action volume remaining_volume =
    (let account = ha_local (ar_account r) in
     bindS (on_app (unix_time_ns (ve_env ve))) (\<lambda>now.
     let event = position_event account p action volume remaining_volume now in
     bindS (liftE (mapE (\<lambda>e. Raised (HubEvent e)) (event_validate event))) (\<lambda>_.
     on_app (handle_frame (ve_env ve) (ac_id account) (Event event)))))"

definition set_positions :: "i64 \<Rightarrow> ((string \<rightharpoonup> ct_position) \<Rightarrow> (string \<rightharpoonup> ct_position)) \<Rightarrow> hub \<Rightarrow> hub" where
  "set_positions ctid f h =
    h\<lparr>hb_runtimes := (hb_runtimes h)(ctid := map_option (\<lambda>r. r\<lparr>ar_positions := f (ar_positions r)\<rparr>) (hb_runtimes h ctid))\<rparr>"

text \<open>The event a changed position gives, if any: the action, its volume and what remains.\<close>

definition position_change :: "ct_position option \<Rightarrow> ct_position \<Rightarrow> (trade_action \<times> f64 \<times> f64 option) option" where
  "position_change previous current =
    (case previous of
       None \<Rightarrow> Some (Open, cp_volume_lots current, Some (cp_volume_lots current))
     | Some old \<Rightarrow>
         if flt (fadd (cp_volume_lots current) f64_epsilon) (cp_volume_lots old)
           then Some (Reduce, fsub (cp_volume_lots old) (cp_volume_lots current), Some (cp_volume_lots current))
         else if flt (fadd (cp_volume_lots old) f64_epsilon) (cp_volume_lots current) then None
         else if changed_price (cp_stop_loss old) (cp_stop_loss current) \<or>
             changed_price (cp_take_profit old) (cp_take_profit current)
           then Some (Modify, cp_volume_lots current, Some (cp_volume_lots current))
         else None)"

definition update_position :: "'j venue_env \<Rightarrow> i64 \<Rightarrow> account_runtime \<Rightarrow> 'j \<Rightarrow> unit hub_call" where
  "update_position ve ctid r payload =
    (let js = ve_json ve; publishes = can_publish (ac_role (ha_local (ar_account r))) in
     case js_get js payload ''position'' of
       None \<Rightarrow> returnS ()
     | Some position \<Rightarrow>
         bindS (liftE (of_opt (hub_fail ''cTrader position omitted id'')
             (field_as js position ''positionId'' (value_to_string js)))) (\<lambda>position_id.
         if unwrap_or (enum_number js (js_get js position ''positionStatus'') position_statuses) 1 = 2
         then (case ar_positions r position_id of
             None \<Rightarrow> returnS ()
           | Some old \<Rightarrow>
               bindS (modifyS (set_positions ctid (\<lambda>m. m(position_id := None)))) (\<lambda>_.
               if publishes then emit_event ve r old Close (cp_volume_lots old) (Some f64_zero)
               else returnS ()))
         else bindS (liftE (parse_position js position (ar_symbols_by_id r))) (\<lambda>current.
           bindS (case position_change (ar_positions r position_id) current of
               Some (action, volume, remaining) \<Rightarrow>
                 if publishes then emit_event ve r current action volume remaining else returnS ()
             | None \<Rightarrow> returnS ()) (\<lambda>_.
           modifyS (set_positions ctid (\<lambda>m. m(position_id \<mapsto> current)))))))"

text \<open>\<open>runtimes.get_mut(&ctid)\<close> and the update, when the account is known.\<close>

definition update_account :: "'j venue_env \<Rightarrow> i64 \<Rightarrow> 'j \<Rightarrow> unit hub_call" where
  "update_account ve ctid payload =
    bindS (getS (\<lambda>h. hb_runtimes h ctid)) (\<lambda>found.
      case found of None \<Rightarrow> returnS () | Some r \<Rightarrow> update_position ve ctid r payload)"

section \<open>Outcomes of orders\<close>

definition make_ack :: "execution_command \<Rightarrow> ack_status \<Rightarrow> string option \<Rightarrow> i64 \<Rightarrow> string option \<Rightarrow> execution_ack" where
  "make_ack c status external_id now message =
    \<lparr>ack_command_id = cmd_command_id c, ack_account_id = cmd_target_account_id c, ack_status = status,
     ack_external_id = external_id, ack_timestamp_unix_ns = now, ack_message = message\<rparr>"

definition acknowledge :: "'j venue_env \<Rightarrow> execution_command \<Rightarrow> ack_status \<Rightarrow> string option \<Rightarrow> string option \<Rightarrow> unit hub_call" where
  "acknowledge ve c status external_id message =
    bindS (on_app (unix_time_ns (ve_env ve))) (\<lambda>now.
    on_app (handle_frame (ve_env ve) (cmd_target_account_id c) (Ack (make_ack c status external_id now message))))"

definition unknown_ack :: "execution_command \<Rightarrow> string \<Rightarrow> i64 \<Rightarrow> execution_ack" where
  "unknown_ack c message now = make_ack c Unknown None now (Some message)"

definition outcome_of :: "i64 \<Rightarrow> ack_status" where
  "outcome_of execution_type =
    (if execution_type \<in> {3, 4} then Filled
     else if execution_type \<in> {5, 6, 7, 8} then Rejected else Unknown)"

definition take_pending :: "string \<Rightarrow> execution_command option hub_call" where
  "take_pending i h = (Inr (hb_pending h i), h\<lparr>hb_pending := (hb_pending h)(i := None)\<rparr>)"

definition take_protection :: "string \<Rightarrow> (execution_command \<times> string) option hub_call" where
  "take_protection i h = (Inr (hb_protection h i), h\<lparr>hb_protection := (hb_protection h)(i := None)\<rparr>)"

text \<open>A filled opening with a stop or a target: the protection of the new position is requested.\<close>

definition protect_position :: "'j venue_env \<Rightarrow> execution_command \<Rightarrow> string option \<Rightarrow> unit hub_call" where
  "protect_position ve c external_id =
    (case external_id of
       Some position_id \<Rightarrow>
         bindS (getS (runtime_of (cmd_target_account_id c))) (\<lambda>found.
         bindS (liftE (of_opt (hub_fail ''missing cTrader runtime for protection'') found)) (\<lambda>r.
         bindS (liftE (of_opt (hub_fail ''invalid cTrader position id'') (parse_i64 position_id))) (\<lambda>number.
         bindS (send_json ve AMEND_POSITION_SLTP_REQ (''p:'' @ cmd_command_id c)
           (with_price ''takeProfit'' (cmd_take_profit c) (with_price ''stopLoss'' (cmd_stop_loss c)
             [(''ctidTraderAccountId'', PInt (ha_ctid (ar_account r))), (''positionId'', PInt number)]))) (\<lambda>_.
         modifyS (\<lambda>h. h\<lparr>hb_protection := (hb_protection h)(''p:'' @ cmd_command_id c \<mapsto> (c, position_id))\<rparr>)))))
     | None \<Rightarrow>
         bindS (on_app (unix_time_ns (ve_env ve))) (\<lambda>now.
         on_app (handle_frame (ve_env ve) (cmd_target_account_id c)
           (Ack (unknown_ack c ''cTrader fill omitted position id'' now)))))"

definition execution_event :: "'j venue_env \<Rightarrow> string \<Rightarrow> 'j \<Rightarrow> unit hub_call" where
  "execution_event ve client_msg_id payload =
    (let js = ve_json ve;
         execution_type = unwrap_or (enum_number js (js_get js payload ''executionType'') execution_types) 0 in
     bindS (liftE (of_opt (hub_fail ''cTrader execution event omitted account id'')
         (field_as js payload ''ctidTraderAccountId'' (as_i64 js)))) (\<lambda>ctid.
     if execution_type \<in> {2, 11} then update_account ve ctid payload
     else
       bindS (take_protection client_msg_id) (\<lambda>protection.
       bindS (case protection of
           Some (original, external_id) \<Rightarrow>
             acknowledge ve original (outcome_of execution_type) (Some external_id)
               (Some ''cTrader position protection finalized'')
         | None \<Rightarrow>
             bindS (take_pending client_msg_id) (\<lambda>pending.
             case pending of
               None \<Rightarrow> returnS ()
             | Some c \<Rightarrow>
                 let external_id = or_else (execution_external_id js payload) (cmd_target_order_id c) in
                 if cmd_action c = Open \<and> execution_type \<in> {3, 4} \<and>
                     (cmd_stop_loss c \<noteq> None \<or> cmd_take_profit c \<noteq> None)
                 then protect_position ve c external_id
                 else acknowledge ve c (outcome_of execution_type) external_id
                   (field_as js payload ''errorCode'' (js_str js)))) (\<lambda>_.
       update_account ve ctid payload))))"

definition order_error :: "'j venue_env \<Rightarrow> string \<Rightarrow> 'j \<Rightarrow> unit hub_call" where
  "order_error ve client_msg_id payload =
    (let js = ve_json ve in
     bindS (take_pending client_msg_id) (\<lambda>pending.
       case pending of
         Some c \<Rightarrow> acknowledge ve c Rejected None
           (Some (unwrap_or (and_then (or_else (js_get js payload ''description'') (js_get js payload ''errorCode''))
             (js_str js)) ''cTrader rejected request''))
       | None \<Rightarrow>
           bindS (take_protection client_msg_id) (\<lambda>protection.
           case protection of
             Some (c, external_id) \<Rightarrow> acknowledge ve c Unknown (Some external_id)
               (Some ''cTrader order filled but SL/TP protection request failed'')
           | None \<Rightarrow> returnS ())))"

definition payload_type_of :: "'j json_api \<Rightarrow> 'j \<Rightarrow> i64" where
  "payload_type_of js v = unwrap_or (field_as js v ''payloadType'' (js_i64 js)) 0"

definition handle_message :: "'j venue_env \<Rightarrow> 'j \<Rightarrow> unit hub_call" where
  "handle_message ve v =
    (let js = ve_json ve; payload_type = payload_type_of js v;
         client_msg_id = unwrap_or (field_as js v ''clientMsgId'' (js_str js)) [];
         payload = unwrap_or (js_get js v ''payload'') (js_empty js) in
     if payload_type = EXECUTION_EVENT then execution_event ve client_msg_id payload
     else if payload_type = ORDER_ERROR_EVENT \<or> payload_type = ERROR_RES
       then order_error ve client_msg_id payload
     else returnS ())"

section \<open>The life of the hub\<close>

text \<open>\<open>wait_for\<close>: the messages of the socket up to the expected answer.\<close>

fun wait_for_in :: "'j json_api \<Rightarrow> i64 \<Rightarrow> i64 option \<Rightarrow> ws_read list \<Rightarrow> (hub_error fault + 'j) \<times> ws_read list" where
  "wait_for_in js expected account_id [] = (Inl (Raised HubSocket), [])"
| "wait_for_in js expected account_id (WsFailed # rest) = (Inl (Raised HubSocket), rest)"
| "wait_for_in js expected account_id (WsMessage message # rest) =
    (case parse_ws_message js message of
       Inl e \<Rightarrow> (Inl e, rest)
     | Inr None \<Rightarrow> wait_for_in js expected account_id rest
     | Inr (Some v) \<Rightarrow>
         let payload_type = payload_type_of js v in
         if payload_type = ERROR_RES \<or> payload_type = ORDER_ERROR_EVENT
           then (Inl (hub_fail ''cTrader startup error''), rest)
         else if payload_type \<noteq> expected then wait_for_in js expected account_id rest
         else if account_id \<noteq> None \<and>
             and_then (js_get js v ''payload'') (\<lambda>p. field_as js p ''ctidTraderAccountId'' (as_i64 js)) \<noteq> account_id
           then wait_for_in js expected account_id rest
         else (Inr v, rest))"

definition wait_for :: "'j venue_env \<Rightarrow> i64 \<Rightarrow> i64 option \<Rightarrow> 'j hub_call" where
  "wait_for ve expected account_id h =
    (case wait_for_in (ve_json ve) expected account_id (hb_socket h) of
       (r, rest) \<Rightarrow> (r, h\<lparr>hb_socket := rest\<rparr>))"

text \<open>The log-in of one account; \<open>tx\<close> is the channel of its session.\<close>

definition log_in_account :: "'j venue_env \<Rightarrow> nat \<Rightarrow> hub_account \<Rightarrow> unit hub_call" where
  "log_in_account ve tx prepared =
    (let js = ve_json ve; ctid = ha_ctid prepared; local_id = ac_id (ha_local prepared) in
     bindS (send_json ve ACCOUNT_AUTH_REQ (''auth:'' @ show_i64 ctid)
       [(''ctidTraderAccountId'', PInt ctid), (''accessToken'', PText (ha_access_token prepared))]) (\<lambda>_.
     bindS (wait_for ve ACCOUNT_AUTH_RES (Some ctid)) (\<lambda>_.
     bindS (send_json ve SYMBOLS_LIST_REQ (''symbols:'' @ show_i64 ctid)
       [(''ctidTraderAccountId'', PInt ctid), (''includeArchivedSymbols'', PBool False)]) (\<lambda>_.
     bindS (wait_for ve SYMBOLS_LIST_RES (Some ctid)) (\<lambda>light.
     bindS (liftE (parse_light_symbols js light)) (\<lambda>light_symbols.
     bindS (send_json ve SYMBOL_BY_ID_REQ (''symbol-details:'' @ show_i64 ctid)
       [(''ctidTraderAccountId'', PInt ctid), (''symbolId'', PIds (map fst light_symbols))]) (\<lambda>_.
     bindS (wait_for ve SYMBOL_BY_ID_RES (Some ctid)) (\<lambda>details.
     bindS (liftE (parse_symbol_details js light_symbols details)) (\<lambda>(symbols_by_name, symbols_by_id).
     bindS (send_json ve RECONCILE_REQ (''reconcile:'' @ show_i64 ctid)
       [(''ctidTraderAccountId'', PInt ctid), (''returnProtectionOrders'', PBool False)]) (\<lambda>_.
     bindS (wait_for ve RECONCILE_RES (Some ctid)) (\<lambda>reconcile.
     bindS (liftE (parse_reconcile_positions js reconcile symbols_by_id)) (\<lambda>positions.
     bindS (on_app (register_session local_id tx)) (\<lambda>session_id.
     bindS (modifyS (\<lambda>h. h\<lparr>hb_runtimes := (hb_runtimes h)(ctid \<mapsto>
       \<lparr>ar_account = prepared, ar_session_id = session_id, ar_symbols_by_name = symbols_by_name,
        ar_symbols_by_id = symbols_by_id, ar_positions = positions\<rparr>)\<rparr>)) (\<lambda>_.
     on_app (dispatch_queued_for (ve_env ve) local_id)))))))))))))))"

text \<open>What the loop's \<open>select!\<close> takes next.\<close>

datatype hub_event = CommandArrived execution_command | CommandsClosed | Tick | SocketReady

definition command_arrived :: "'j venue_env \<Rightarrow> execution_command \<Rightarrow> unit hub_call" where
  "command_arrived ve c =
    bindS (getS (runtime_of (cmd_target_account_id c))) (\<lambda>found.
      case found of
        None \<Rightarrow> returnS ()
      | Some r \<Rightarrow>
          (case command_message r c of
             Inr (payload_type, payload) \<Rightarrow>
               bindS (send_json ve payload_type (cmd_command_id c) payload) (\<lambda>_.
               modifyS (\<lambda>h. h\<lparr>hb_pending := (hb_pending h)(cmd_command_id c \<mapsto> c)\<rparr>))
           | Inl message \<Rightarrow> acknowledge ve c Rejected None (Some message)))"

fun hub_loop :: "'j venue_env \<Rightarrow> hub_event list \<Rightarrow> unit hub_call" where
  "hub_loop ve [] = returnS ()"
| "hub_loop ve (CommandsClosed # _) = returnS ()"
| "hub_loop ve (CommandArrived c # rest) = bindS (command_arrived ve c) (\<lambda>_. hub_loop ve rest)"
| "hub_loop ve (Tick # rest) =
    bindS (send_json ve HEARTBEAT_EVENT ''heartbeat'' []) (\<lambda>_. hub_loop ve rest)"
| "hub_loop ve (SocketReady # rest) =
    bindS (getS hb_socket) (\<lambda>socket.
      case socket of
        [] \<Rightarrow> returnS ()
      | message # later \<Rightarrow>
          bindS (modifyS (\<lambda>h. h\<lparr>hb_socket := later\<rparr>)) (\<lambda>_.
          case message of
            WsFailed \<Rightarrow> failS (Raised HubSocket)
          | WsMessage m \<Rightarrow>
              bindS (liftE (parse_ws_message (ve_json ve) m)) (\<lambda>parsed.
              case parsed of
                None \<Rightarrow> hub_loop ve rest
              | Some v \<Rightarrow> bindS (handle_message ve v) (\<lambda>_. hub_loop ve rest))))"

fun log_in_accounts :: "'j venue_env \<Rightarrow> (nat \<times> hub_account) list \<Rightarrow> unit hub_call" where
  "log_in_accounts ve [] = returnS ()"
| "log_in_accounts ve ((tx, a) # rest) = bindS (log_in_account ve tx a) (\<lambda>_. log_in_accounts ve rest)"

text \<open>The hub from its connection on; after the loop the sessions end, the first failing clean-up ends the hub.\<close>

definition run_hub :: "'j venue_env \<Rightarrow> string \<Rightarrow> string \<Rightarrow> (nat \<times> hub_account) list \<Rightarrow> hub_event list \<Rightarrow> unit hub_call" where
  "run_hub ve client_id client_secret accounts events =
    bindS (send_json ve APPLICATION_AUTH_REQ ''app-auth''
      [(''clientId'', PText client_id), (''clientSecret'', PText client_secret)]) (\<lambda>_.
    bindS (wait_for ve APPLICATION_AUTH_RES None) (\<lambda>_.
    bindS (log_in_accounts ve accounts) (\<lambda>_ h.
      case hub_loop ve events h of
        (Inl (Panicked p), t) \<Rightarrow> (Inl (Panicked p), t)
      | (Inl Stuck, t) \<Rightarrow> (Inl Stuck, t)
      | (result, t) \<Rightarrow>
          (case eachS (\<lambda>r. on_app (unregister_session (ve_env ve) (ac_id (ha_local (ar_account r))) (ar_session_id r)))
              (List.map_filter (hb_runtimes t) (hb_order t)) t of
             (Inl e, u) \<Rightarrow> (Inl e, u)
           | (Inr _, u) \<Rightarrow> (result, u)))))"

section \<open>What the hub does to the daemon\<close>

lemma on_app_eq:
  "on_app m h = (case m (hb_app h) of (r, s) \<Rightarrow> (mapE (map_fault HubRuntime) r, h\<lparr>hb_app := s\<rparr>))"
  by (simp add: on_app_def on_part_def failing_def split: prod.split)

lemma bindS_on_app_Inr:
  "m (hb_app h) = (Inr x, s) \<Longrightarrow> bindS (on_app m) f h = f x (h\<lparr>hb_app := s\<rparr>)"
  by (simp add: bindS_def on_app_eq)

lemma acknowledge_eq:
  "hb_app (snd (acknowledge ve c status external_id message h)) =
     snd (handle_frame (ve_env ve) (cmd_target_account_id c) (Ack (make_ack c status external_id
       (clock_ns (env_clock (ve_env ve) (st_calls (hb_app h)))) message)) (called (hb_app h)))"
  "hb_runtimes (snd (acknowledge ve c status external_id message h)) = hb_runtimes h"
  by (simp_all add: acknowledge_def bindS_on_app_Inr[OF unix_time_eq] on_app_eq split: prod.split)

text \<open>The update of an account that does not publish leaves the daemon alone.\<close>

lemma app_set_positions [simp]: "hb_app (set_positions ctid f h) = hb_app h"
  by (simp add: set_positions_def)

lemma update_account_silent:
  assumes "\<forall>r. hb_runtimes h ctid = Some r \<longrightarrow> \<not> can_publish (ac_role (ha_local (ar_account r)))"
  shows "hb_app (snd (update_account ve ctid payload h)) = hb_app h"
proof (cases "hb_runtimes h ctid")
  case (Some r)
  then have "\<not> can_publish (ac_role (ha_local (ar_account r)))" using assms by blast
  then show ?thesis
    using Some by (auto simp: update_account_def update_position_def bindS_def Let_def
        split: option.split sum.split prod.split if_splits)
qed (simp add: update_account_def)

text \<open>What the daemon makes of an event that carries an origin: nothing, unless the account rebroadcasts.\<close>

lemma feedback_suppressed:
  assumes "config_account (st_config s) (ev_source_account_id e) = Some a" "\<not> ac_allow_rebroadcast a"
    and "ev_origin_command_id e \<noteq> None"
  shows "snd (handle_frame env (ev_source_account_id e) (Event e) s) = s"
  using assms by (simp add: handle_frame_def handle_event_def)

lemma starts_with_append [simp]: "starts_with p (p @ s)"
  by (induction p) simp_all

lemma label_origin: "strip_prefix label_prefix (order_label c) = Some (cmd_command_id c)"
  by (simp add: strip_prefix_def order_label_def)

lemma parse_position_origin:
  assumes "parse_position js v symbols = Inr p" "js_get js v ''tradeData'' = Some trade"
  shows "cp_origin_command_id p = strip_prefix label_prefix (unwrap_or (field_as js trade ''label'' (js_str js)) [])"
  using assms by (auto simp: parse_position_def Let_def outcome_simps)

section \<open>Properties\<close>

text \<open>
  C20. Copied positions are not copied back. A position whose label is the one the hub gave to the order
  of a command is reported with that command as its origin, and the daemon drops the event: whatever
  happens to the position, nothing is planned from it, unless the account may rebroadcast.
\<close>

theorem own_orders_not_copied:
  assumes "parse_position js v symbols = Inr p" "js_get js v ''tradeData'' = Some trade"
    and "field_as js trade ''label'' (js_str js) = Some (order_label c)"
    and "config_account (st_config (hb_app h)) (ac_id (ha_local (ar_account r))) = Some a"
    and "\<not> ac_allow_rebroadcast a"
  shows "hb_app (snd (emit_event ve r p action volume remaining h)) = called (hb_app h)"
proof -
  have o: "cp_origin_command_id p = Some (cmd_command_id c)"
    using parse_position_origin[OF assms(1,2)] assms(3) by (simp add: label_origin)
  define now where "now = clock_ns (env_clock (ve_env ve) (st_calls (hb_app h)))"
  define e where "e = position_event (ha_local (ar_account r)) p action volume remaining now"
  have e: "ev_source_account_id e = ac_id (ha_local (ar_account r))" "ev_origin_command_id e \<noteq> None"
    by (simp_all add: e_def position_event_def o)
  have "snd (handle_frame (ve_env ve) (ac_id (ha_local (ar_account r))) (Event e) (called (hb_app h))) = called (hb_app h)"
    using feedback_suppressed[of "called (hb_app h)" e a "ve_env ve"] assms(4,5) e by simp
  then obtain res where "handle_frame (ve_env ve) (ac_id (ha_local (ar_account r))) (Event e) (called (hb_app h)) =
      (res, called (hb_app h))" by (metis prod.collapse)
  then show ?thesis
    by (cases "event_validate e")
      (simp_all add: emit_event_def Let_def bindS_on_app_Inr[OF unix_time_eq] now_def[symmetric] e_def[symmetric]
        on_app_eq)
qed

text \<open>The witnesses' hub: one follower whose position carries the label of the test command.\<close>

definition sample_runtime :: account_runtime where
  "sample_runtime = \<lparr>ar_account = \<lparr>ha_local = test_account ''follower'' Follower, ha_ctid = 5, ha_access_token = ''t''\<rparr>,
     ar_session_id = 1, ar_symbols_by_name = Map.empty, ar_symbols_by_id = Map.empty, ar_positions = Map.empty\<rparr>"

definition sample_hub :: hub where
  "sample_hub = \<lparr>hb_app = with_command Dispatched, hb_runtimes = Map.empty(5 \<mapsto> sample_runtime), hb_pending = Map.empty,
     hb_protection = Map.empty(''p:1'' \<mapsto> (test_command, ''900'')), hb_socket = [], hb_sent = [], hb_order = [5]\<rparr>"

definition sample_position :: sample_json where
  "sample_position = SObject [(''positionId'', SText ''900''), (''tradeData'', SObject [(''symbolId'', SInt 1),
     (''volume'', SInt 100), (''tradeSide'', SText ''BUY''), (''label'', SText (order_label test_command))])]"

theorem own_orders_not_copied_witness:
  "\<exists>p. parse_position sample_js sample_position
       (Map.empty(1 \<mapsto> \<lparr>si_id = 1, si_name = ''XAUUSD'', si_lot_size_cents = f64_one\<rparr>)) = Inr p \<and>
     hb_app (snd (emit_event sample_ve sample_runtime p Open f64_one None sample_hub)) = called (with_command Dispatched)"
proof -
  let ?symbols = "Map.empty(1 \<mapsto> \<lparr>si_id = 1, si_name = ''XAUUSD'', si_lot_size_cents = f64_one\<rparr>) :: i64 \<rightharpoonup> symbol_info"
  have "enum_number sample_js (Some (SText ''BUY'')) trade_sides = Some 1"
  proof -
    have "parse_i64 ''BUY'' = None" by code_simp
    then show ?thesis by (simp add: enum_number_def as_i64_def trade_sides_def)
  qed
  then obtain p where p: "parse_position sample_js sample_position ?symbols = Inr p"
    by (simp add: parse_position_def sample_position_def field_as_def value_to_string_def as_i64_def Let_def)
  have "config_account (st_config (hb_app sample_hub)) ''follower'' = Some (test_account ''follower'' Follower)"
    by (simp add: sample_hub_def with_command_def test_connected_def register_session_def Let_def test_start_def
        config_account_def test_config_def test_account_def)
  then have "hb_app (snd (emit_event sample_ve sample_runtime p Open f64_one None sample_hub)) = called (hb_app sample_hub)"
    using own_orders_not_copied[OF p, of "SObject [(''symbolId'', SInt 1), (''volume'', SInt 100),
        (''tradeSide'', SText ''BUY''), (''label'', SText (order_label test_command))]" test_command sample_hub
        sample_runtime "test_account ''follower'' Follower" sample_ve]
    by (simp add: sample_position_def field_as_def sample_runtime_def) (simp add: test_account_def)
  then show ?thesis using p by (auto simp: sample_hub_def)
qed

text \<open>
  C19. A rejected protection forgets a filled position. When an opening was filled and the request for its stop or
  target is then answered by an execution event of type 5 to 8, the filled order is
  acknowledged as rejected: its command is dropped and no mirror is made, so the position on the
  follower's account is never modified, reduced or closed. (An error message for the same request
  gives UNKNOWN.)
\<close>

theorem rejected_protection_forgets_position:
  assumes "reliable_disk (ve_env ve)" "mirrors_filed (mirrors (st_runtime (hb_app h)))"
    and "hb_protection h i = Some (c, position_id)"
    and "commands (st_runtime (hb_app h)) (cmd_command_id c) = Some x" "sc_command x = c"
    and "field_as (ve_json ve) payload ''ctidTraderAccountId'' (as_i64 (ve_json ve)) = Some ctid"
    and "enum_number (ve_json ve) (js_get (ve_json ve) payload ''executionType'') execution_types = Some n"
    and "n \<in> {5, 6, 7, 8}"
    and "\<forall>r. hb_runtimes h ctid = Some r \<longrightarrow> \<not> can_publish (ac_role (ha_local (ar_account r)))"
  shows "st_runtime (hb_app (snd (execution_event ve i payload h))) =
    (st_runtime (hb_app h))\<lparr>commands := (commands (st_runtime (hb_app h)))(cmd_command_id c := None)\<rparr>"
proof -
  let ?message = "Some ''cTrader position protection finalized''"
  define h1 where "h1 = h\<lparr>hb_protection := (hb_protection h)(i := None)\<rparr>"
  define a where "a = make_ack c Rejected (Some position_id) (clock_ns (env_clock (ve_env ve) (st_calls (hb_app h)))) ?message"
  obtain t mu where t: "handle_ack (ve_env ve) a (called (hb_app h)) = (Inr (), t)"
    "st_runtime t = (st_runtime (called (hb_app h)))\<lparr>commands := (commands (st_runtime (called (hb_app h))))(ack_command_id a := None),
       mirrors := ack_mirrors (sc_command x) a (mirrors (st_runtime (called (hb_app h))))\<rparr>"
    by (rule terminal_ack[OF assms(1), of "called (hb_app h)" a x])
      (use assms(2,4,5) in \<open>auto simp: a_def make_ack_def\<close>)
  have rt: "st_runtime t = (st_runtime (hb_app h))\<lparr>commands := (commands (st_runtime (hb_app h)))(cmd_command_id c := None)\<rparr>"
    using t(2) by (simp add: a_def make_ack_def ack_mirrors_def)
  define h2 where "h2 = snd (acknowledge ve c Rejected (Some position_id) ?message h1)"
  have "handle_frame (ve_env ve) (cmd_target_account_id c) (Ack a) (called (hb_app h)) = (Inr (), t)"
    using t(1) by (simp add: handle_frame_def a_def make_ack_def)
  then have ack: "acknowledge ve c Rejected (Some position_id) ?message h1 = (Inr (), h2)" "hb_app h2 = t"
    "hb_runtimes h2 = hb_runtimes h"
    by (simp_all add: h2_def acknowledge_def bindS_on_app_Inr[OF unix_time_eq] on_app_eq h1_def a_def)
  have n: "outcome_of n = Rejected" "n \<notin> {2, 11}" using assms(8) by (auto simp: outcome_of_def)
  have "snd (execution_event ve i payload h) = snd (update_account ve ctid payload h2)"
    using n(2) by (simp add: execution_event_def Let_def assms(3,6,7) n(1) bindS_def take_protection_def
        h1_def[symmetric] ack(1))
  then show ?thesis
    using update_account_silent[of h2 ctid ve payload] assms(9) ack(2,3) rt by simp
qed

theorem rejected_protection_forgets_position_witness:
  "commands (st_runtime (hb_app (snd (execution_event sample_ve ''p:1''
     (SObject [(''ctidTraderAccountId'', SInt 5), (''executionType'', SInt 7)]) sample_hub)))) (cmd_command_id test_command) = None"
proof -
  let ?payload = "SObject [(''ctidTraderAccountId'', SInt 5), (''executionType'', SInt 7)]"
  have "st_runtime (hb_app (snd (execution_event sample_ve ''p:1'' ?payload sample_hub))) =
      (st_runtime (hb_app sample_hub))\<lparr>commands := (commands (st_runtime (hb_app sample_hub)))(cmd_command_id test_command := None)\<rparr>"
  proof (rule rejected_protection_forgets_position)
    show "hb_protection sample_hub ''p:1'' = Some (test_command, ''900'')" by (simp add: sample_hub_def)
    show "mirrors_filed (mirrors (st_runtime (hb_app sample_hub)))"
      "commands (st_runtime (hb_app sample_hub)) (cmd_command_id test_command) =
        Some \<lparr>sc_command = test_command, sc_state = Dispatched\<rparr>"
      by (simp_all add: sample_hub_def with_command_ok)
    show "\<forall>r. hb_runtimes sample_hub 5 = Some r \<longrightarrow> \<not> can_publish (ac_role (ha_local (ar_account r)))"
      by (simp add: sample_hub_def sample_runtime_def test_account_def)
    show "enum_number (ve_json sample_ve) (js_get (ve_json sample_ve) ?payload ''executionType'') execution_types = Some 7"
      "field_as (ve_json sample_ve) ?payload ''ctidTraderAccountId'' (as_i64 (ve_json sample_ve)) = Some 5"
      by (simp_all add: field_as_def enum_number_def as_i64_def)
  qed (simp_all add: calm_env_ok)
  then show ?thesis by simp
qed

end
