(* ===== verification/MetaApi.thy ===== *)
theory MetaApi
  imports CTrader
begin

text \<open>
  The MetaApi venue, \<open>crates/copier-daemon/src/venues/metaapi.rs\<close>: provisioning, the request for a
  command and what its answer means, the polling of positions and the events of their differences. HTTP,
  \<open>serde_json\<close> and SHA-256 are parameters.
\<close>

section \<open>State\<close>

record ma_position =
  mp_id :: string
  mp_type :: string
  mp_symbol :: string
  mp_volume :: f64
  mp_open_price :: f64
  mp_stop_loss :: "f64 option"
  mp_take_profit :: "f64 option"
  mp_client_id :: "string option"

text \<open>
  What a request comes back with: an error of the transport or a status with the text of the body. How \<open>reqwest\<close>
  classifies and prints a status is a parameter, as is reading the list of positions.
\<close>

datatype http_outcome = TransportError string | HttpResponse nat string

record 'j metaapi_env =
  me_env :: environment
  me_json :: "'j json_api"
  me_success :: "nat \<Rightarrow> bool"
  me_server_error :: "nat \<Rightarrow> bool"
  me_show_status :: "nat \<Rightarrow> string"
  me_parse_error :: "string \<Rightarrow> string"
  me_positions :: "string \<Rightarrow> ma_position list option"

text \<open>A request: its address, the headers the code sets and, for a post, the body.\<close>

type_synonym headers = "(string \<times> string) list"

datatype http_request = HttpPost string headers payload | HttpGet string headers

text \<open>The task: the daemon's state, the answers still to come, the requests made, the last positions.\<close>

record ma_task =
  mt_app :: app_state
  mt_answers :: "http_outcome list"
  mt_requests :: "http_request list"
  mt_known :: "string \<rightharpoonup> ma_position"

datatype ma_error =
    MaRuntime runtime_error
  | MaSecret secret_error
  | MaMessage string
  | MaTransport string
  | MaEvent model_error

type_synonym 'a ma_call = "(ma_task, ma_error fault, 'a) handler"

definition ma_app :: "'a runtime \<Rightarrow> 'a ma_call" where
  "ma_app m = on_part mt_app (\<lambda>s t. t\<lparr>mt_app := s\<rparr>) (failing (map_fault MaRuntime) m)"

text \<open>A request and its answer; with no answer left the connection is gone.\<close>

definition request :: "http_request \<Rightarrow> http_outcome ma_call" where
  "request r t =
    (case mt_answers t of
       [] \<Rightarrow> (Inr (TransportError ''connection closed''), t\<lparr>mt_requests := mt_requests t @ [r]\<rparr>)
     | answer # rest \<Rightarrow> (Inr answer, t\<lparr>mt_answers := rest, mt_requests := mt_requests t @ [r]\<rparr>))"

section \<open>Provisioning\<close>

definition provisioning_transaction_id :: "sha256 \<Rightarrow> string \<Rightarrow> string \<Rightarrow> string \<Rightarrow> string" where
  "provisioning_transaction_id sha account_id login server =
    concat (map hex_byte (take 16 (sha (''copierr:metaapi:provision:v1'' @ CHR 0x00 # account_id @
      CHR 0x00 # login @ CHR 0x00 # server))))"

definition accounts_url :: "metaapi_global \<Rightarrow> string" where
  "accounts_url global = trim_end_matches [CHR ''/''] (mag_provisioning_base global) @ ''/users/current/accounts''"

text \<open>The attempts: 202 means not yet, any other success must name the account.\<close>

fun provision :: "'j metaapi_env \<Rightarrow> http_request \<Rightarrow> nat \<Rightarrow> string ma_call" where
  "provision me r 0 = failS (Raised (MaMessage ''MetaApi provisioning did not complete after repeated attempts''))"
| "provision me r (Suc n) =
    bindS (request r) (\<lambda>answer.
      case answer of
        TransportError e \<Rightarrow> failS (Raised (MaTransport e))
      | HttpResponse status body \<Rightarrow>
          if status = 202 then provision me r n
          else if me_success me status then
            (case js_parse (me_json me) body of
               None \<Rightarrow> failS (Raised (MaMessage ''invalid MetaApi provisioning response''))
             | Some v \<Rightarrow> (case field_as (me_json me) v ''id'' (js_str (me_json me)) of
                 Some i \<Rightarrow> returnS i
               | None \<Rightarrow> failS (Raised (MaMessage ''MetaApi provisioning response did not include account id''))))
          else failS (Raised (MaMessage (''MetaApi provisioning failed with '' @ me_show_status me status @ '': '' @ body))))"

definition non_empty :: "string option \<Rightarrow> string option" where
  "non_empty x = (case x of None \<Rightarrow> None | Some s \<Rightarrow> if s = [] then None else Some s)"

definition ma_expect :: "string \<Rightarrow> 'a option \<Rightarrow> 'a ma_call" where
  "ma_expect message x = liftE (of_opt (Panicked message) x)"

definition ensure_account ::
    "'j metaapi_env \<Rightarrow> account_config \<Rightarrow> metaapi_account \<Rightarrow> metaapi_global \<Rightarrow> string \<Rightarrow> string ma_call" where
  "ensure_account me account direct global auth_token =
    (case non_empty (maa_account_id direct) of
       Some i \<Rightarrow> returnS i
     | None \<Rightarrow>
         bindS (ma_expect ''validated login'' (maa_login direct)) (\<lambda>login.
         bindS (ma_expect ''validated server'' (maa_server direct)) (\<lambda>server.
         bindS (ma_expect ''validated password env'' (maa_password_env direct)) (\<lambda>password_env.
         bindS (liftE (mapE (\<lambda>e. Raised (MaSecret e)) (read_secret (env_var (me_env me)) password_env))) (\<lambda>password.
         bindS (case ac_platform account of Mt4 \<Rightarrow> returnS ''mt4'' | Mt5 \<Rightarrow> returnS ''mt5''
           | _ \<Rightarrow> failS (Raised (MaMessage ''MetaApi provisioning only supports MT4/MT5''))) (\<lambda>platform.
         provision me (HttpPost (accounts_url global)
           [(''auth-token'', auth_token), (''transaction-id'',
             provisioning_transaction_id (env_sha (me_env me)) (ac_id account) login server)]
           [(''login'', PText login), (''password'', PText password), (''name'', PText (ac_id account)),
            (''server'', PText server), (''platform'', PText platform), (''magic'', PNat (maa_magic direct)),
            (''type'', PText ''cloud-g2'')]) 24))))))"

section \<open>Executing a command\<close>

definition ascii_alphanumeric :: "char \<Rightarrow> bool" where
  "ascii_alphanumeric c = (let n = of_char c :: nat in
     48 \<le> n \<and> n \<le> 57 \<or> 65 \<le> n \<and> n \<le> 90 \<or> 97 \<le> n \<and> n \<le> 122)"

definition metaapi_client_id :: "string \<Rightarrow> string" where
  "metaapi_client_id cid =
    (let compact = take 20 (filter ascii_alphanumeric cid);
         split_at = min (length compact) 10;
         right = drop split_at compact in
     ''CR_'' @ take split_at compact @ ''_'' @ (if right = [] then ''0'' else right))"

definition ma_value_to_string :: "'j json_api \<Rightarrow> 'j \<Rightarrow> string option" where
  "ma_value_to_string js v =
    (case js_str js v of
       Some s \<Rightarrow> Some s
     | None \<Rightarrow> (case js_i64 js v of
         Some n \<Rightarrow> Some (show_i64 n)
       | None \<Rightarrow> map_option (\<lambda>n. show_nat (unat n)) (js_u64 js v)))"

definition ma_rejected :: "execution_command \<Rightarrow> i64 \<Rightarrow> string \<Rightarrow> execution_ack" where
  "ma_rejected c now message = make_ack c Rejected None now (Some message)"

definition opt_text :: "string option \<Rightarrow> payload_value" where
  "opt_text x = (case x of None \<Rightarrow> PNull | Some s \<Rightarrow> PText s)"

text \<open>The body of the trade request; an opening without a side has none.\<close>

definition trade_body :: "u64 \<Rightarrow> execution_command \<Rightarrow> payload option" where
  "trade_body magic c =
    (let client = (''clientId'', PText (metaapi_client_id (cmd_command_id c)));
         position = (''positionId'', opt_text (cmd_target_order_id c));
         prices = (\<lambda>body. with_price ''takeProfit'' (cmd_take_profit c) (with_price ''stopLoss'' (cmd_stop_loss c) body)) in
     (case cmd_action c of
        Open \<Rightarrow> (case cmd_side c of
            None \<Rightarrow> None
          | Some side \<Rightarrow> Some (prices [(''actionType'', PText (case side of Buy \<Rightarrow> ''ORDER_TYPE_BUY'' | Sell \<Rightarrow> ''ORDER_TYPE_SELL'')),
              (''symbol'', PText (cmd_symbol c)), (''volume'', PNum (cmd_volume c)), (''magic'', PNat magic), client]))
      | Modify \<Rightarrow> Some (prices [(''actionType'', PText ''POSITION_MODIFY''), position, (''magic'', PNat magic)])
      | Reduce \<Rightarrow> Some [(''actionType'', PText ''POSITION_PARTIAL''), position, (''volume'', PNum (cmd_volume c)),
          (''magic'', PNat magic), client]
      | Close \<Rightarrow> Some [(''actionType'', PText ''POSITION_CLOSE_ID''), position, (''magic'', PNat magic), client]))"

definition done_codes :: "string list" where
  "done_codes = [''TRADE_RETCODE_DONE'', ''ERR_NO_ERROR'', ''TRADE_RETCODE_NO_CHANGES'']"

definition uncertain_codes :: "string list" where
  "uncertain_codes = [''TRADE_RETCODE_PLACED'', ''TRADE_RETCODE_DONE_PARTIAL'',
     ''TRADE_RETCODE_DISCONNECTED_DURING_TRADE'', ''TRADE_RETCODE_TIMEOUT'', ''ERR_TRADE_TIMED_OUT'',
     ''ERR_NO_RESULT'', ''TRADE_RETCODE_UNKNOWN'']"

definition status_of_code :: "string \<Rightarrow> ack_status" where
  "status_of_code code =
    (if code \<in> set done_codes then Filled else if code \<in> set uncertain_codes then Unknown else Rejected)"

text \<open>What the answer to the trade request means.\<close>

definition trade_ack :: "'j metaapi_env \<Rightarrow> execution_command \<Rightarrow> i64 \<Rightarrow> http_outcome \<Rightarrow> execution_ack" where
  "trade_ack me c timestamp answer =
    (let js = me_json me in
     (case answer of
        TransportError e \<Rightarrow>
          make_ack c Unknown None timestamp (Some (''MetaApi transport uncertainty: '' @ e))
      | HttpResponse status text \<Rightarrow>
          if \<not> me_success me status then
            make_ack c (if me_server_error me status then Unknown else Rejected) None timestamp
              (Some (''MetaApi HTTP '' @ me_show_status me status @ '': '' @ text))
          else (case js_parse js text of
              None \<Rightarrow> make_ack c Unknown None timestamp (Some (''invalid MetaApi trade response: '' @ me_parse_error me text))
            | Some v \<Rightarrow>
                let code = unwrap_or (field_as js v ''stringCode'' (js_str js)) [];
                    external_id = or_else (and_then (or_else (js_get js v ''positionId'') (js_get js v ''orderId''))
                      (ma_value_to_string js)) (cmd_target_order_id c) in
                make_ack c (status_of_code code) external_id timestamp
                  (or_else (field_as js v ''message'' (js_str js)) (if code \<noteq> [] then Some code else None)))))"

definition trade_url :: "string \<Rightarrow> string \<Rightarrow> string" where
  "trade_url api_base account_id =
     trim_end_matches [CHR ''/''] api_base @ ''/users/current/accounts/'' @ account_id @ ''/trade''"

definition execute :: "'j metaapi_env \<Rightarrow> string \<Rightarrow> string \<Rightarrow> string \<Rightarrow> u64 \<Rightarrow> execution_command \<Rightarrow> execution_ack ma_call" where
  "execute me api_base account_id auth_token magic c =
    bindS (ma_app (unix_time_ns (me_env me))) (\<lambda>timestamp.
      case trade_body magic c of
        None \<Rightarrow> bindS (ma_app (unix_time_ns (me_env me))) (\<lambda>now.
          returnS (ma_rejected c now ''open command omitted side''))
      | Some body \<Rightarrow>
          bindS (request (HttpPost (trade_url api_base account_id) [(''auth-token'', auth_token)] body)) (\<lambda>answer.
          returnS (trade_ack me c timestamp answer)))"

section \<open>Positions\<close>

definition positions_url :: "string \<Rightarrow> string \<Rightarrow> string" where
  "positions_url api_base account_id =
     trim_end_matches [CHR ''/''] api_base @ ''/users/current/accounts/'' @ account_id @ ''/positions''"

definition fetch_positions :: "'j metaapi_env \<Rightarrow> string \<Rightarrow> string \<Rightarrow> string \<Rightarrow> ma_position list ma_call" where
  "fetch_positions me api_base account_id auth_token =
    bindS (request (HttpGet (positions_url api_base account_id) [(''auth-token'', auth_token)])) (\<lambda>answer.
      case answer of
        TransportError e \<Rightarrow> failS (Raised (MaTransport e))
      | HttpResponse status text \<Rightarrow>
          if \<not> me_success me status
          then failS (Raised (MaMessage (''MetaApi positions returned '' @ me_show_status me status @ '': '' @ text)))
          else liftE (of_opt (Raised (MaMessage ''invalid MetaApi positions response'')) (me_positions me text)))"

definition index_positions :: "ma_position list \<Rightarrow> (string \<rightharpoonup> ma_position)" where
  "index_positions ps = map_of (rev (map (\<lambda>p. (mp_id p, p)) ps))"

definition own_origin :: "string option \<Rightarrow> string option" where
  "own_origin client_id = (case client_id of
     None \<Rightarrow> None | Some s \<Rightarrow> if starts_with ''CR_'' s then Some s else None)"

definition ma_event :: "account_config \<Rightarrow> ma_position \<Rightarrow> side \<Rightarrow> trade_action \<Rightarrow> f64 \<Rightarrow> f64 option \<Rightarrow> i64 \<Rightarrow> trade_event" where
  "ma_event account p side action volume remaining_volume now =
    \<lparr>ev_event_id = event_name ''metaapi'' (ac_id account) (mp_id p) action now,
     ev_source_account_id = ac_id account, ev_platform = ac_platform account, ev_action = action,
     ev_source_order_id = mp_id p, ev_symbol = mp_symbol p, ev_side = Some side, ev_volume = volume,
     ev_remaining_volume = remaining_volume, ev_price = Some (mp_open_price p),
     ev_stop_loss = mp_stop_loss p, ev_take_profit = mp_take_profit p, ev_timestamp_unix_ns = now,
     ev_origin_command_id = own_origin (mp_client_id p)\<rparr>"

definition side_of_type :: "string \<Rightarrow> ma_error fault + side" where
  "side_of_type t =
    (if t = ''POSITION_TYPE_BUY'' then Inr Buy else if t = ''POSITION_TYPE_SELL'' then Inr Sell
     else Inl (Raised (MaMessage (''unknown MetaApi position type '' @ t))))"

definition to_event :: "'j metaapi_env \<Rightarrow> account_config \<Rightarrow> ma_position \<Rightarrow> trade_action \<Rightarrow> f64 \<Rightarrow>
    f64 option \<Rightarrow> trade_event ma_call" where
  "to_event me account p action volume remaining_volume =
    bindS (liftE (side_of_type (mp_type p))) (\<lambda>side.
    bindS (ma_app (unix_time_ns (me_env me))) (\<lambda>now.
    let event = ma_event account p side action volume remaining_volume now in
    bindS (liftE (mapE (\<lambda>e. Raised (MaEvent e)) (event_validate event))) (\<lambda>_. returnS event)))"

text \<open>What the differences between two snapshots give: a position, an action, its volume and what remains.\<close>

type_synonym position_diff = "ma_position \<times> trade_action \<times> f64 \<times> f64"

definition diff_current :: "(string \<rightharpoonup> ma_position) \<Rightarrow> ma_position \<Rightarrow> string \<Rightarrow> position_diff option" where
  "diff_current previous p i =
    (case previous i of
       None \<Rightarrow> Some (p, Open, mp_volume p, mp_volume p)
     | Some old \<Rightarrow>
         if flt (fadd (mp_volume p) f64_epsilon) (mp_volume old)
           then Some (p, Reduce, fsub (mp_volume old) (mp_volume p), mp_volume p)
         else if flt (fadd (mp_volume old) f64_epsilon) (mp_volume p) then None
         else if changed_price (mp_stop_loss old) (mp_stop_loss p) \<or> changed_price (mp_take_profit old) (mp_take_profit p)
           then Some (p, Modify, mp_volume p, mp_volume p)
         else None)"

definition diff_previous :: "(string \<rightharpoonup> ma_position) \<Rightarrow> ma_position \<Rightarrow> string \<Rightarrow> position_diff option" where
  "diff_previous current old i =
    (if current i = None then Some (old\<lparr>mp_volume := f64_zero\<rparr>, Close, mp_volume old, f64_zero) else None)"

definition diff_plan :: "string list \<Rightarrow> string list \<Rightarrow> (string \<rightharpoonup> ma_position) \<Rightarrow> (string \<rightharpoonup> ma_position) \<Rightarrow> position_diff list" where
  "diff_plan ks ls previous current =
     List.map_filter (\<lambda>i. and_then (current i) (\<lambda>p. diff_current previous p i)) (remdups ks) @
     List.map_filter (\<lambda>i. and_then (previous i) (\<lambda>old. diff_previous current old i)) (remdups ls)"

definition emit_diff :: "'j metaapi_env \<Rightarrow> account_config \<Rightarrow> position_diff \<Rightarrow> unit ma_call" where
  "emit_diff me account d = (case d of (p, action, volume, remaining) \<Rightarrow>
     bindS (to_event me account p action volume (Some remaining)) (\<lambda>event.
     ma_app (handle_frame (me_env me) (ac_id account) (Event event))))"

definition map_keys :: "environment \<Rightarrow> string list runtime" where
  "map_keys env s = (Inr (env_keys env (st_calls s)), called s)"

text \<open>The two loops, over the current and over the previous positions, in the order of their hash maps.\<close>

definition emit_position_diffs ::
    "'j metaapi_env \<Rightarrow> account_config \<Rightarrow> (string \<rightharpoonup> ma_position) \<Rightarrow> (string \<rightharpoonup> ma_position) \<Rightarrow> unit ma_call" where
  "emit_position_diffs me account previous current =
    bindS (ma_app (map_keys (me_env me))) (\<lambda>ks.
    bindS (ma_app (map_keys (me_env me))) (\<lambda>ls.
    eachS (emit_diff me account) (diff_plan ks ls previous current)))"

section \<open>The life of the task\<close>

datatype ma_input = FrameReceived server_frame | FramesClosed | PollTick

fun ma_loop :: "'j metaapi_env \<Rightarrow> account_config \<Rightarrow> string \<Rightarrow> string \<Rightarrow> string \<Rightarrow> u64 \<Rightarrow> ma_input list \<Rightarrow> unit ma_call" where
  "ma_loop me account api_base provider_id auth_token magic [] = returnS ()"
| "ma_loop me account api_base provider_id auth_token magic (FramesClosed # _) = returnS ()"
| "ma_loop me account api_base provider_id auth_token magic (FrameReceived frame # rest) =
    bindS (case frame of
        Command c \<Rightarrow> bindS (execute me api_base provider_id auth_token magic c) (\<lambda>ack.
          ma_app (handle_frame (me_env me) (ac_id account) (Ack ack)))
      | _ \<Rightarrow> returnS ()) (\<lambda>_.
    ma_loop me account api_base provider_id auth_token magic rest)"
| "ma_loop me account api_base provider_id auth_token magic (PollTick # rest) =
    bindS (if \<not> can_publish (ac_role account) then returnS ()
      else (\<lambda>t. case fetch_positions me api_base provider_id auth_token t of
          (Inr ps, u) \<Rightarrow>
            bindS (emit_position_diffs me account (mt_known u) (index_positions ps)) (\<lambda>_.
              modifyS (\<lambda>v. v\<lparr>mt_known := index_positions ps\<rparr>)) u
        | (Inl _, u) \<Rightarrow> (Inr (), u))) (\<lambda>_.
    ma_loop me account api_base provider_id auth_token magic rest)"

definition default_api_base :: "string \<Rightarrow> string" where
  "default_api_base region = ''https://mt-client-api-v1.'' @ region @ ''.agiliumtrade.ai''"

definition run_account :: "'j metaapi_env \<Rightarrow> account_config \<Rightarrow> metaapi_global \<Rightarrow> string \<Rightarrow> nat \<Rightarrow>
    ma_input list \<Rightarrow> unit ma_call" where
  "run_account me account global auth_token tx inputs =
    bindS (ma_expect ''validated MetaApi config'' (ac_metaapi account)) (\<lambda>direct.
    bindS (ensure_account me account direct global auth_token) (\<lambda>provider_id.
    let api_base = unwrap_or (maa_api_base direct) (default_api_base (maa_region direct)) in
    bindS (ma_app (register_session (ac_id account) tx)) (\<lambda>session_id.
    bindS (ma_app (dispatch_queued_for (me_env me) (ac_id account))) (\<lambda>_.
    bindS (\<lambda>t. case fetch_positions me api_base provider_id auth_token t of
        (Inr ps, u) \<Rightarrow> (Inr (), u\<lparr>mt_known := index_positions ps\<rparr>)
      | (Inl _, u) \<Rightarrow> (Inr (), u\<lparr>mt_known := Map.empty\<rparr>)) (\<lambda>_ t.
      case ma_loop me account api_base provider_id auth_token (maa_magic direct) inputs t of
        (Inl (Panicked p), u) \<Rightarrow> (Inl (Panicked p), u)
      | (Inl Stuck, u) \<Rightarrow> (Inl Stuck, u)
      | (result, u) \<Rightarrow>
          bindS (ma_app (unregister_session (me_env me) (ac_id account) session_id)) (\<lambda>_ v. (result, v)) u)))))"

section \<open>What the answers and the differences mean\<close>

lemma ma_app_eq: "ma_app m t = (case m (mt_app t) of (r, s) \<Rightarrow> (mapE (map_fault MaRuntime) r, t\<lparr>mt_app := s\<rparr>))"
  by (simp add: ma_app_def on_part_def failing_def split: prod.split)

lemma bindS_ma_app_Inr: "m (mt_app t) = (Inr x, s) \<Longrightarrow> bindS (ma_app m) f t = f x (t\<lparr>mt_app := s\<rparr>)"
  by (simp add: bindS_def ma_app_eq)

text \<open>The answer the next request gets.\<close>

definition next_answer :: "ma_task \<Rightarrow> http_outcome" where
  "next_answer t = (case mt_answers t of [] \<Rightarrow> TransportError ''connection closed'' | answer # _ \<Rightarrow> answer)"

lemma execute_result:
  "\<exists>now. fst (execute me api_base i auth_token magic c t) = Inr (case trade_body magic c of
       None \<Rightarrow> ma_rejected c now ''open command omitted side''
     | Some body \<Rightarrow> trade_ack me c now (next_answer t))"
  by (auto simp: execute_def bindS_ma_app_Inr[OF unix_time_eq] bindS_def[of "request _"] request_def next_answer_def
      split: option.split list.split)

lemma make_ack_status [simp]: "ack_status (make_ack c status i now message) = status"
  by (simp add: make_ack_def)

lemma trade_ack_certain:
  assumes "ack_status (trade_ack me c now answer) \<noteq> Unknown"
  obtains status body where "answer = HttpResponse status body" "\<not> me_success me status" "\<not> me_server_error me status"
      "ack_status (trade_ack me c now answer) = Rejected"
  | status body v where "answer = HttpResponse status body" "me_success me status"
      "js_parse (me_json me) body = Some v"
      "unwrap_or (field_as (me_json me) v ''stringCode'' (js_str (me_json me))) [] \<notin> set uncertain_codes"
      "ack_status (trade_ack me c now answer) =
        (if unwrap_or (field_as (me_json me) v ''stringCode'' (js_str (me_json me))) [] \<in> set done_codes
         then Filled else Rejected)"
proof (cases answer)
  case (TransportError e)
  then show ?thesis using assms by (simp add: trade_ack_def)
next
  case (HttpResponse status body)
  show ?thesis
  proof (cases "me_success me status")
    case False
    then show ?thesis using assms HttpResponse that(1) by (auto simp: trade_ack_def split: if_splits)
  next
    case True
    then obtain v where v: "js_parse (me_json me) body = Some v"
      using assms HttpResponse by (cases "js_parse (me_json me) body") (auto simp: trade_ack_def)
    define code where "code = unwrap_or (field_as (me_json me) v ''stringCode'' (js_str (me_json me))) []"
    have st: "ack_status (trade_ack me c now answer) = status_of_code code"
      using HttpResponse True v by (simp add: trade_ack_def Let_def code_def)
    moreover have "code \<notin> set uncertain_codes"
      using assms st by (auto simp: status_of_code_def done_codes_def uncertain_codes_def split: if_splits)
    ultimately show ?thesis
      using that(2)[OF HttpResponse True v] by (simp add: status_of_code_def code_def)
  qed
qed

text \<open>The positions that are open after a difference was reported.\<close>

definition track :: "position_diff \<Rightarrow> string set \<Rightarrow> string set" where
  "track d open_ids = (case d of (p, action, volume, remaining) \<Rightarrow>
     if action = Open then insert (mp_id p) open_ids
     else if action = Close then open_ids - {mp_id p} else open_ids)"

definition diff_action :: "position_diff \<Rightarrow> trade_action" where
  "diff_action d = fst (snd d)"

lemma track_eq:
  "track d S = (if diff_action d = Open then insert (mp_id (fst d)) S
     else if diff_action d = Close then S - {mp_id (fst d)} else S)"
  by (cases d) (simp add: track_def diff_action_def)

lemma fold_track_no_close:
  "\<forall>d \<in> set ds. diff_action d \<noteq> Close \<Longrightarrow>
     fold track ds S = S \<union> (\<lambda>d. mp_id (fst d)) ` set (filter (\<lambda>d. diff_action d = Open) ds)"
proof (induction ds arbitrary: S)
  case (Cons d ds)
  then have "fold track ds (track d S) = track d S \<union> (\<lambda>d. mp_id (fst d)) ` set (filter (\<lambda>d. diff_action d = Open) ds)"
    by simp
  then show ?case using Cons.prems by (simp add: track_eq[of d S])
qed simp

lemma fold_track_closes:
  "\<forall>d \<in> set ds. diff_action d = Close \<Longrightarrow> fold track ds S = S - (\<lambda>d. mp_id (fst d)) ` set ds"
proof (induction ds arbitrary: S)
  case (Cons d ds)
  then have "fold track ds (track d S) = track d S - (\<lambda>d. mp_id (fst d)) ` set ds" by simp
  then show ?case using Cons.prems by (auto simp: track_eq[of d S])
qed simp

lemma index_positions_id: "index_positions ps i = Some p \<Longrightarrow> mp_id p = i"
  by (auto simp: index_positions_def dest!: map_of_SomeD)

lemma diff_current_action:
  "diff_current previous p i = Some d \<Longrightarrow> diff_action d \<noteq> Close \<and> fst d = p \<and> (diff_action d = Open \<longleftrightarrow> previous i = None)"
  by (auto simp: diff_current_def diff_action_def split: option.splits if_splits)

lemma set_map_filter_and_then:
  "set (List.map_filter (\<lambda>i. and_then (m i) (f i)) ks) = {d. \<exists>i p. i \<in> set ks \<and> m i = Some p \<and> f i p = Some d}"
  by (force simp: map_filter_def and_then_def split: option.splits)

lemma diff_plan_tracks:
  assumes "dom current \<subseteq> set ks" "dom previous \<subseteq> set ls"
    and "\<forall>i p. current i = Some p \<longrightarrow> mp_id p = i" "\<forall>i p. previous i = Some p \<longrightarrow> mp_id p = i"
  shows "fold track (diff_plan ks ls previous current) (dom previous) = dom current"
proof -
  define opens where "opens = List.map_filter (\<lambda>i. and_then (current i) (\<lambda>p. diff_current previous p i)) (remdups ks)"
  define closes where "closes = List.map_filter (\<lambda>i. and_then (previous i) (\<lambda>old. diff_previous current old i)) (remdups ls)"
  have o: "d \<in> set opens \<longleftrightarrow> (\<exists>i p. i \<in> set ks \<and> current i = Some p \<and> diff_current previous p i = Some d)" for d
    by (simp add: opens_def set_map_filter_and_then)
  have c: "d \<in> set closes \<longleftrightarrow> (\<exists>i p. i \<in> set ls \<and> previous i = Some p \<and> diff_previous current p i = Some d)" for d
    by (simp add: closes_def set_map_filter_and_then)
  have "(\<lambda>d. mp_id (fst d)) ` set (filter (\<lambda>d. diff_action d = Open) opens) = dom current - dom previous"
  proof (intro equalityI subsetI)
    fix i assume "i \<in> (\<lambda>d. mp_id (fst d)) ` set (filter (\<lambda>d. diff_action d = Open) opens)"
    then obtain d where d: "d \<in> set opens" "diff_action d = Open" "i = mp_id (fst d)" by auto
    then obtain j p where p: "current j = Some p" "diff_current previous p j = Some d" by (auto simp: o)
    then have "fst d = p" "previous j = None" using diff_current_action[OF p(2)] d(2) by auto
    then show "i \<in> dom current - dom previous" using assms(3) p(1) d(3) by auto
  next
    fix i assume i: "i \<in> dom current - dom previous"
    then obtain p where p: "current i = Some p" "previous i = None" by auto
    have "i \<in> set ks" using i assms(1) by blast
    then have "(p, Open, mp_volume p, mp_volume p) \<in> set opens"
      unfolding o using p by (intro exI[of _ i] exI[of _ p]) (simp add: diff_current_def)
    then have "mp_id (fst (p, Open, mp_volume p, mp_volume p)) \<in> (\<lambda>d. mp_id (fst d)) ` set (filter (\<lambda>d. diff_action d = Open) opens)"
      by (intro imageI) (simp add: diff_action_def)
    then show "i \<in> (\<lambda>d. mp_id (fst d)) ` set (filter (\<lambda>d. diff_action d = Open) opens)"
      using assms(3) p(1) by simp
  qed
  moreover have "\<forall>d \<in> set opens. diff_action d \<noteq> Close" using diff_current_action by (auto simp: o)
  ultimately have opened: "fold track opens (dom previous) = dom previous \<union> dom current"
    using fold_track_no_close[of opens "dom previous"] by auto
  have "(\<lambda>d. mp_id (fst d)) ` set closes = dom previous - dom current"
  proof (intro equalityI subsetI)
    fix i assume "i \<in> (\<lambda>d. mp_id (fst d)) ` set closes"
    then show "i \<in> dom previous - dom current"
      using assms(4) by (auto simp: c diff_previous_def split: if_splits)
  next
    fix i assume i: "i \<in> dom previous - dom current"
    then obtain p where p: "previous i = Some p" "current i = None" by auto
    have "i \<in> set ls" using i assms(2) by blast
    then have "(p\<lparr>mp_volume := f64_zero\<rparr>, Close, mp_volume p, f64_zero) \<in> set closes"
      unfolding c using p by (intro exI[of _ i] exI[of _ p]) (simp add: diff_previous_def)
    then have "mp_id (fst (p\<lparr>mp_volume := f64_zero\<rparr>, Close, mp_volume p, f64_zero)) \<in> (\<lambda>d. mp_id (fst d)) ` set closes"
      by (rule imageI)
    then show "i \<in> (\<lambda>d. mp_id (fst d)) ` set closes" using assms(4) p(1) by simp
  qed
  moreover have "\<forall>d \<in> set closes. diff_action d = Close"
    by (auto simp: c diff_previous_def diff_action_def split: if_splits)
  ultimately have "fold track closes (dom previous \<union> dom current) = dom current"
    using fold_track_closes[of closes] by auto
  then show ?thesis
    using opened by (simp add: diff_plan_def opens_def[symmetric] closes_def[symmetric])
qed

lemma own_client_id: "own_origin (Some (metaapi_client_id i)) = Some (metaapi_client_id i)"
  by (simp add: own_origin_def metaapi_client_id_def Let_def)

section \<open>Properties\<close>

text \<open>
  C21. An uncertain outcome is never reported as certain. The acknowledgement of a command is something other than
  UNKNOWN only when no request was made because the command has no side, when the provider refused
  the request with a status that is not a server error, or when it answered with success, a readable
  body and a code that is not one of the undecided ones; lost connections, server errors
  and unreadable answers all give UNKNOWN.
\<close>

theorem uncertain_outcome_is_unknown:
  assumes "execute me api_base i auth_token magic c t = (Inr ack, u)" "ack_status ack \<noteq> Unknown"
  shows "trade_body magic c = None \<or>
    (\<exists>status body. next_answer t = HttpResponse status body \<and>
      (\<not> me_success me status \<and> \<not> me_server_error me status \<and> ack_status ack = Rejected \<or>
       me_success me status \<and> (\<exists>v. js_parse (me_json me) body = Some v \<and>
         unwrap_or (field_as (me_json me) v ''stringCode'' (js_str (me_json me))) [] \<notin> set uncertain_codes)))"
proof (cases "trade_body magic c")
  case (Some request_body)
  obtain now where "ack = trade_ack me c now (next_answer t)"
    using execute_result[of me api_base i auth_token magic c t] assms(1) Some by auto
  then show ?thesis
    using assms(2) by (auto elim: trade_ack_certain[of me c now "next_answer t"])
qed simp

text \<open>The witnesses' task: an account of the tests, a refused request, and one position.\<close>

definition sample_me :: "sample_json metaapi_env" where
  "sample_me = \<lparr>me_env = calm_env, me_json = sample_js, me_success = (\<lambda>n. n = 200), me_server_error = (\<lambda>n. 500 \<le> n),
     me_show_status = show_nat, me_parse_error = (\<lambda>_. []), me_positions = (\<lambda>_. None)\<rparr>"

definition sample_task :: ma_task where
  "sample_task = \<lparr>mt_app = with_command Dispatched, mt_answers = [HttpResponse 400 ''no''], mt_requests = [],
     mt_known = Map.empty\<rparr>"

definition sample_ma_position :: "string \<Rightarrow> ma_position" where
  "sample_ma_position i = \<lparr>mp_id = i, mp_type = ''POSITION_TYPE_BUY'', mp_symbol = ''XAUUSD'', mp_volume = f64_one,
     mp_open_price = f64_one, mp_stop_loss = None, mp_take_profit = None,
     mp_client_id = Some (metaapi_client_id (cmd_command_id test_command))\<rparr>"

theorem uncertain_outcome_is_unknown_witness:
  "\<exists>ack u status. execute sample_me ''https://api'' ''acc'' ''token'' 1 test_command sample_task = (Inr ack, u) \<and>
     ack_status ack = Rejected \<and> next_answer sample_task = HttpResponse status ''no'' \<and> \<not> me_server_error sample_me status"
proof -
  have body: "trade_body 1 test_command \<noteq> None"
    by (simp add: trade_body_def test_command_def make_command_def opening_event_def test_event_def test_rule_def)
  have answer: "next_answer sample_task = HttpResponse 400 ''no''" by (simp add: next_answer_def sample_task_def)
  obtain ack u where e: "execute sample_me ''https://api'' ''acc'' ''token'' 1 test_command sample_task = (Inr ack, u)"
    "ack_status ack = Rejected"
    using execute_result[of sample_me "''https://api''" "''acc''" "''token''" 1 test_command sample_task] body answer
    by (cases "execute sample_me ''https://api'' ''acc'' ''token'' 1 test_command sample_task")
      (auto simp: trade_ack_def sample_me_def)
  then have "\<not> me_server_error sample_me 400"
    using uncertain_outcome_is_unknown[OF e(1)] body answer by (auto simp: sample_me_def)
  then show ?thesis using e answer by blast
qed

text \<open>
  C23. The reported differences tell the whole story. Following the openings and closings that are reported for
  two snapshots of the account leads from the positions of the first to exactly those of the
  second, whatever the order in which the hash maps are traversed.
\<close>

theorem position_diffs_complete:
  assumes "dom (index_positions qs) \<subseteq> set ks" "dom (index_positions ps) \<subseteq> set ls"
  shows "fold track (diff_plan ks ls (index_positions ps) (index_positions qs)) (dom (index_positions ps)) =
    dom (index_positions qs)"
  using assms by (intro diff_plan_tracks) (auto dest: index_positions_id)

theorem position_diffs_complete_witness:
  "fold track (diff_plan [''2''] [''1''] (index_positions [sample_ma_position ''1'']) (index_positions [sample_ma_position ''2'']))
     (dom (index_positions [sample_ma_position ''1''])) = {''2''}"
proof -
  have "dom (index_positions [sample_ma_position i]) = {i}" for i
    by (simp add: index_positions_def sample_ma_position_def)
  then show ?thesis
    using position_diffs_complete[of "[sample_ma_position ''2'']" "[''2'']" "[sample_ma_position ''1'']" "[''1'']"] by simp
qed

text \<open>
  C24. Orders the venue placed are not copied back. A position that carries the client id of a command is
  reported with that id as its origin, and the daemon drops the event unless the account may rebroadcast.
\<close>

theorem own_metaapi_orders_not_copied:
  assumes "mp_client_id p = Some (metaapi_client_id cid)" "side_of_type (mp_type p) = Inr side"
    and "config_account (st_config (mt_app t)) (ac_id account) = Some a" "\<not> ac_allow_rebroadcast a"
  shows "mt_app (snd (emit_diff me account (p, action, volume, remaining) t)) = called (mt_app t)"
proof -
  define now where "now = clock_ns (env_clock (me_env me) (st_calls (mt_app t)))"
  define e where "e = ma_event account p side action volume (Some remaining) now"
  have e: "ev_source_account_id e = ac_id account" "ev_origin_command_id e \<noteq> None"
    by (simp_all add: e_def ma_event_def assms(1) own_client_id)
  have "snd (handle_frame (me_env me) (ac_id account) (Event e) (called (mt_app t))) = called (mt_app t)"
    using feedback_suppressed[of "called (mt_app t)" e a "me_env me"] assms(3,4) e by simp
  then obtain res where "handle_frame (me_env me) (ac_id account) (Event e) (called (mt_app t)) = (res, called (mt_app t))"
    by (metis prod.collapse)
  moreover have "to_event me account p action volume (Some remaining) t =
      (mapE (\<lambda>e. Raised (MaEvent e)) (bindE (event_validate e) (\<lambda>_. Inr e)), t\<lparr>mt_app := called (mt_app t)\<rparr>)"
    using assms(2) by (cases "event_validate e")
      (simp_all add: to_event_def Let_def bindS_ma_app_Inr[OF unix_time_eq] now_def[symmetric] e_def[symmetric])
  ultimately show ?thesis
    by (cases "event_validate e") (simp_all add: emit_diff_def bindS_def ma_app_eq)
qed

theorem own_metaapi_orders_not_copied_witness:
  "mt_app (snd (emit_diff sample_me (test_account ''follower'' Follower)
     (sample_ma_position ''9'', Open, f64_one, f64_one) sample_task)) = called (with_command Dispatched)"
proof -
  have "config_account (st_config (mt_app sample_task)) ''follower'' = Some (test_account ''follower'' Follower)"
    by (simp add: sample_task_def with_command_def test_connected_def register_session_def Let_def test_start_def
        config_account_def test_config_def test_account_def)
  then show ?thesis
    using own_metaapi_orders_not_copied[of "sample_ma_position ''9''" "cmd_command_id test_command" Buy sample_task
        "test_account ''follower'' Follower" "test_account ''follower'' Follower" sample_me Open f64_one f64_one]
    by (simp add: sample_ma_position_def side_of_type_def sample_task_def) (simp add: test_account_def)
qed

definition sample_global :: metaapi_global where
  "sample_global = \<lparr>mag_auth_token_env = ''M'', mag_provisioning_base = default_metaapi_provisioning_base\<rparr>"

text \<open>
  The situation of the last property: a channel of one frame that nobody reads yet, and two commands waiting.
\<close>

definition full_env :: environment where
  "full_env = calm_env\<lparr>env_send := (\<lambda>n tx k. if k < 1 then Delivered else NeverRoom), env_keys := (\<lambda>_. [''a'', ''b''])\<rparr>"

definition waiting_command :: "string \<Rightarrow> stored_command" where
  "waiting_command i = \<lparr>sc_command = test_command\<lparr>cmd_command_id := i\<rparr>, sc_state = Queued\<rparr>"

definition full_task :: ma_task where
  "full_task = \<lparr>mt_app = test_start\<lparr>st_config := test_config\<lparr>dc_queue_capacity := 1\<rparr>,
     st_runtime := \<lparr>seen_events = {''evt-1''},
       commands = Map.empty(''a'' \<mapsto> waiting_command ''a'', ''b'' \<mapsto> waiting_command ''b''), mirrors = Map.empty\<rparr>\<rparr>,
     mt_answers = [], mt_requests = [], mt_known = Map.empty\<rparr>"

definition full_account :: account_config where
  "full_account = (test_account ''follower'' Follower)\<lparr>ac_backend := MetaApi, ac_metaapi :=
     Some \<lparr>maa_account_id = Some ''p'', maa_login = None, maa_server = None, maa_password_env = None,
       maa_region = ''london'', maa_api_base = None, maa_poll_interval_ms = 1000, maa_magic = 1\<rparr>\<rparr>"

lemma full_task_ok:
  "reliable_disk full_env" "covers full_env (mt_app full_task)" "commands_filed (commands (st_runtime (mt_app full_task)))"
  "capacity (mt_app full_task) = 1" "put_in 7 (mt_app full_task) = 0" "channel_unread full_env 1 7"
  "queued_ids (mt_app full_task) ''follower'' = {''a'', ''b''}"
proof -
  have "cmd_target_account_id test_command = ''follower''"
    by (simp add: test_command_def make_command_def test_rule_def)
  then show "queued_ids (mt_app full_task) ''follower'' = {''a'', ''b''}"
    by (auto simp: queued_ids_def full_task_def waiting_command_def)
qed (auto simp: reliable_disk_def full_env_def calm_env_def covers_def commands_filed_def full_task_def
    waiting_command_def capacity_def put_in_def test_start_def channel_unread_def split: if_splits)

text \<open>
  C22. A MetaApi account with too many waiting commands never starts. The task puts the commands that are
  queued for its account into its channel before it reads from it, and the channel holds only as many frames as
  the configuration says. If more are queued, the task of an account whose provider id is configured waits for ever: no request is made, the session stays
  registered, no command is executed, and one of the commands that did not fit is journaled as dispatched
  although it was never sent.
\<close>

theorem full_queue_hangs:
  assumes "ac_metaapi account = Some direct" "non_empty (maa_account_id direct) = Some i"
    and "reliable_disk (me_env me)" "channel_unread (me_env me) (capacity (mt_app t)) tx"
    and "covers (me_env me) (mt_app t)" "commands_filed (commands (st_runtime (mt_app t)))"
    and "put_in tx (mt_app t) = 0" "capacity (mt_app t) < card (queued_ids (mt_app t) (ac_id account))"
  shows "\<exists>u cs. run_account me account global auth_token tx inputs t = (Inl Stuck, u) \<and> mt_requests u = mt_requests t \<and>
    st_sessions (mt_app u) (ac_id account) = Some \<lparr>sess_id = st_next_session_id (mt_app t), sess_tx = tx\<rparr> \<and>
    st_sent (mt_app u) = st_sent (mt_app t) @ map (\<lambda>c. (tx, Command c)) cs \<and> length cs = capacity (mt_app t) \<and>
    card {j \<in> queued_ids (mt_app t) (ac_id account).
      \<exists>x. commands (st_runtime (mt_app u)) j = Some x \<and> sc_state x = Dispatched} = capacity (mt_app t) + 1"
proof -
  define s where "s = snd (register_session (ac_id account) tx (mt_app t))"
  have reg: "register_session (ac_id account) tx (mt_app t) = (Inr (st_next_session_id (mt_app t)), s)"
    by (simp add: s_def register_session_def Let_def)
  have s: "st_config s = st_config (mt_app t)" "st_runtime s = st_runtime (mt_app t)" "st_sent s = st_sent (mt_app t)"
    "st_sessions s (ac_id account) = Some \<lparr>sess_id = st_next_session_id (mt_app t), sess_tx = tx\<rparr>"
    by (simp_all add: s_def register_session_def Let_def)
  have same: "capacity s = capacity (mt_app t)" "queued_ids s (ac_id account) = queued_ids (mt_app t) (ac_id account)"
    "put_in tx s = 0" "covers (me_env me) s" "commands_filed (commands (st_runtime s))"
    using assms(5-7) by (simp_all add: capacity_def queued_ids_def put_in_def covers_def s)
  obtain v where v: "dispatch_queued_for (me_env me) (ac_id account) s = (Inl Stuck, v)" "same_frame s v"
    "\<exists>cs. st_sent v = st_sent s @ map (\<lambda>c. (tx, Command c)) cs \<and> length cs = capacity (mt_app t)"
    "card {j \<in> queued_ids s (ac_id account). \<exists>x. commands (st_runtime v) j = Some x \<and> sc_state x = Dispatched} =
      capacity (mt_app t) + 1"
    using dispatch_queued_hangs[OF assms(3) _ same(4,5) s(4)] assms(4,8) same(1-3) by auto
  have "ensure_account me account direct global auth_token t = (Inr i, t)"
    using assms(2) by (simp add: ensure_account_def)
  moreover have "bindS (ma_app (dispatch_queued_for (me_env me) (ac_id account))) f (t\<lparr>mt_app := s\<rparr>) =
      (Inl Stuck, t\<lparr>mt_app := v\<rparr>)" for f :: "unit \<Rightarrow> unit ma_call"
    using v(1) by (simp add: bindS_def ma_app_eq)
  ultimately have "run_account me account global auth_token tx inputs t = (Inl Stuck, t\<lparr>mt_app := v\<rparr>)"
    using assms(1) by (simp add: run_account_def Let_def ma_expect_def bindS_ma_app_Inr[where t = t and m = "register_session (ac_id account) tx", OF reg])
  moreover have "st_sessions v (ac_id account) = Some \<lparr>sess_id = st_next_session_id (mt_app t), sess_tx = tx\<rparr>"
    using v(2) s(4) by (simp add: same_frame_def)
  ultimately show ?thesis using v(3,4) same(2) s(3) by auto
qed

theorem full_queue_hangs_witness:
  "\<exists>u cs. run_account (sample_me\<lparr>me_env := full_env\<rparr>) full_account sample_global ''token'' 7 [] full_task = (Inl Stuck, u) \<and>
     mt_requests u = [] \<and> st_sent (mt_app u) = map (\<lambda>c. (7, Command c)) cs \<and> length cs = 1"
proof -
  have "mt_requests full_task = []" "st_sent (mt_app full_task) = []" by (simp_all add: full_task_def test_start_def)
  moreover have a: "ac_id full_account = ''follower''" by (simp add: full_account_def test_account_def)
  obtain direct where d: "ac_metaapi full_account = Some direct" "non_empty (maa_account_id direct) = Some ''p''"
    by (simp add: full_account_def non_empty_def)
  have me: "me_env (sample_me\<lparr>me_env := full_env\<rparr>) = full_env" by simp
  have "\<exists>u cs. run_account (sample_me\<lparr>me_env := full_env\<rparr>) full_account sample_global ''token'' 7 [] full_task = (Inl Stuck, u) \<and>
     mt_requests u = mt_requests full_task \<and> st_sent (mt_app u) = st_sent (mt_app full_task) @ map (\<lambda>c. (7, Command c)) cs \<and>
     length cs = capacity (mt_app full_task)"
    using full_queue_hangs[OF d, of "sample_me\<lparr>me_env := full_env\<rparr>" full_task 7 sample_global "''token''" "[]", unfolded me a]
      full_task_ok by auto
  ultimately show ?thesis using full_task_ok(4) by simp
qed

end
