(* ===== verification/Lifetime.thy ===== *)
theory Lifetime
  imports Interleaving MetaApi
begin

text \<open>
  The whole daemon: connections of agents, lives of the cTrader hubs and of the MetaApi tasks, and restarts of
  the process. Whatever the brokers answer, the venues reach the daemon's state only through its handlers, so
  what the handlers keep holds of them. Two views: a lifetime is a list of whole connections and lives, one
  after the other (what is sent was journaled); a handler run (\<open>handler_step\<close>) has one handler of the daemon as its
  step, whoever calls it, so the connections and venues overlap and only their handlers do not (no
  command is sent twice).
\<close>

section \<open>The venues keep what the handlers keep\<close>

text \<open>A property of the daemon's state, of a hub and of a MetaApi task.\<close>

abbreviation of_hub :: "(app_state \<Rightarrow> bool) \<Rightarrow> hub \<Rightarrow> bool" where
  "of_hub P \<equiv> \<lambda>h. P (hb_app h)"

abbreviation of_ma :: "(app_state \<Rightarrow> bool) \<Rightarrow> ma_task \<Rightarrow> bool" where
  "of_ma P \<equiv> \<lambda>t. P (mt_app t)"

lemma keeps_case_list:
  "keeps P m \<Longrightarrow> (\<And>y ys. keeps P (f y ys)) \<Longrightarrow> keeps P (case xs of [] \<Rightarrow> m | y # ys \<Rightarrow> f y ys)"
  by (cases xs) simp_all

lemma keeps_case_read:
  "(\<And>x. keeps P (f x)) \<Longrightarrow> keeps P m \<Longrightarrow> keeps P (case r of WsMessage x \<Rightarrow> f x | WsFailed \<Rightarrow> m)"
  by (cases r) simp_all

lemma keeps_case_answer:
  "(\<And>e. keeps P (f e)) \<Longrightarrow> (\<And>status body. keeps P (g status body)) \<Longrightarrow>
   keeps P (case answer of TransportError e \<Rightarrow> f e | HttpResponse status body \<Rightarrow> g status body)"
  by (cases answer) simp_all

text \<open>A body and its clean-up, which a panic or a wait without end skips.\<close>

lemma keeps_clean_up:
  assumes "keeps P m" "\<And>t. keeps P (f t)"
  shows "keeps P (\<lambda>s. case m s of
      (Inl (Panicked p), t) \<Rightarrow> (Inl (Panicked p), t)
    | (Inl Stuck, t) \<Rightarrow> (Inl Stuck, t)
    | (result, t) \<Rightarrow> (case f t t of (Inl e, u) \<Rightarrow> (Inl e, u) | (Inr _, u) \<Rightarrow> (result, u)))"
  unfolding keeps_def
proof (intro allI impI)
  fix s assume "P s"
  obtain r t where m: "m s = (r, t)" by (cases "m s")
  then have t: "P t" using keepsD[OF assms(1) \<open>P s\<close>] by simp
  obtain q u where f: "f t t = (q, u)" by (cases "f t t")
  then have "P u" using keepsD[OF assms(2) t, of t] by simp
  then show "P (snd (case m s of
      (Inl (Panicked p), t) \<Rightarrow> (Inl (Panicked p), t)
    | (Inl Stuck, t) \<Rightarrow> (Inl Stuck, t)
    | (result, t) \<Rightarrow> (case f t t of (Inl e, u) \<Rightarrow> (Inl e, u) | (Inr _, u) \<Rightarrow> (result, u))))"
    using t m f by (auto split: sum.split fault.split)
qed

context served_property
begin

lemma serves_map_keys: "keeps I (map_keys env)" and serves_time: "keeps I (unix_time_ns env)"
  by (simp_all add: keeps_def map_keys_def unix_time_ns_def serves_clock)

lemma keeps_on_app: "keeps I m \<Longrightarrow> keeps (of_hub I) (on_app m)"
  unfolding on_app_def by (intro keeps_on_part keeps_failing) simp_all

lemma keeps_ma_app: "keeps I m \<Longrightarrow> keeps (of_ma I) (ma_app m)"
  unfolding ma_app_def by (intro keeps_on_part keeps_failing) simp_all

lemmas serves_all = serves_register serves_dispatch_queued serves_frame serves_unregister serves_time serves_map_keys

lemma hub_only:
  "keeps (of_hub I) (send_json ve n i p)" "keeps (of_hub I) (wait_for ve k a)"
  "keeps (of_hub I) (take_pending i)" "keeps (of_hub I) (take_protection i)"
  by (auto simp: keeps_def send_json_def wait_for_def take_pending_def take_protection_def split: prod.split)

lemmas hub_keeps = keeps_bindS keeps_getS keeps_liftE keeps_returnS keeps_failS keeps_if keeps_case_option
  keeps_case_sum keeps_case_prod keeps_modifyS keeps_eachS hub_only keeps_on_app serves_all

lemma keeps_emit_event:
  assumes "ve_env ve = env" shows "keeps (of_hub I) (emit_event ve r p action volume rest)"
  unfolding emit_event_def Let_def assms by (intro hub_keeps)

lemma keeps_acknowledge:
  assumes "ve_env ve = env" shows "keeps (of_hub I) (acknowledge ve c status i message)"
  unfolding acknowledge_def assms by (intro hub_keeps)

lemma keeps_set_positions: "keeps (of_hub I) (modifyS (set_positions ctid f))"
  by (simp add: keeps_def)

lemma keeps_update_account:
  assumes "ve_env ve = env" shows "keeps (of_hub I) (update_account ve ctid payload)"
  unfolding update_account_def update_position_def Let_def
  by (intro hub_keeps keeps_emit_event assms; simp)

lemma keeps_protect_position:
  assumes "ve_env ve = env" shows "keeps (of_hub I) (protect_position ve c i)"
  unfolding protect_position_def assms by (intro hub_keeps; simp)

lemma keeps_handle_message:
  assumes "ve_env ve = env" shows "keeps (of_hub I) (handle_message ve v)"
  unfolding handle_message_def execution_event_def order_error_def Let_def
  by (intro hub_keeps keeps_acknowledge keeps_update_account keeps_protect_position assms)

lemma keeps_command_arrived:
  assumes "ve_env ve = env" shows "keeps (of_hub I) (command_arrived ve c)"
  unfolding command_arrived_def by (intro hub_keeps keeps_acknowledge assms; simp)

lemma keeps_hub_loop: "ve_env ve = env \<Longrightarrow> keeps (of_hub I) (hub_loop ve events)"
proof (induction ve events rule: hub_loop.induct)
  case (5 ve rest)
  then show ?case
    unfolding hub_loop.simps by (intro hub_keeps keeps_case_list keeps_case_read keeps_handle_message) auto
qed (simp_all, (intro hub_keeps keeps_command_arrived; simp)+)

lemma keeps_log_in_account:
  assumes "ve_env ve = env" shows "keeps (of_hub I) (log_in_account ve tx a)"
  unfolding log_in_account_def Let_def assms by (intro hub_keeps; simp)

lemma keeps_log_in: "ve_env ve = env \<Longrightarrow> keeps (of_hub I) (log_in_accounts ve accounts)"
  by (induction ve accounts rule: log_in_accounts.induct)
    (auto intro!: hub_keeps keeps_log_in_account simp del: bindS_simps)

lemma keeps_run_hub:
  assumes "ve_env ve = env"
  shows "keeps (of_hub I) (run_hub ve client_id client_secret accounts events)"
  unfolding run_hub_def
  by (intro keeps_bindS hub_only keeps_log_in assms keeps_clean_up keeps_hub_loop)
    (unfold assms, intro hub_keeps)

lemma ma_only: "keeps (of_ma I) (request r)" "keeps (of_ma I) (ma_expect m x)"
  by (auto simp: keeps_def request_def ma_expect_def split: list.split)

lemmas ma_keeps = keeps_bindS keeps_getS keeps_liftE keeps_returnS keeps_failS keeps_if keeps_case_option
  keeps_case_sum keeps_case_prod keeps_modifyS keeps_eachS ma_only keeps_ma_app serves_all

lemma keeps_provision: "keeps (of_ma I) (provision me r n)"
  by (induction n; unfold provision.simps; (intro ma_keeps keeps_case_answer | assumption)+)

lemma keeps_ensure_account: "keeps (of_ma I) (ensure_account me account direct global auth_token)"
proof -
  have "keeps (of_ma I) (case ac_platform account of Mt4 \<Rightarrow> returnS ''mt4'' | Mt5 \<Rightarrow> returnS ''mt5''
           | _ \<Rightarrow> failS (Raised (MaMessage ''MetaApi provisioning only supports MT4/MT5'')))"
    by (cases "ac_platform account") (simp_all add: keeps_returnS keeps_failS)
  then show ?thesis unfolding ensure_account_def by (intro ma_keeps keeps_provision)
qed

lemma keeps_execute:
  assumes "me_env me = env" shows "keeps (of_ma I) (execute me api_base i auth_token magic c)"
  unfolding execute_def assms by (intro ma_keeps)

lemma keeps_fetch: "keeps (of_ma I) (fetch_positions me api_base i auth_token)"
  by (auto simp: keeps_def fetch_positions_def bindS_def request_def split: http_outcome.split list.split)

lemma keeps_emit_diff:
  assumes "me_env me = env" shows "keeps (of_ma I) (emit_diff me account d)"
  unfolding emit_diff_def to_event_def Let_def assms by (intro ma_keeps)

lemma keeps_emit_diffs:
  assumes "me_env me = env" shows "keeps (of_ma I) (emit_position_diffs me account ps qs)"
  unfolding emit_position_diffs_def assms by (intro ma_keeps keeps_emit_diff assms)

text \<open>Fetching the positions and going on with them, or without.\<close>

lemma keeps_fetched:
  assumes "\<And>ps u. I (mt_app u) \<Longrightarrow> I (mt_app (snd (f ps u)))" "\<And>u. I (mt_app u) \<Longrightarrow> I (mt_app (snd (g u)))"
  shows "keeps (of_ma I) (\<lambda>t. case fetch_positions me api_base i auth_token t of (Inr ps, u) \<Rightarrow> f ps u | (Inl _, u) \<Rightarrow> g u)"
  unfolding keeps_def
proof (intro allI impI)
  fix t :: ma_task assume "I (mt_app t)"
  then have "I (mt_app (snd (fetch_positions me api_base i auth_token t)))" using keepsD[OF keeps_fetch] by blast
  then show "I (mt_app (snd (case fetch_positions me api_base i auth_token t of (Inr ps, u) \<Rightarrow> f ps u | (Inl _, u) \<Rightarrow> g u)))"
    using assms by (cases "fetch_positions me api_base i auth_token t") (auto split: sum.split)
qed

lemma keeps_poll:
  assumes "me_env me = env"
  shows "keeps (of_ma I) (\<lambda>t. case fetch_positions me api_base i auth_token t of
          (Inr ps, u) \<Rightarrow>
            bindS (emit_position_diffs me account (mt_known u) (index_positions ps)) (\<lambda>_.
              modifyS (\<lambda>v. v\<lparr>mt_known := index_positions ps\<rparr>)) u
        | (Inl _, u) \<Rightarrow> (Inr (), u))"
proof (rule keeps_fetched)
  fix ps and u :: ma_task assume u: "I (mt_app u)"
  have "keeps (of_ma I) (bindS (emit_position_diffs me account k (index_positions ps)) (\<lambda>_.
      modifyS (\<lambda>v. v\<lparr>mt_known := index_positions ps\<rparr>)))" for k
    by (intro ma_keeps keeps_emit_diffs assms) simp
  from keepsD[OF this, OF u] show "I (mt_app (snd (bindS (emit_position_diffs me account (mt_known u)
      (index_positions ps)) (\<lambda>_. modifyS (\<lambda>v. v\<lparr>mt_known := index_positions ps\<rparr>)) u)))" .
qed simp

lemma keeps_ma_loop: "me_env me = env \<Longrightarrow> keeps (of_ma I) (ma_loop me account api_base i auth_token magic inputs)"
proof (induction me account api_base i auth_token magic inputs rule: ma_loop.induct)
  case (3 me account api_base i auth_token magic frame rest)
  have "keeps (of_ma I) (case frame of
        Command c \<Rightarrow> bindS (execute me api_base i auth_token magic c) (\<lambda>ack.
          ma_app (handle_frame (me_env me) (ac_id account) (Ack ack)))
      | _ \<Rightarrow> returnS ())"
    using keeps_execute[OF 3(2)] serves_frame unfolding 3(2)
    by (cases frame) (auto intro!: keeps_bindS keeps_ma_app keeps_returnS)
  then show ?case using 3 unfolding ma_loop.simps by (intro keeps_bindS) auto
next
  case (4 me account api_base i auth_token magic rest)
  then show ?case unfolding ma_loop.simps by (intro keeps_bindS keeps_if keeps_returnS keeps_poll) auto
qed (simp_all add: keeps_returnS)

lemma keeps_run_account:
  assumes "me_env me = env" shows "keeps (of_ma I) (run_account me account global auth_token tx inputs)"
proof -
  have "keeps (of_ma I) (\<lambda>t. case fetch_positions me api_base i auth_token t of
        (Inr ps, u) \<Rightarrow> (Inr (), u\<lparr>mt_known := index_positions ps\<rparr>)
      | (Inl _, u) \<Rightarrow> (Inr (), u\<lparr>mt_known := Map.empty\<rparr>))" for api_base i
    by (rule keeps_fetched) simp_all
  moreover have "keeps (of_ma I) (\<lambda>t. case ma_loop me account api_base i auth_token magic inputs t of
        (Inl (Panicked p), u) \<Rightarrow> (Inl (Panicked p), u)
      | (Inl Stuck, u) \<Rightarrow> (Inl Stuck, u)
      | (result, u) \<Rightarrow> bindS (ma_app (unregister_session env (ac_id account) session_id))
          (\<lambda>_ v. (result, v)) u)" for api_base i magic session_id
    unfolding bindS_def[of "ma_app _"]
    by (rule keeps_clean_up[where f = "\<lambda>_. ma_app (unregister_session env (ac_id account) session_id)"])
      (intro keeps_ma_loop assms ma_keeps)+
  ultimately show ?thesis
    unfolding run_account_def Let_def assms by (intro ma_keeps keeps_ensure_account)
qed

text \<open>A connection is a run of operations without a restart.\<close>

lemma keeps_connection:
  assumes "I s" shows "I (snd (snd (handle_connection env cn s)))"
proof -
  obtain r out t where e: "handle_connection env cn s = (r, out, t)" by (cases "handle_connection env cn s")
  from e have "I t"
  proof (cases rule: handle_connection_cases)
    case (session first rest hello)
    obtain ops where ops: "\<forall>x \<in> set ops. op_account x = Some (hello_account_id hello)" "t = run env ops s"
      using serve_session_run[of "hello_account_id hello" env "cn_tx cn" rest s] session(3) by auto
    then have "\<forall>x \<in> set ops. x \<noteq> Restart" by auto
    then show ?thesis using keeps_run assms ops(2) by blast
  qed (use assms in simp_all)
  then show ?thesis using e by simp
qed

end

section \<open>Lifetimes\<close>

text \<open>
  What happens to the daemon: a connection is served, a hub or a MetaApi task lives from its start to its
  end, the process restarts. The environment of the daemon is the venues' too.
\<close>

record 'j hub_life =
  hl_venue :: "'j venue_env"
  hl_client_id :: string
  hl_client_secret :: string
  hl_accounts :: "(nat \<times> hub_account) list"
  hl_socket :: "ws_read list"
  hl_order :: "i64 list"
  hl_events :: "hub_event list"

record 'j ma_life =
  ml_env :: "'j metaapi_env"
  ml_account :: account_config
  ml_global :: metaapi_global
  ml_auth_token :: string
  ml_tx :: nat
  ml_answers :: "http_outcome list"
  ml_inputs :: "ma_input list"

datatype 'j episode = Served connection | HubLived "'j hub_life" | AccountLived "'j ma_life" | Restarted

definition live_hub :: "environment \<Rightarrow> 'j hub_life \<Rightarrow> app_state \<Rightarrow> app_state" where
  "live_hub env l s = hb_app (snd (run_hub ((hl_venue l)\<lparr>ve_env := env\<rparr>) (hl_client_id l) (hl_client_secret l)
     (hl_accounts l) (hl_events l)
     \<lparr>hb_app = s, hb_runtimes = Map.empty, hb_pending = Map.empty, hb_protection = Map.empty,
      hb_socket = hl_socket l, hb_sent = [], hb_order = hl_order l\<rparr>))"

definition live_account :: "environment \<Rightarrow> 'j ma_life \<Rightarrow> app_state \<Rightarrow> app_state" where
  "live_account env l s = mt_app (snd (run_account ((ml_env l)\<lparr>me_env := env\<rparr>) (ml_account l) (ml_global l)
     (ml_auth_token l) (ml_tx l)
     (ml_inputs l) \<lparr>mt_app = s, mt_answers = ml_answers l, mt_requests = [], mt_known = Map.empty\<rparr>))"

fun live :: "environment \<Rightarrow> 'j episode \<Rightarrow> app_state \<Rightarrow> app_state option" where
  "live env (Served cn) s = Some (snd (snd (handle_connection env cn s)))"
| "live env (HubLived l) s = Some (live_hub env l s)"
| "live env (AccountLived l) s = Some (live_account env l s)"
| "live env Restarted s = restart env s"

definition lifetime :: "environment \<Rightarrow> 'j episode list \<Rightarrow> app_state \<Rightarrow> app_state" where
  "lifetime env = run_ops (live env)"

lemma served_part:
  assumes "\<And>I. served_property env I \<Longrightarrow> keeps (\<lambda>v. I (get v)) m"
  shows "served env (get v) (get (snd (m v)))"
  unfolding served_def using keepsD[OF assms] by blast

lemma live_hub_served: "served env s (live_hub env l s)"
proof -
  let ?h = "\<lparr>hb_app = s, hb_runtimes = Map.empty, hb_pending = Map.empty, hb_protection = Map.empty,
      hb_socket = hl_socket l, hb_sent = [], hb_order = hl_order l\<rparr>"
  have "served env (hb_app ?h) (live_hub env l s)"
    unfolding live_hub_def by (rule served_part, rule served_property.keeps_run_hub) simp_all
  then show ?thesis by simp
qed

lemma live_account_served: "served env s (live_account env l s)"
proof -
  let ?t = "\<lparr>mt_app = s, mt_answers = ml_answers l, mt_requests = [], mt_known = Map.empty\<rparr>"
  have "served env (mt_app ?t) (live_account env l s)"
    unfolding live_account_def by (rule served_part, rule served_property.keeps_run_account) simp_all
  then show ?thesis by simp
qed

lemma connection_served: "served env s (snd (snd (handle_connection env cn s)))"
  unfolding served_def by (blast intro: served_property.keeps_connection)

text \<open>An episode is served by the handlers, or it is a restart.\<close>

lemma live_step:
  assumes "live env x s = Some t"
  obtains "served env s t" | "x = Restarted" "restart env s = Some t"
  using assms that by (cases x) (auto intro: live_hub_served live_account_served connection_served)

interpretation journaled_life: invariant_system "live env" "\<lambda>x. True" "journaled_invariant cfg eng" for env cfg eng
  by unfold_locales (auto elim!: live_step intro: served_journaled restart_journaled)

section \<open>At most once\<close>

text \<open>The keys of all commands that were ever planned, as the history of the journal has them.\<close>

definition planned_keys :: "app_state \<Rightarrow> plan_key set" where
  "planned_keys s = {key_of c |c. \<exists>e cs. EventPlanned e cs \<in> set (st_written s) \<and> c \<in> set cs}"

text \<open>
  The ledger of commands, for a history whose keys lie in \<open>X\<close>; the ids of the keys in \<open>X\<close> are distinct and the
  journal is durable.
\<close>

definition keyed_ledger :: "environment \<Rightarrow> daemon_config \<Rightarrow> copy_engine \<Rightarrow> plan_key set \<Rightarrow> app_state \<Rightarrow> bool" where
  "keyed_ledger env cfg eng X s \<longleftrightarrow>
     engine_new (dc_routes cfg) = Inr eng \<and> distinct_routes cfg \<and> inj_on (id_of (env_sha env)) X \<and>
     dc_durability cfg \<noteq> NoDurability \<and> started_as cfg eng s \<and>
     (planned_keys s \<subseteq> X \<longrightarrow> daemon_ledger (env_sha env) X s)"

lemma planned_keys_mono: "st_written t = st_written s @ rs \<Longrightarrow> planned_keys s \<subseteq> planned_keys t"
  by (auto simp: planned_keys_def)

text \<open>A handler that keeps the ledger of every set of keys keeps the keyed one.\<close>

lemma keeps_keyed:
  assumes "keeps (daemon_ledger (env_sha env) X) m" "keeps (started_as cfg eng) m"
    and "\<And>w. keeps (\<lambda>s. \<exists>rs. st_written s = w @ rs) m"
  shows "keeps (keyed_ledger env cfg eng X) m"
  unfolding keeps_def
proof (intro allI impI)
  fix s assume s: "keyed_ledger env cfg eng X s"
  have "\<exists>rs. st_written (snd (m s)) = st_written s @ rs"
    using keepsD[OF assms(3)[of "st_written s"], of s] by simp
  then have "planned_keys s \<subseteq> planned_keys (snd (m s))" using planned_keys_mono by blast
  then show "keyed_ledger env cfg eng X (snd (m s))"
    using s keepsD[OF assms(1)] keepsD[OF assms(2)] unfolding keyed_ledger_def by blast
qed

lemma event_keyed: "keeps (keyed_ledger env cfg eng X) (handle_event env e)"
  unfolding keeps_def
proof (intro allI impI)
  fix s assume s: "keyed_ledger env cfg eng X s"
  define t where "t = snd (handle_event env e s)"
  note inv = s[unfolded keyed_ledger_def]
  have started: "started_as cfg eng t"
    using inv keepsD[OF start_up.keeps_handle_event] by (simp add: t_def)
  have "daemon_ledger (env_sha env) X t" if keys: "planned_keys t \<subseteq> X"
  proof (cases rule: handle_event_cases[OF surjective_pairing[of "handle_event env e s"]])
    case 1
    then have "planned_keys s = planned_keys t" by (simp add: planned_keys_def t_def)
    then show ?thesis using 1 inv keys by (simp add: t_def daemon_ledger_def sent_commands_def replayed_def)
  next
    case (2 account planned ts u ok)
    have rest: "if ok then eachS (dispatch_if_connected env) planned u = (fst (handle_event env e s), t) else t = u"
      using 2(7) by (auto simp: t_def split: if_splits)
    have "\<exists>rs. st_written t = st_written u @ rs"
    proof (cases ok)
      case True
      then have "t = snd (eachS (dispatch_if_connected env) planned u)" using rest by simp
      moreover have "keeps (\<lambda>s. \<exists>rs. st_written s = st_written u @ rs) (eachS (dispatch_if_connected env) planned)"
        by (intro keeps_eachS history_grows.keeps_dispatch)
      ultimately show ?thesis by (simp add: keeps_def)
    qed (use rest in simp)
    then have u: "planned_keys u \<subseteq> X" using keys planned_keys_mono by blast
    have "st_written u = st_written s \<or> st_written u = st_written s @ [EventPlanned (ev_event_id e) planned]"
      using 2(6) by (auto simp: logs_def)
    then have "\<exists>rs. st_written u = st_written s @ rs" by (elim disjE) auto
    then have "planned_keys s \<subseteq> planned_keys u" using planned_keys_mono by blast
    then have led: "daemon_ledger (env_sha env) X s" using inv u by blast
    show ?thesis
    proof (cases "st_written u = st_written s @ [EventPlanned (ev_event_id e) planned]")
      case True
      then have "\<forall>c \<in> set planned. key_of c \<in> X" using u by (auto simp: planned_keys_def)
      moreover have "distinct (map (\<lambda>r. (rr_id r, rr_target_account_id r))
          (routes_for (st_engine s) (ev_source_account_id e)))"
        using inv routes_for_distinct[of cfg eng] by (simp add: started_as_def)
      ultimately show ?thesis
        using inv by (intro planned_ledger[OF led _ 2(5) _ _ 2(4,6) rest]) auto
    next
      case False
      then have "\<not> ok" "st_written u = st_written s" using 2(6) inv by (auto simp: logs_def started_as_def)
      then have "t = u" "st_runtime u = st_runtime s" "sent_commands u = sent_commands s" "replayed u = replayed s"
        "jr_durability (st_journal u) = jr_durability (st_journal s)"
        using 2(6) rest by (auto simp: logs_def same_frame_def sent_commands_def replayed_def)
      then show ?thesis using led by (simp add: daemon_ledger_def)
    qed
  qed
  then show "keyed_ledger env cfg eng X (snd (handle_event env e s))"
    using inv started by (simp add: keyed_ledger_def t_def)
qed

interpretation keyed: served_property env "keyed_ledger env cfg eng X" for env cfg eng X
proof
  show "keeps (keyed_ledger env cfg eng X) (register_session a tx)" for a tx
    by (intro keeps_keyed register_ledger start_up.keeps_register history_grows.keeps_register)
  show "keeps (keyed_ledger env cfg eng X) (dispatch_queued_for env a)" for a
    by (intro keeps_keyed start_up.keeps_dispatch_queued history_grows.keeps_dispatch_queued)
      (simp add: keeps_def dispatch_queued_ledger)
  show "keeps (keyed_ledger env cfg eng X) (unregister_session env a i)" for a i
    by (intro keeps_keyed unregister_ledger start_up.keeps_unregister history_grows.keeps_unregister)
  have "keeps (keyed_ledger env cfg eng X) (handle_ack env a)" for a
    by (intro keeps_keyed ack_ledger start_up.keeps_handle_ack history_grows.keeps_handle_ack)
  then show "keeps (keyed_ledger env cfg eng X) (handle_frame env p f)" for p f
    unfolding handle_frame_def by (cases f) (auto intro!: keeps_failS keeps_if keeps_returnS event_keyed)
  show "keyed_ledger env cfg eng X s \<Longrightarrow> keyed_ledger env cfg eng X (called s)" for s
    by (simp add: keyed_ledger_def start_up.stable planned_keys_def)
qed

text \<open>
  The invariant of a lifetime. The ledger is kept only while the serialiser reads back what is in the journal,
  since a restart rebuilds the store from it.
\<close>

definition once_invariant :: "environment \<Rightarrow> daemon_config \<Rightarrow> copy_engine \<Rightarrow> plan_key set \<Rightarrow> app_state \<Rightarrow> bool" where
  "once_invariant env cfg eng X s \<longleftrightarrow> whole_writes env \<and> started_as cfg eng s \<and> file_matches env s \<and>
     (serde_ok (env_enc env) (env_dec env) (set (st_written s)) \<longrightarrow> keyed_ledger env cfg eng X s)"

lemma served_once: "served env s t \<Longrightarrow> once_invariant env cfg eng X s \<Longrightarrow> once_invariant env cfg eng X t"
  using served_started served_file served_serde servedD[OF _ keyed.served_property_axioms]
  unfolding once_invariant_def by blast

lemma restart_once:
  assumes r: "restart env s = Some t" and s: "once_invariant env cfg eng X s"
    and eng: "engine_new (dc_routes cfg) = Inr eng"
  shows "once_invariant env cfg eng X t"
proof -
  note inv = s[unfolded once_invariant_def]
  note t = restart_started[OF r _ eng]
  have same: "st_written t = st_written s" "jr_contents (st_journal t) = jr_contents (st_journal s)" "started_as cfg eng t"
    using t inv by auto
  have "keyed_ledger env cfg eng X t" if serde: "serde_ok (env_enc env) (env_dec env) (set (st_written s))"
  proof -
    have k: "keyed_ledger env cfg eng X s" using inv serde by blast
    then have "jr_durability (st_journal s) \<noteq> NoDurability" by (simp add: keyed_ledger_def started_as_def)
    moreover have "planned_keys t = planned_keys s" using same(1) by (simp add: planned_keys_def)
    ultimately show ?thesis
      using k same(3) restart_ledger(1)[OF r serde] inv by (auto simp: keyed_ledger_def)
  qed
  then show ?thesis using inv same by (simp add: once_invariant_def file_matches_def)
qed

section \<open>Handler by handler\<close>

text \<open>
  The daemon seen from its handlers: one of them runs to its end, the process restarts, or a task reads the clock.
  Which connection or venue calls the handler does not matter.
\<close>

inductive handler_step :: "environment \<Rightarrow> app_state \<Rightarrow> app_state \<Rightarrow> bool" for env where
  handled: "operate env x s = Some t \<Longrightarrow> handler_step env s t"
| clock_read: "handler_step env s (called s)"

text \<open>Connections, hubs and MetaApi tasks do nothing else, so lifetimes are such runs.\<close>

lemma reaches_served: "served_property env (\<lambda>u. (handler_step env)\<^sup>*\<^sup>* s u)"
proof -
  have more: "(handler_step env)\<^sup>*\<^sup>* s t" if "(handler_step env)\<^sup>*\<^sup>* s u" "operate env x u = Some t" for x u t
    using that(1) handled[OF that(2)] by (rule rtranclp.rtrancl_into_rtrancl)
  show ?thesis
  proof
    show "keeps (\<lambda>u. (handler_step env)\<^sup>*\<^sup>* s u) (register_session a tx)" for a tx
      unfolding keeps_def using more[where x = "Register a tx"] by simp
    show "keeps (\<lambda>u. (handler_step env)\<^sup>*\<^sup>* s u) (dispatch_queued_for env a)" for a
      unfolding keeps_def using more[where x = "DispatchQueued a"] by simp
    show "keeps (\<lambda>u. (handler_step env)\<^sup>*\<^sup>* s u) (handle_frame env p f)" for p f
      unfolding keeps_def using more[where x = "Frame p f"] by simp
    show "keeps (\<lambda>u. (handler_step env)\<^sup>*\<^sup>* s u) (unregister_session env a i)" for a i
      unfolding keeps_def using more[where x = "Unregister a i"] by simp
    show "(handler_step env)\<^sup>*\<^sup>* s u \<Longrightarrow> (handler_step env)\<^sup>*\<^sup>* s (called u)" for u
      by (erule rtranclp.rtrancl_into_rtrancl) (rule clock_read)
  qed
qed

lemma served_handlers: "served env s t \<Longrightarrow> (handler_step env)\<^sup>*\<^sup>* s t"
  by (erule servedD[OF _ reaches_served]) simp

lemma run_handlers: "(handler_step env)\<^sup>*\<^sup>* s (run env ops s)"
proof (induction ops arbitrary: s)
  case (Cons x ops)
  then show ?case
    by (cases "operate env x s") (auto simp: run_def intro: converse_rtranclp_into_rtranclp handled)
qed (simp add: run_def)

lemma live_handlers: "live env x s = Some t \<Longrightarrow> (handler_step env)\<^sup>*\<^sup>* s t"
  using served_handlers handled[of env Restart s t] by (elim live_step) auto

lemma lifetime_handlers: "(handler_step env)\<^sup>*\<^sup>* s (lifetime env episodes s)"
proof (induction episodes arbitrary: s)
  case (Cons x episodes)
  then show ?case
    by (cases "live env x s") (auto simp: lifetime_def intro: rtranclp_trans live_handlers)
qed (simp add: lifetime_def)

lemma handler_step_cases:
  assumes "handler_step env s t" obtains "served env s t" | "restart env s = Some t"
  using assms
proof (cases rule: handler_step.cases)
  case (handled x)
  then show ?thesis using that operate_served[of env x s t] by (cases "x = Restart") auto
next
  case clock_read
  have "served env s t" unfolding served_def clock_read by (blast intro: served_property.serves_clock)
  then show ?thesis by (rule that)
qed

lemma handlers_once:
  assumes "(handler_step env)\<^sup>*\<^sup>* s t" "engine_new (dc_routes cfg) = Inr eng" "once_invariant env cfg eng X s"
  shows "once_invariant env cfg eng X t"
  using assms(1,3)
proof (induction rule: rtranclp_induct)
  case (step u v)
  have u: "once_invariant env cfg eng X u" using step.IH step.prems by simp
  from step.hyps(2) show ?case
  proof (cases rule: handler_step_cases)
    case 1
    then show ?thesis using u by (rule served_once)
  next
    case 2
    then show ?thesis using u assms(2) by (rule restart_once)
  qed
qed

section \<open>A lifetime\<close>

text \<open>
  The concrete lifetime of the witnesses: the master's connection reports an opening, the follower's connection
  gets the queued command, and the daemon restarts.
\<close>

definition quiet :: "app_state \<Rightarrow> app_state \<Rightarrow> bool" where
  "quiet s t \<longleftrightarrow> jr_durability (st_journal t) = Flush \<and> st_sent t = st_sent s \<and> st_written t = st_written s"

lemma unregister_quiet: "keeps (quiet s) (unregister_session test_env a i)"
proof -
  have "keeps (quiet s) (mark_unknown test_env j reason)" for j reason
    by (simp add: keeps_def quiet_def mark_unknown_def log_apply_def append_record_def journal_append_def
        written_by_def test_enc_def bindS_def called_def unix_time_eq)
  then show ?thesis
    unfolding unregister_session_def
    by (intro keeps_bindS keeps_getS keeps_case_option keeps_returnS keeps_if keeps_modifyS keeps_eachS)
      (simp_all add: keeps_def stored_values_def quiet_def called_def)
qed

text \<open>Where the two connections lead.\<close>

lemma opening_served:
  obtains u where "snd (snd (handle_connection test_env opening_connection test_start)) = u"
    "st_config u = test_config" "st_sent u = []" "st_written u = [EventPlanned ''evt-1'' [test_command]]"
    "jr_durability (st_journal u) = Flush"
    "commands (st_runtime u) = Map.empty(cmd_command_id test_command \<mapsto> \<lparr>sc_command = test_command, sc_state = Queued\<rparr>)"
proof -
  obtain u where u: "task_step\<^sup>*\<^sup>* (test_start, connection_task test_env opening_connection)
      (u, serving_rest (eachT (dispatch_task test_env) [test_command]))"
    "st_config u = test_config" "st_sent u = []" "st_written u = [EventPlanned ''evt-1'' [test_command]]"
    "jr_durability (st_journal u) = Flush"
    "commands (st_runtime u) = Map.empty(cmd_command_id test_command \<mapsto> \<lparr>sc_command = test_command, sc_state = Queued\<rparr>)"
    "st_sessions u = Map.empty(''master'' \<mapsto> \<lparr>sess_id = 1, sess_tx = 7\<rparr>)"
    by (rule opening_connection_steps)
  have "eachS (dispatch_if_connected test_env) [test_command] u = (Inr (), u)"
    using u(7) by (simp add: dispatch_if_connected_def bindS_def)
  moreover have "values_in (env_keys test_env n) (commands (st_runtime u)) =
      [\<lparr>sc_command = test_command, sc_state = Queued\<rparr>]" for n
    by (simp add: u(6) values_in_def map_filter_simps test_env_def)
  then have "unregister_session test_env ''master'' 1 u = (Inr (), called (u\<lparr>st_sessions := Map.empty\<rparr>))"
    using u(7) by (simp add: unregister_session_def)
  ultimately have "snd (alone (connection_task test_env opening_connection) test_start) = called (u\<lparr>st_sessions := Map.empty\<rparr>)"
    unfolding alone_task_steps[OF u(1)] serving_rest_def
    by (simp add: alone_bindT alone_simps finish_session_def bindS_def failing_def del: eachT.simps eachS.simps)
  then have "snd (snd (handle_connection test_env opening_connection test_start)) = called (u\<lparr>st_sessions := Map.empty\<rparr>)"
    by (simp add: alone_connection split: prod.splits)
  then show thesis by (rule that) (use u in \<open>simp_all add: called_def\<close>)
qed

lemma follower_served:
  assumes "st_config u = test_config" "jr_durability (st_journal u) = Flush"
    and "commands (st_runtime u) = Map.empty(cmd_command_id test_command \<mapsto> \<lparr>sc_command = test_command, sc_state = Queued\<rparr>)"
  obtains v where "snd (snd (handle_connection test_env follower_connection u)) = v"
    "st_sent v = st_sent u @ [(8, Command test_command)]"
    "st_written v = st_written u @ [CommandDispatched (cmd_command_id test_command) 2]"
proof -
  obtain v m where v: "task_step\<^sup>*\<^sup>* (u, connection_task test_env follower_connection) (v, m)"
    "m = bindT (serve_frames_task test_env ''follower'' []) (finish_session test_env ''follower'' (st_next_session_id u))"
    "st_sent v = st_sent u @ [(8, Command test_command)]"
    "st_written v = st_written u @ [CommandDispatched (cmd_command_id test_command) 2]"
    "jr_durability (st_journal v) = Flush" "st_sessions v ''follower'' \<noteq> None"
    by (rule follower_connection_steps[OF assms])
  let ?w = "snd (unregister_session test_env ''follower'' (st_next_session_id u) v)"
  have "snd (alone (connection_task test_env follower_connection) u) = ?w"
    unfolding alone_task_steps[OF v(1)] v(2)
    by (simp add: alone_bindT alone_simps finish_session_def failing_def alone.simps split: prod.split)
  then have w: "snd (snd (handle_connection test_env follower_connection u)) = ?w"
    by (simp add: alone_connection split: prod.splits)
  have "quiet v ?w" using keepsD[OF unregister_quiet, of v v] v(5) by (simp add: quiet_def)
  then show thesis using that[OF w] v(3,4) by (simp add: quiet_def)
qed

definition test_episodes :: "sample_json episode list" where
  "test_episodes = [Served opening_connection, Served follower_connection, Restarted]"

lemma test_lifetime:
  "sent_commands (lifetime test_env test_episodes test_start) = [test_command]"
  "set (st_written (lifetime test_env test_episodes test_start)) =
     {EventPlanned ''evt-1'' [test_command], CommandDispatched (cmd_command_id test_command) 2}"
proof -
  let ?l = "lifetime test_env test_episodes test_start"
  obtain u where u: "snd (snd (handle_connection test_env opening_connection test_start)) = u"
    "st_config u = test_config" "st_sent u = []" "st_written u = [EventPlanned ''evt-1'' [test_command]]"
    "jr_durability (st_journal u) = Flush"
    "commands (st_runtime u) = Map.empty(cmd_command_id test_command \<mapsto> \<lparr>sc_command = test_command, sc_state = Queued\<rparr>)"
    by (rule opening_served)
  obtain v where v: "snd (snd (handle_connection test_env follower_connection u)) = v"
    "st_sent v = st_sent u @ [(8, Command test_command)]"
    "st_written v = st_written u @ [CommandDispatched (cmd_command_id test_command) 2]"
    by (rule follower_served[OF u(2,5,6)])
  have "started_as test_config (st_engine test_start) u"
    using served_started[OF connection_served] fresh_start(2)[OF test_start_new] u(1) by blast
  then have started: "started_as test_config (st_engine test_start) v"
    using served_started[OF connection_served] v(1) by blast
  have l: "?l = (case restart test_env v of None \<Rightarrow> v | Some t \<Rightarrow> t)"
    by (simp add: lifetime_def test_episodes_def u(1) v(1) split: option.split)
  have same: "sent_commands ?l = sent_commands v" "st_written ?l = st_written v"
    using l restart_started(2,3)[OF _ started] fresh_start(1)[OF test_start_new] by (auto split: option.splits)
  show "sent_commands ?l = [test_command]"
    using same u(3) v(2) by (simp add: sent_commands_def map_filter_def)
  show "set (st_written ?l) =
     {EventPlanned ''evt-1'' [test_command], CommandDispatched (cmd_command_id test_command) 2}"
    using same u(4) v(3) by auto
qed

section \<open>Properties\<close>

text \<open>
  C3. At most once, handler by handler. In every run in which one handler of the daemon runs at a time, no command
  id is ever sent twice. The connections, the hubs and the MetaApi tasks may overlap in any way: the
  handlers they call, one by one, are the steps, in any order, for any accounts, sessions and frames, with
  duplicate events, reconnections, failing writes and any number of restarts between them. The routes must be told
  apart by source, id and target, the ids of the commands planned in the run must not collide, the journal must
  be in use and not torn by a write, and the serialiser must read back what it wrote. Within a handler the
  code does not exclude others, and then it can fail: \<open>connect_during_event_sends_twice\<close>.
\<close>

theorem handlers_send_at_most_once:
  assumes "app_new cfg \<lparr>jr_durability = dc_durability cfg, jr_contents = []\<rparr> replay_default = Inr s"
    and "distinct_routes cfg" "dc_durability cfg \<noteq> NoDurability" "whole_writes env"
    and "(handler_step env)\<^sup>*\<^sup>* s t"
    and "inj_on (id_of (env_sha env)) (planned_keys t)"
    and "serde_ok (env_enc env) (env_dec env) (set (st_written t))"
  shows "distinct (map cmd_command_id (sent_commands t))"
proof -
  note f = fresh_start[OF assms(1)]
  have "once_invariant env cfg (st_engine s) (planned_keys t) s"
    using f assms(2-4,6) by (simp add: once_invariant_def keyed_ledger_def)
  then have "once_invariant env cfg (st_engine s) (planned_keys t) t"
    by (rule handlers_once[OF assms(5) f(1)])
  then show ?thesis
    using assms(7) by (simp add: once_invariant_def keyed_ledger_def daemon_ledger_def ledger_def)
qed

theorem handlers_send_at_most_once_witness:
  "distinct (map cmd_command_id (sent_commands (run test_env test_ops test_start))) \<and>
   sent_commands (run test_env test_ops test_start) = [test_command]"
proof -
  have "planned_keys (run test_env test_ops test_start) = {key_of test_command}"
    by (auto simp: planned_keys_def test_run test_opened_eq)
  then have "inj_on (id_of (env_sha test_env)) (planned_keys (run test_env test_ops test_start))" by simp
  then show ?thesis
    using handlers_send_at_most_once[OF test_start_new test_invariants(1) _ test_invariants(4) run_handlers[where ops = test_ops]]
      test_run test_opened_serde test_invariants(6)
    by simp
qed

text \<open>
  C5. What the venues send was journaled. Over whole lifetimes of connections, hubs, MetaApi tasks and
  restarts every command that was put into a session's channel has its dispatch record in the
  journal, whatever the disk, the brokers and the agents do.
\<close>

theorem lifetime_journals_before_sending:
  assumes "app_new cfg \<lparr>jr_durability = dc_durability cfg, jr_contents = []\<rparr> replay_default = Inr s"
    and "dc_durability cfg \<noteq> NoDurability" "c \<in> set (sent_commands (lifetime env episodes s))"
  shows "\<exists>when. CommandDispatched (cmd_command_id c) when \<in> set (st_written (lifetime env episodes s))"
proof -
  have "journaled_invariant cfg (st_engine s) s" using fresh_start[OF assms(1)] by (simp add: journaled_invariant_def)
  then have "journaled_invariant cfg (st_engine s) (lifetime env episodes s)"
    unfolding lifetime_def by (intro journaled_life.run_inv) simp_all
  then show ?thesis using assms(2,3) by (auto simp: journaled_invariant_def sent_is_journaled_def started_as_def)
qed

theorem lifetime_journals_before_sending_witness:
  "\<exists>when. CommandDispatched (cmd_command_id test_command) when \<in> set (st_written (lifetime test_env test_episodes test_start))"
  using lifetime_journals_before_sending[OF test_start_new, of test_command test_env test_episodes] test_lifetime test_invariants(6)
  by simp

end
