(* ===== verification/Ui.thy ===== *)
theory Ui
  imports Config
begin

text \<open>
  The local control room, \<open>crates/copier-daemon/src/ui.rs\<close>: the ring of log lines and the state of
  the daemon process it starts and stops. The operating system, the HTTP framework and the TOML printer
  are parameters. The theorems: the log is the last two hundred lines, and the control room never runs two
  daemons.
\<close>

section \<open>The log\<close>

definition LOG_LIMIT :: nat where "LOG_LIMIT = 200"

text \<open>\<open>while logs.len() > LOG_LIMIT { logs.pop_front() }\<close>\<close>

fun trim_log :: "string list \<Rightarrow> string list" where
  "trim_log [] = []"
| "trim_log (l # ls) = (if LOG_LIMIT < length (l # ls) then trim_log ls else l # ls)"

definition log_line :: "string \<times> string \<Rightarrow> string" where
  "log_line e = (case e of (stream, line) \<Rightarrow> ''['' @ stream @ ''] '' @ line)"

definition push_log :: "string \<times> string \<Rightarrow> string list \<Rightarrow> string list" where
  "push_log e logs = trim_log (logs @ [log_line e])"

section \<open>State\<close>

text \<open>
  \<open>ui_alive\<close> is the set of started processes that have not ended; only the operating system and
  \<open>kill\<close> change it. \<open>ui_written\<close> are the configuration files written, \<open>ui_spawned\<close> the
  processes started with their arguments and variables.
\<close>

record spawned =
  sw_pid :: nat
  sw_config_path :: string
  sw_working_dir :: string
  sw_secrets :: "(string \<times> string) list"

record ui_state =
  ui_daemon :: "nat option"
  ui_logs :: "string list"
  ui_alive :: "nat set"
  ui_written :: "(string \<times> string) list"
  ui_spawned :: "spawned list"
  ui_calls :: nat

text \<open>
  The outside: whether \<open>try_wait\<close>, \<open>kill\<close> and the writing of a file fail, the process a launch
  gives, the current directory, and the printed configuration.
\<close>

record ui_env =
  ue_wait_fails :: "nat \<Rightarrow> bool"
  ue_kill_fails :: "nat \<Rightarrow> bool"
  ue_write_fails :: "nat \<Rightarrow> bool"
  ue_spawn :: "nat \<Rightarrow> nat option"
  ue_cwd :: "string option"
  ue_toml :: "daemon_config \<Rightarrow> string option"

datatype ui_error =
    UiConfig config_error
  | UiNoDirectory
  | UiNoToml
  | UiWriteFailed
  | UiWaitFailed
  | UiKillFailed
  | UiSpawnFailed
  | UiAlreadyRunning
  | UiBadAddress
  | UiNotLoopback
  | UiNoExecutable
  | UiBindFailed
  | UiServerStopped

type_synonym 'a ui_call = "(ui_state, ui_error, 'a) handler"

record config_request =
  cq_config :: daemon_config
  cq_config_path :: string
  cq_working_dir :: "string option"
  cq_secrets :: "(string \<times> string) list"

definition ui_tick :: "ui_state \<Rightarrow> ui_state" where
  "ui_tick u = u\<lparr>ui_calls := ui_calls u + 1\<rparr>"

text \<open>\<open>try_wait\<close>: whether the process is still running.\<close>

definition try_wait :: "ui_env \<Rightarrow> nat \<Rightarrow> bool ui_call" where
  "try_wait ue pid u =
    (if ue_wait_fails ue (ui_calls u) then (Inl UiWaitFailed, ui_tick u)
     else (Inr (pid \<in> ui_alive u), ui_tick u))"

definition kill_child :: "ui_env \<Rightarrow> nat \<Rightarrow> unit ui_call" where
  "kill_child ue pid u =
    (if ue_kill_fails ue (ui_calls u) then (Inl UiKillFailed, ui_tick u)
     else (Inr (), ui_tick (u\<lparr>ui_alive := ui_alive u - {pid}\<rparr>)))"

definition write_config :: "ui_env \<Rightarrow> string \<Rightarrow> string \<Rightarrow> unit ui_call" where
  "write_config ue path content u =
    (if ue_write_fails ue (ui_calls u) then (Inl UiWriteFailed, ui_tick u)
     else (Inr (), ui_tick (u\<lparr>ui_written := ui_written u @ [(path, content)]\<rparr>)))"

definition spawn_daemon :: "ui_env \<Rightarrow> string \<Rightarrow> string \<Rightarrow> (string \<times> string) list \<Rightarrow> nat ui_call" where
  "spawn_daemon ue config_path working_dir secrets u =
    (case ue_spawn ue (ui_calls u) of
       None \<Rightarrow> (Inl UiSpawnFailed, ui_tick u)
     | Some pid \<Rightarrow> (Inr pid, ui_tick (u\<lparr>ui_alive := insert pid (ui_alive u), ui_spawned := ui_spawned u @
         [\<lparr>sw_pid = pid, sw_config_path = config_path, sw_working_dir = working_dir, sw_secrets = secrets\<rparr>]\<rparr>)))"

section \<open>Operations\<close>

text \<open>\<open>Path::is_absolute\<close> and \<open>Path::join\<close> on Linux.\<close>

definition is_absolute :: "string \<Rightarrow> bool" where
  "is_absolute p = starts_with ''/'' p"

definition join_path :: "string \<Rightarrow> string \<Rightarrow> string" where
  "join_path base p =
    (if is_absolute p then p else if base = [] \<or> last base = CHR ''/'' then base @ p else base @ ''/'' @ p)"

definition kept_secrets :: "(string \<times> string) list \<Rightarrow> (string \<times> string) list" where
  "kept_secrets = filter (\<lambda>(name, value). \<not> trim_is_empty name \<and> value \<noteq> [])"

definition ui_validate :: "ui_env \<Rightarrow> config_request \<Rightarrow> ui_error + string" where
  "ui_validate ue request =
    bindE (mapE UiConfig (config_validate (cq_config request))) (\<lambda>_.
    of_opt UiNoToml (ue_toml ue (cq_config request)))"

text \<open>The guard of \<open>start\<close>: a running daemon is an error, an ended one is forgotten.\<close>

definition forget_ended_child :: "ui_env \<Rightarrow> unit ui_call" where
  "forget_ended_child ue =
    bindS (getS ui_daemon) (\<lambda>child.
      case child of
        None \<Rightarrow> returnS ()
      | Some pid \<Rightarrow> bindS (try_wait ue pid) (\<lambda>running.
          if running then failS UiAlreadyRunning else modifyS (\<lambda>u. u\<lparr>ui_daemon := None\<rparr>)))"

definition launch :: "ui_env \<Rightarrow> string \<Rightarrow> string \<Rightarrow> (string \<times> string) list \<Rightarrow> nat ui_call" where
  "launch ue config_path working_dir secrets =
    bindS (spawn_daemon ue config_path working_dir (kept_secrets secrets)) (\<lambda>pid.
    bindS (modifyS (\<lambda>u. u\<lparr>ui_daemon := Some pid\<rparr>)) (\<lambda>_. returnS pid))"

definition ui_start :: "ui_env \<Rightarrow> config_request \<Rightarrow> nat ui_call" where
  "ui_start ue request =
    bindS (liftE (mapE UiConfig (config_validate (cq_config request)))) (\<lambda>_.
    bindS (liftE (of_opt UiNoDirectory (ue_cwd ue))) (\<lambda>cwd.
    let working_dir = (case cq_working_dir request of Some d \<Rightarrow> if d = [] then cwd else d | None \<Rightarrow> cwd);
        path = (if cq_config_path request = [] then ''copierr.test.toml'' else cq_config_path request);
        config_path = (if is_absolute path then path else join_path working_dir path) in
    bindS (liftE (of_opt UiNoToml (ue_toml ue (cq_config request)))) (\<lambda>toml.
    bindS (write_config ue config_path toml) (\<lambda>_.
    bindS (forget_ended_child ue) (\<lambda>_.
    launch ue config_path working_dir (cq_secrets request))))))"

definition stop_child :: "ui_env \<Rightarrow> bool ui_call" where
  "stop_child ue =
    bindS (getS ui_daemon) (\<lambda>child.
      case child of
        None \<Rightarrow> returnS False
      | Some pid \<Rightarrow>
          bindS (modifyS (\<lambda>u. u\<lparr>ui_daemon := None\<rparr>)) (\<lambda>_.
          bindS (try_wait ue pid) (\<lambda>running.
          bindS (if running then kill_child ue pid else returnS ()) (\<lambda>_. returnS True))))"

definition ui_status :: "ui_env \<Rightarrow> (bool \<times> nat option \<times> string list) ui_call" where
  "ui_status ue =
    bindS (getS ui_daemon) (\<lambda>child.
    bindS (case child of
        None \<Rightarrow> returnS (False, None)
      | Some pid \<Rightarrow> bindS (try_wait ue pid) (\<lambda>running.
          if running then returnS (True, Some pid)
          else bindS (modifyS (\<lambda>u. u\<lparr>ui_daemon := None\<rparr>)) (\<lambda>_. returnS (False, None)))) (\<lambda>(running, pid).
    bindS (getS ui_logs) (\<lambda>logs. returnS (running, pid, logs))))"

text \<open>What happens to the control room: requests, log lines, and processes that end by themselves.\<close>

datatype ui_event = UiStart config_request | UiStop | UiStatus | UiLog string string | ProcessEnds nat

fun ui_event_step :: "ui_env \<Rightarrow> ui_event \<Rightarrow> ui_state \<Rightarrow> ui_state" where
  "ui_event_step ue (UiStart request) u = snd (ui_start ue request u)"
| "ui_event_step ue UiStop u = snd (stop_child ue u)"
| "ui_event_step ue UiStatus u = snd (ui_status ue u)"
| "ui_event_step ue (UiLog stream line) u = u\<lparr>ui_logs := push_log (stream, line) (ui_logs u)\<rparr>"
| "ui_event_step ue (ProcessEnds pid) u = u\<lparr>ui_alive := ui_alive u - {pid}\<rparr>"

text \<open>
  \<open>run\<close>: the address parses to one that is or is not a loopback address, the program's own path is found or not,
  the address can be bound or not, and the HTTP server ends with the signal or with an error.
\<close>

record ui_listen =
  ul_loopback :: "bool option"
  ul_executable :: bool
  ul_bound :: bool
  ul_served :: bool

definition ui_run :: "ui_env \<Rightarrow> ui_listen \<Rightarrow> ui_event list \<Rightarrow> unit ui_call" where
  "ui_run ue ul events =
    bindS (liftE (of_opt UiBadAddress (ul_loopback ul))) (\<lambda>loopback.
    if \<not> loopback then failS UiNotLoopback
    else if \<not> ul_executable ul then failS UiNoExecutable
    else if \<not> ul_bound ul then failS UiBindFailed
    else bindS (modifyS (fold (ui_event_step ue) events)) (\<lambda>_.
      if \<not> ul_served ul then failS UiServerStopped
      else bindS (stop_child ue) (\<lambda>_. returnS ())))"

section \<open>The log is the last lines\<close>

lemma trim_log_drop: "trim_log ls = drop (length ls - LOG_LIMIT) ls"
proof (induction ls)
  case (Cons l ls)
  show ?case
  proof (cases "LOG_LIMIT < length (l # ls)")
    case True
    then have "length (l # ls) - LOG_LIMIT = Suc (length ls - LOG_LIMIT)" by simp
    then show ?thesis using True Cons by simp
  qed simp
qed simp

lemma push_log_drop:
  "push_log e (drop (length ls - LOG_LIMIT) ls) = drop (length (ls @ [log_line e]) - LOG_LIMIT) (ls @ [log_line e])"
proof -
  have "Suc (length ls - (length ls - n)) - n + (length ls - n) = Suc (length ls) - n" if "0 < n" for n
    using that by (cases "length ls < n") auto
  moreover have "0 < LOG_LIMIT" by (simp add: LOG_LIMIT_def)
  moreover have "drop k ls @ [x] = drop k (ls @ [x])" if "k \<le> length ls" for k x
    using that by simp
  ultimately show ?thesis by (simp add: push_log_def trim_log_drop del: drop_append)
qed

lemma push_logs: "fold push_log es (drop (length ls - LOG_LIMIT) ls) =
    drop (length ls + length es - LOG_LIMIT) (ls @ map log_line es)"
proof (induction es arbitrary: ls)
  case (Cons e es)
  then show ?case using Cons[of "ls @ [log_line e]"] by (simp only: fold_simps o_apply push_log_drop) simp
qed simp

section \<open>One daemon\<close>

text \<open>Every living process is the one the control room knows.\<close>

definition one_daemon :: "ui_state \<Rightarrow> bool" where
  "one_daemon u \<longleftrightarrow> ui_alive u \<subseteq> set_option (ui_daemon u)"

definition ui_reliable :: "ui_env \<Rightarrow> bool" where
  "ui_reliable ue \<longleftrightarrow> (\<forall>n. \<not> ue_wait_fails ue n \<and> \<not> ue_kill_fails ue n)"

lemma ui_tick_simps [simp]:
  "ui_daemon (ui_tick u) = ui_daemon u" "ui_alive (ui_tick u) = ui_alive u" "ui_logs (ui_tick u) = ui_logs u"
  by (simp_all add: ui_tick_def)

lemma reliable_simps:
  assumes "ui_reliable ue"
  shows "try_wait ue pid u = (Inr (pid \<in> ui_alive u), ui_tick u)"
    "kill_child ue pid u = (Inr (), ui_tick (u\<lparr>ui_alive := ui_alive u - {pid}\<rparr>))"
  using assms by (simp_all add: try_wait_def kill_child_def ui_reliable_def)

lemma write_one_daemon:
  "ui_daemon (snd (write_config ue path toml u)) = ui_daemon u"
  "ui_alive (snd (write_config ue path toml u)) = ui_alive u"
  by (simp_all add: write_config_def)

lemma no_child_no_process: "one_daemon u \<Longrightarrow> ui_daemon u = None \<Longrightarrow> ui_alive u = {}"
  by (auto simp: one_daemon_def)

lemma dead_child_no_process:
  "one_daemon u \<Longrightarrow> ui_daemon u = Some pid \<Longrightarrow> pid \<notin> ui_alive u \<Longrightarrow> ui_alive u = {}"
  by (auto simp: one_daemon_def)

lemma child_only_process: "one_daemon u \<Longrightarrow> ui_daemon u = Some pid \<Longrightarrow> ui_alive u - {pid} = {}"
  by (auto simp: one_daemon_def)

text \<open>A property of the state after two calls in sequence.\<close>

lemma snd_bindS:
  assumes "P (snd (m u))" "\<And>x. fst (m u) = Inr x \<Longrightarrow> P (snd (f x (snd (m u))))"
  shows "P (snd (bindS m f u))"
  using assms by (cases "m u"; cases "fst (m u)") (simp_all add: bindS_def)

lemma alone_calls: "snd (liftE r u) = u"
  by simp

lemma launch_one_daemon: "ui_alive u = {} \<Longrightarrow> one_daemon (snd (launch ue path dir secrets u))"
  by (cases "ue_spawn ue (ui_calls u)") (simp_all add: launch_def bindS_def spawn_daemon_def one_daemon_def)

lemma forgotten:
  assumes "one_daemon u" "ui_reliable ue"
  shows "one_daemon (snd (forget_ended_child ue u))"
    "fst (forget_ended_child ue u) = Inr x \<Longrightarrow> ui_alive (snd (forget_ended_child ue u)) = {}"
proof -
  have "one_daemon (snd (forget_ended_child ue u)) \<and>
    (fst (forget_ended_child ue u) = Inr x \<longrightarrow> ui_alive (snd (forget_ended_child ue u)) = {})"
  proof (cases "ui_daemon u")
    case None
    then show ?thesis
      using assms(1) no_child_no_process[OF assms(1)] by (simp add: forget_ended_child_def bindS_def)
  next
    case (Some pid)
    then show ?thesis
      using assms dead_child_no_process[OF assms(1) Some]
      by (cases "pid \<in> ui_alive u") (auto simp: forget_ended_child_def bindS_def reliable_simps one_daemon_def)
  qed
  then show "one_daemon (snd (forget_ended_child ue u))"
    "fst (forget_ended_child ue u) = Inr x \<Longrightarrow> ui_alive (snd (forget_ended_child ue u)) = {}" by blast+
qed

lemma start_one_daemon:
  assumes "one_daemon u" "ui_reliable ue" shows "one_daemon (snd (ui_start ue request u))"
proof -
  have written: "one_daemon (snd (write_config ue path toml u))" for path toml
    using assms(1) by (simp add: one_daemon_def write_one_daemon)
  show ?thesis
    unfolding ui_start_def Let_def
    apply (intro snd_bindS[where P = one_daemon] launch_one_daemon forgotten(1) assms)
         apply (simp_all only: alone_calls assms(1))
      apply (rule written | erule forgotten(2)[OF written assms(2)])+
    done
qed

lemma stop_one_daemon:
  assumes "one_daemon u" "ui_reliable ue" shows "one_daemon (snd (stop_child ue u))"
proof (cases "ui_daemon u")
  case None
  then show ?thesis using assms by (simp add: stop_child_def bindS_def)
next
  case (Some pid)
  then show ?thesis
    using assms(2) dead_child_no_process[OF assms(1) Some] child_only_process[OF assms(1) Some]
    by (cases "pid \<in> ui_alive u") (auto simp: stop_child_def bindS_def reliable_simps one_daemon_def)
qed

lemma stopped_alive:
  assumes "one_daemon u" "ui_reliable ue" shows "ui_alive (snd (stop_child ue u)) = {}"
proof (cases "ui_daemon u")
  case None
  then show ?thesis using assms by (simp add: stop_child_def bindS_def one_daemon_def)
next
  case (Some pid)
  then show ?thesis
    using assms(2) dead_child_no_process[OF assms(1) Some] child_only_process[OF assms(1) Some]
    by (cases "pid \<in> ui_alive u") (simp_all add: stop_child_def bindS_def reliable_simps)
qed

lemma status_one_daemon:
  assumes "one_daemon u" "ui_reliable ue" shows "one_daemon (snd (ui_status ue u))"
  using assms
  by (auto simp: ui_status_def bindS_def try_wait_def one_daemon_def ui_reliable_def split: option.split)

lemma event_one_daemon:
  assumes "one_daemon u" "ui_reliable ue" shows "one_daemon (ui_event_step ue e u)"
  using assms start_one_daemon stop_one_daemon status_one_daemon
  by (cases e) (auto simp: one_daemon_def)

section \<open>Properties\<close>

text \<open>
  The log is bounded and recent. After any number of lines the control room holds exactly
  the last two hundred of them, each with the name of its stream, in order.
\<close>

theorem log_keeps_last_lines:
  "fold push_log es [] = drop (length es - 200) (map log_line es)"
  using push_logs[of es "[]"] by (simp add: LOG_LIMIT_def)

text \<open>
  C40. Never two daemons. As long as the operating system answers whether a process is running and can
  kill it, after any sequence of requests, log lines and deaths of processes at most one
  daemon is alive, and it is the one the control room knows and can stop; and when the control room
  ends regularly, none is left.
\<close>

theorem at_most_one_daemon:
  assumes "ui_reliable ue" "ui_alive u = {}"
  shows "one_daemon (fold (ui_event_step ue) events u) \<and>
    (fst (ui_run ue ul events u) = Inr () \<longrightarrow> ui_alive (snd (ui_run ue ul events u)) = {})"
proof -
  have "one_daemon u \<Longrightarrow> one_daemon (fold (ui_event_step ue) events u)" for u
    using event_one_daemon[OF _ assms(1)] by (induction events arbitrary: u) auto
  then have one: "one_daemon (fold (ui_event_step ue) events u)" using assms(2) by (simp add: one_daemon_def)
  have "ui_alive (snd (ui_run ue ul events u)) = {}" if "fst (ui_run ue ul events u) = Inr ()"
    using stopped_alive[OF one assms(1)] that
    by (cases "ul_loopback ul"; cases "stop_child ue (fold (ui_event_step ue) events u)";
        cases "fst (stop_child ue (fold (ui_event_step ue) events u))")
      (auto simp: ui_run_def bindS_def split: if_splits)
  then show ?thesis using one by blast
qed

section \<open>A run\<close>

text \<open>The configuration of the tests, three launches that give the processes 7, 8 and 9.\<close>

definition ui_start_state :: ui_state where
  "ui_start_state = \<lparr>ui_daemon = None, ui_logs = [], ui_alive = {}, ui_written = [], ui_spawned = [], ui_calls = 0\<rparr>"

definition sample_ue :: ui_env where
  "sample_ue = \<lparr>ue_wait_fails = (\<lambda>_. False), ue_kill_fails = (\<lambda>_. False), ue_write_fails = (\<lambda>_. False),
    ue_spawn = (\<lambda>n. Some (n + 7)), ue_cwd = Some ''/srv'', ue_toml = (\<lambda>_. Some ''listen'')\<rparr>"

definition sample_listen :: ui_listen where
  "sample_listen = \<lparr>ul_loopback = Some True, ul_executable = True, ul_bound = True, ul_served = True\<rparr>"

definition sample_request :: config_request where
  "sample_request = \<lparr>cq_config = test_config, cq_config_path = [], cq_working_dir = None,
    cq_secrets = [(''TOKEN'', ''t''), ('' '', ''x'')]\<rparr>"

lemma sample_start:
  "ui_start ue sample_request =
    bindS (liftE (of_opt UiNoDirectory (ue_cwd ue))) (\<lambda>cwd.
    bindS (liftE (of_opt UiNoToml (ue_toml ue test_config))) (\<lambda>toml.
    bindS (write_config ue (join_path cwd ''copierr.test.toml'') toml) (\<lambda>_.
    bindS (forget_ended_child ue) (\<lambda>_.
    launch ue (join_path cwd ''copierr.test.toml'') cwd [(''TOKEN'', ''t''), ('' '', ''x'')]))))"
  by (simp add: ui_start_def sample_request_def test_config_valid mapE_def Let_def fun_eq_iff bindS_def[where m = "liftE (Inr ())"]
      is_absolute_def)

lemmas ui_call_simps = sample_start stop_child_def forget_ended_child_def launch_def bindS_def write_config_def
  try_wait_def kill_child_def spawn_daemon_def sample_ue_def ui_start_state_def ui_tick_def

text \<open>A start, a second one while the daemon runs (refused), a stop, another start.\<close>

theorem at_most_one_daemon_witness:
  "one_daemon (fold (ui_event_step sample_ue)
      [UiStart sample_request, UiStart sample_request, UiStop, UiStart sample_request] ui_start_state)
    \<and> ui_alive (fold (ui_event_step sample_ue) [UiStart sample_request] ui_start_state) = {8}
    \<and> ui_alive (snd (ui_run sample_ue sample_listen [UiStart sample_request] ui_start_state)) = {}"
proof -
  have ok: "ui_reliable sample_ue" "ui_alive ui_start_state = {}"
    by (simp_all add: sample_ue_def ui_reliable_def ui_start_state_def)
  have "fst (ui_run sample_ue sample_listen [UiStart sample_request] ui_start_state) = Inr ()"
    "ui_alive (fold (ui_event_step sample_ue) [UiStart sample_request] ui_start_state) = {8}"
    by (simp_all add: ui_run_def sample_listen_def ui_call_simps)
  then show ?thesis
    using at_most_one_daemon[OF ok, of _ sample_listen] by blast
qed

text \<open>
  A failed stop loses the daemon. The handle is taken out of the state before the process is
  killed, so when the killing fails the daemon goes on running, the control room no longer knows it, and
  the next start launches a second one beside it.
\<close>

theorem failed_stop_loses_daemon:
  "ui_alive (fold (ui_event_step (sample_ue\<lparr>ue_kill_fails := \<lambda>_. True\<rparr>))
      [UiStart sample_request, UiStop, UiStart sample_request] ui_start_state) = {8, 12}"
  by (simp add: ui_call_simps insert_commute)

end
