(* ===== verification/Program.thy ===== *)
theory Program
  imports Lifetime Ui
begin

text \<open>
  The program, \<open>crates/copier-daemon/src/main.rs\<close>, and the listening loop of \<open>server.rs\<close>: loading
  the configuration, opening the journal, building the state, starting the venues and accepting
  connections. The theorem: a daemon with a valid configuration and a journal of its own making starts with
  exactly the state that journal holds and serves every account.
\<close>

section \<open>Start-up\<close>

text \<open>What the file system and the TOML parser give; a journal that is not there is \<open>None\<close>.\<close>

record files =
  fs_read :: "string \<Rightarrow> string option"
  fs_toml :: "string \<Rightarrow> daemon_config option"
  fs_journal :: "string \<Rightarrow> string option"
  fs_access :: "string \<Rightarrow> journal_access"

datatype start_error =
    NotLoaded load_error
  | NoJournal journal_error
  | NoEngine route_error
  | NoSecret secret_error

definition start_daemon :: "environment \<Rightarrow> files \<Rightarrow> string \<Rightarrow> start_error fault + app_state \<times> venue list" where
  "start_daemon env fs path =
    bindE (mapE (\<lambda>e. Raised (NotLoaded e)) (config_load (fs_read fs) (fs_toml fs) path)) (\<lambda>config.
    bindE (mapE (\<lambda>e. Raised (NoJournal e)) (open_journal (env_dec env) (fs_access fs (dc_journal_path config))
      (fs_journal fs (dc_journal_path config)) (dc_durability config))) (\<lambda>(jrn, replay).
    bindE (mapE (\<lambda>e. Raised (NoEngine e)) (app_new config jrn replay)) (\<lambda>state.
    case spawn_venues env config [] of
      (Inl e, venues) \<Rightarrow> Inl (map_fault NoSecret e)
    | (Inr _, venues) \<Rightarrow> Inr (state, venues))))"

section \<open>Accepting connections\<close>

text \<open>
  What the listener and the signal handler give: a connection, an error of \<open>accept\<close>, or the interrupt. The
  result is what ended the loop, with the connection tasks that were started.
\<close>

datatype incoming = Incoming connection | AcceptFailed | Interrupted

datatype server_end = StillServing | ShutDown | CannotBind | CannotAccept

fun accept_loop :: "environment \<Rightarrow> incoming list \<Rightarrow> server_end \<times> connection_job list" where
  "accept_loop env [] = (StillServing, [])"
| "accept_loop env (Incoming cn # rest) =
    (case accept_loop env rest of (e, jobs) \<Rightarrow> (e, connection_task env cn # jobs))"
| "accept_loop env (AcceptFailed # _) = (CannotAccept, [])"
| "accept_loop env (Interrupted # _) = (ShutDown, [])"

definition server_run :: "environment \<Rightarrow> bool \<Rightarrow> incoming list \<Rightarrow> server_end \<times> connection_job list" where
  "server_run env bound incoming = (if bound then accept_loop env incoming else (CannotBind, []))"

section \<open>The commands\<close>

datatype main_command = DaemonCommand string | ValidateCommand string | UiCommand string

datatype main_end =
    Succeeded
  | Running
  | LoadFailed load_error
  | StartFailed "start_error fault"
  | ServerFailed server_end
  | UiFailed ui_error

record world =
  wd_env :: environment
  wd_files :: files
  wd_bound :: bool
  wd_incoming :: "incoming list"
  wd_ui :: ui_env
  wd_ui_listen :: "string \<Rightarrow> ui_listen"
  wd_ui_events :: "ui_event list"
  wd_ui_state :: ui_state

fun end_of_server :: "server_end \<Rightarrow> main_end" where
  "end_of_server StillServing = Running"
| "end_of_server ShutDown = Succeeded"
| "end_of_server e = ServerFailed e"

fun run_command :: "world \<Rightarrow> main_command \<Rightarrow> main_end" where
  "run_command w (ValidateCommand path) =
    (case config_load (fs_read (wd_files w)) (fs_toml (wd_files w)) path of
       Inl e \<Rightarrow> LoadFailed e
     | Inr _ \<Rightarrow> Succeeded)"
| "run_command w (DaemonCommand path) =
    (case start_daemon (wd_env w) (wd_files w) path of
       Inl e \<Rightarrow> StartFailed e
     | Inr _ \<Rightarrow> end_of_server (fst (server_run (wd_env w) (wd_bound w) (wd_incoming w))))"
| "run_command w (UiCommand listen) =
    (case fst (ui_run (wd_ui w) (wd_ui_listen w listen) (wd_ui_events w) (wd_ui_state w)) of
       Inl e \<Rightarrow> UiFailed e
     | Inr _ \<Rightarrow> Succeeded)"

section \<open>Properties\<close>

text \<open>
  One failing \<open>accept\<close> ends the daemon: the error leaves \<open>server::run\<close>, and with it \<open>main\<close>,
  whatever connections are being served.
\<close>

lemma accept_failure_ends_daemon:
  assumes "wd_incoming w = map Incoming cns @ AcceptFailed # rest" "wd_bound w"
    and "start_daemon (wd_env w) (wd_files w) path = Inr started"
  shows "run_command w (DaemonCommand path) = ServerFailed CannotAccept"
proof -
  have "fst (accept_loop env (map Incoming cns @ AcceptFailed # rest)) = CannotAccept" for env
    by (induction cns) (auto split: prod.split)
  then show ?thesis using assms by (simp add: server_run_def)
qed

text \<open>
  C7. A valid daemon starts, with everything it knew. If the configuration file parses to a valid configuration, the
  environment variables it names are set and the journal holds the records an earlier process wrote, the
  daemon starts; its state is the replay of exactly these records with dispatched commands marked
  UNKNOWN, no session is registered, and the venues are one task for every MetaApi account and
  one hub for each cTrader environment in use, each with its accounts and secrets.
\<close>

theorem daemon_starts:
  assumes "fs_read fs path = Some raw" "fs_toml fs raw = Some cfg" "config_validate cfg = Inr ()"
    and "secrets_set env cfg" "fs_access fs (dc_journal_path cfg) = Readable True"
    and "fs_journal fs (dc_journal_path cfg) = Some (file_of (map (line_of (env_enc env)) rs))"
    and "serde_ok (env_enc env) (env_dec env) (set rs)"
  shows "\<exists>s. start_daemon env fs path =
      Inr (s, metaapi_of env cfg (dc_accounts cfg) @ hub_of env cfg Live @ hub_of env cfg Demo) \<and>
    st_runtime s = finalize_after_replay (fold replay_apply rs replay_default) \<and>
    st_config s = cfg \<and> st_sessions s = Map.empty \<and>
    jr_contents (st_journal s) = file_of (map (line_of (env_enc env)) rs)"
proof -
  obtain eng where "engine_new (dc_routes cfg) = Inr eng"
    using assms(3) by (auto simp: config_validate_def outcome_simps split: if_splits)
  then show ?thesis
    using assms venues_started_exactly[OF assms(3,4)]
    by (simp add: start_daemon_def config_load_def open_journal_def journal_open_def
        replay_file_records app_new_def)
qed

text \<open>The configuration with one cTrader account, and a journal of two records.\<close>

definition sample_env :: environment where
  "sample_env = test_env\<lparr>env_var := (\<lambda>n. Some (''value of '' @ n)), env_enc := sample_enc, env_dec := sample_dec\<rparr>"

definition sample_files :: files where
  "sample_files = \<lparr>fs_read = (\<lambda>_. Some ''toml''), fs_toml = (\<lambda>_. Some direct_config),
     fs_journal = (\<lambda>_. Some (file_of (map (line_of sample_enc) sample_records))), fs_access = (\<lambda>_. Readable True)\<rparr>"

theorem daemon_starts_witness:
  "\<exists>s. start_daemon sample_env sample_files ''copierr.toml'' = Inr (s,
      [CTraderHub Live default_ctrader_live_url ''value of I'' ''value of S''
        [\<lparr>ha_local = direct_account, ha_ctid = 5, ha_access_token = ''value of T''\<rparr>]]) \<and>
    st_runtime s = finalize_after_replay (fold replay_apply sample_records replay_default)"
proof -
  have secrets: "secrets_set sample_env direct_config"
    using direct_config_ready(2) by (simp add: sample_env_def secrets_set_def has_secret_def secret_of_def)
  have venues: "metaapi_of sample_env direct_config (dc_accounts direct_config) @ hub_of sample_env direct_config Live @
      hub_of sample_env direct_config Demo =
      [CTraderHub Live default_ctrader_live_url ''value of I'' ''value of S''
        [\<lparr>ha_local = direct_account, ha_ctid = 5, ha_access_token = ''value of T''\<rparr>]]"
    by (simp add: metaapi_of_def hub_of_def hub_account_of_def in_environment_def Let_def secret_of_def sample_env_def
        direct_config_def direct_account_def test_config_def test_account_def)
  show ?thesis
    using daemon_starts[of sample_files "''copierr.toml''" "''toml''" direct_config sample_env sample_records]
      direct_config_ready(1) secrets sample_serde
    unfolding venues by (auto simp: sample_files_def sample_env_def)
qed

end
