(* ===== verification/Client.thy ===== *)
theory Client
  imports Server
begin

text \<open>
  The agent's library, \<open>crates/copier-client/src/lib.rs\<close>: the handshake, sending frames and
  reading the daemon's frames line by line. The theorems compose it with the daemon's connection: a
  login succeeds exactly when the daemon accepts it, the agent reads the frames the daemon's writer sent in
  order up to the first cut one, and a command cut before its take profit is read as one without it.
\<close>

section \<open>The client\<close>

text \<open>
  The bytes the socket will still deliver before it is closed, those written to it, and whether it still
  takes writes.
\<close>

record client =
  cl_input :: string
  cl_output :: string
  cl_open :: bool

datatype client_error =
    Io
  | Wire wire_error
  | Rejected string string
  | Unexpected server_frame
  | Disconnected

type_synonym 'a client_call = "(client, client_error, 'a) handler"

text \<open>\<open>read_line\<close>: the bytes up to and with the next newline, or all that is left.\<close>

fun read_line :: "string \<Rightarrow> string \<times> string" where
  "read_line [] = ([], [])"
| "read_line (c # s) =
    (if c = newline then ([c], s) else (case read_line s of (line, rest) \<Rightarrow> (c # line, rest)))"

definition send_client_frame :: "agent_frame \<Rightarrow> unit client_call" where
  "send_client_frame frame c =
    (if cl_open c then (Inr (), c\<lparr>cl_output := cl_output c @ encode_agent_frame frame\<rparr>)
     else (Inl Io, c))"

definition next_frame :: "server_frame option client_call" where
  "next_frame c =
    (case read_line (cl_input c) of (line, rest) \<Rightarrow>
      if line = [] then (Inr None, c)
      else if \<not> utf8_valid line then (Inl Io, c\<lparr>cl_input := rest\<rparr>)
      else (mapE Wire (bindE (parse_server_line line) (\<lambda>frame. Inr (Some frame))), c\<lparr>cl_input := rest\<rparr>))"

definition send_event :: "trade_event \<Rightarrow> unit client_call" where
  "send_event event = send_client_frame (Event event)"

definition send_ack :: "execution_ack \<Rightarrow> unit client_call" where
  "send_ack ack = send_client_frame (Ack ack)"

definition client_ping :: "i64 \<Rightarrow> unit client_call" where
  "client_ping timestamp = send_client_frame (Ping timestamp)"

text \<open>\<open>connect\<close> once the stream is there; \<open>None\<close> is a socket that could not be opened.\<close>

definition handshake :: "hello_frame \<Rightarrow> unit client_call" where
  "handshake hello =
    bindS (send_client_frame (Hello hello)) (\<lambda>_.
    bindS next_frame (\<lambda>answer.
      case answer of
        Some (Welcome _) \<Rightarrow> returnS ()
      | Some (Error code message) \<Rightarrow> failS (Rejected code message)
      | Some other \<Rightarrow> failS (Unexpected other)
      | None \<Rightarrow> failS Disconnected))"

definition client_connect :: "client option \<Rightarrow> hello_frame \<Rightarrow> client_error + client" where
  "client_connect stream hello =
    bindE (of_opt Io stream) (\<lambda>c. case handshake hello c of (r, d) \<Rightarrow> bindE r (\<lambda>_. Inr d))"

text \<open>The calls an agent makes to read until the stream ends or a frame is refused.\<close>

fun read_frames :: "nat \<Rightarrow> client \<Rightarrow> server_frame list \<times> client" where
  "read_frames 0 c = ([], c)"
| "read_frames (Suc n) c =
    (case next_frame c of
       (Inr (Some frame), d) \<Rightarrow> (case read_frames n d of (frames, e) \<Rightarrow> (frame # frames, e))
     | (_, d) \<Rightarrow> ([], d))"

section \<open>Reading what was written\<close>

lemma read_line_append: "newline \<notin> set l \<Longrightarrow> read_line (l @ newline # s) = (l @ [newline], s)"
  by (induction l) auto

lemma read_encoded_server: "read_line (encode_server_frame f @ s) = (encode_server_frame f, s)"
  using join_clean[OF clean_server_fields, of f]
  by (simp add: encode_server_frame_def frame_line_def read_line_append)

lemma read_encoded_agent: "read_line (encode_agent_frame f @ s) = (encode_agent_frame f, s)"
  using join_clean[OF clean_agent_fields, of f]
  by (simp add: encode_agent_frame_def frame_line_def read_line_append)

text \<open>Frames the other side can read: their texts are UTF-8, as every text of the program is.\<close>

definition readable :: "server_frame \<Rightarrow> bool" where
  "readable f \<longleftrightarrow> server_frame_ok f \<and> utf8_valid (encode_server_frame f)"

lemma encode_server_nonempty [simp]: "encode_server_frame f \<noteq> []"
  by (simp add: encode_server_frame_def frame_line_def)

lemma next_frame_encoded:
  assumes "readable f" "cl_input c = encode_server_frame f @ s"
  shows "next_frame c = (Inr (Some (wire_server f)), c\<lparr>cl_input := s\<rparr>)"
  using assms parse_encode_server[of f] by (simp add: next_frame_def read_encoded_server readable_def)

lemma next_frame_end: "cl_input c = [] \<Longrightarrow> next_frame c = (Inr None, c)"
  by (simp add: next_frame_def)

text \<open>
  The frame a reader makes of the text that is left when the stream ends: \<open>read_line\<close> returns it although
  it has no line end, and the parser does not ask for one.
\<close>

definition last_frame :: "string \<Rightarrow> server_frame list" where
  "last_frame s = (if s = [] \<or> \<not> utf8_valid s then [] else (case parse_server_line s of Inl _ \<Rightarrow> [] | Inr f \<Rightarrow> [f]))"

lemma read_line_whole: "newline \<notin> set s \<Longrightarrow> read_line s = (s, [])"
  by (induction s) auto

text \<open>The first bytes of a frame are a line without its end, unless they are the whole frame.\<close>

lemma read_line_cut: "read_line (take j (encode_server_frame f)) = (take j (encode_server_frame f), [])"
proof (cases "length (encode_server_frame f) \<le> j")
  case True
  then show ?thesis using read_encoded_server[of f "[]"] by simp
next
  case False
  have "newline \<notin> set (join_with tab (server_fields f))" using join_clean[OF clean_server_fields] by blast
  moreover have "take j (encode_server_frame f) = take j (join_with tab (server_fields f))"
    using False by (simp add: encode_server_frame_def frame_line_def)
  ultimately show ?thesis by (auto intro!: read_line_whole dest: in_set_takeD)
qed

lemma read_frames_cut:
  assumes "cl_input c = take j (encode_server_frame f)"
  shows "fst (read_frames (Suc n) c) = last_frame (take j (encode_server_frame f))"
proof -
  have rest: "fst (read_frames n (c\<lparr>cl_input := []\<rparr>)) = []" for n
    by (cases n) (simp_all add: next_frame_end)
  show ?thesis
    using assms rest[of n]
    by (auto simp: next_frame_def read_line_cut last_frame_def split: sum.split prod.split)
qed

lemma read_frames_append:
  assumes "\<forall>f \<in> set frames. readable f" "cl_input c = concat (map encode_server_frame frames) @ s"
  shows "fst (read_frames (length frames + n) c) = map wire_server frames @ fst (read_frames n (c\<lparr>cl_input := s\<rparr>))"
  using assms
proof (induction frames arbitrary: c)
  case Nil
  then have "c\<lparr>cl_input := s\<rparr> = c" by simp
  then show ?case by simp
next
  case (Cons f frames)
  have "next_frame c = (Inr (Some (wire_server f)), c\<lparr>cl_input := concat (map encode_server_frame frames) @ s\<rparr>)"
    using Cons.prems by (intro next_frame_encoded) auto
  moreover have "fst (read_frames (length frames + n) (c\<lparr>cl_input := concat (map encode_server_frame frames) @ s\<rparr>)) =
      map wire_server frames @ fst (read_frames n (c\<lparr>cl_input := s\<rparr>))"
    using Cons.IH[of "c\<lparr>cl_input := concat (map encode_server_frame frames) @ s\<rparr>"] Cons.prems(1) by simp
  ultimately show ?case by (simp add: case_prod_beta)
qed

lemma utf8_ascii: "\<forall>c \<in> set s. (of_char c :: nat) < 128 \<Longrightarrow> utf8_valid s"
proof -
  have "\<forall>b \<in> set bs. b < 128 \<Longrightarrow> utf8_bytes bs" for bs
    by (induction bs) auto
  then show "\<forall>c \<in> set s. (of_char c :: nat) < 128 \<Longrightarrow> utf8_valid s"
    by (simp add: utf8_valid_def)
qed

lemma show_i64_ascii: "\<forall>c \<in> set (show_i64 x). (of_char c :: nat) < 128"
proof -
  have "\<forall>c \<in> set (show_nat n). (of_char c :: nat) < 128" for n
    using show_nat_digits[of n] by (auto simp: list_all_iff is_digit_def)
  then show ?thesis by (auto simp: show_i64_def show_int_def)
qed

lemma readable_welcome: "readable (Welcome now)"
proof -
  have "\<forall>c \<in> set (show_i64 now). (of_char c :: nat) < 128"
    by (rule show_i64_ascii)
  then have "utf8_valid (encode_server_frame (Welcome now))"
    by (intro utf8_ascii) (auto simp: encode_server_frame_def frame_line_def separator_codes show_version_eq
        simp flip: ball_Un)
  then show ?thesis by (simp add: readable_def)
qed

section \<open>The handshake\<close>

lemma handshake_welcomed:
  assumes "cl_open c" "cl_input c = encode_server_frame (Welcome now) @ s"
  shows "handshake hello c =
    (Inr (), c\<lparr>cl_output := cl_output c @ encode_agent_frame (Hello hello), cl_input := s\<rparr>)"
  using assms next_frame_encoded[OF readable_welcome, of "c\<lparr>cl_output := cl_output c @ encode_agent_frame (Hello hello)\<rparr>" now s]
  by (simp add: handshake_def send_client_frame_def bindS_def)

lemma handshake_closed:
  assumes "cl_open c" "cl_input c = []"
  shows "fst (handshake hello c) = Inl Disconnected"
  using assms by (simp add: handshake_def send_client_frame_def bindS_def next_frame_end)

lemma accept_encoded_hello:
  assumes "hello_account_id hello \<noteq> []"
  shows "accept_hello env cfg (encode_agent_frame (Hello hello)) = Inr h \<longleftrightarrow>
    h = hello\<lparr>hello_account_id := field (hello_account_id hello), hello_token := field (hello_token hello)\<rparr> \<and>
    (\<exists>account. config_account cfg (field (hello_account_id hello)) = Some account \<and> ac_backend account = Agent \<and>
       ac_platform account = hello_platform hello \<and> presents_token env account (field (hello_token hello)))"
  using parse_encode_agent[of "Hello hello"] assms
  by (auto simp: accept_hello_Inr)

section \<open>Properties\<close>

text \<open>
  C37. Client and daemon agree on the login. When the client's first line reaches the daemon and what the
  daemon's connection task writes reaches the client, the handshake succeeds exactly when the
  account is configured for agents on that platform and the token is the account's; in every other case the
  client sees the connection closed, never an error frame.
\<close>

theorem login_succeeds_exactly:
  assumes "handle_connection env cn s = (r, out, t)" "cn_nodelay cn" "cn_welcome cn"
    and "cn_reads cn = LineRead (encode_agent_frame (Hello hello)) # rest" "hello_account_id hello \<noteq> []"
    and "cl_open c" "cl_input c = out"
  shows "fst (handshake hello c) =
    (if \<exists>account. config_account (st_config s) (field (hello_account_id hello)) = Some account \<and>
        ac_backend account = Agent \<and> ac_platform account = hello_platform hello \<and>
        presents_token env account (field (hello_token hello))
     then Inr () else Inl Disconnected)"
proof -
  define line where "line = encode_agent_frame (Hello hello)"
  note acc = accept_encoded_hello[OF assms(5), of env "st_config s", folded line_def]
  show ?thesis
  proof (cases "accept_hello env (st_config s) line")
    case (Inl e)
    then have "out = []" using assms(1-4) by (simp add: handle_connection_def line_def)
    then show ?thesis using handshake_closed assms(6,7) acc Inl by auto
  next
    case (Inr h)
    then have "out = encode_server_frame (Welcome (clock_ns (cn_clock cn)))"
      using assms(1-4) by (auto simp: handle_connection_def line_def split: prod.splits)
    then have "fst (handshake hello c) = Inr ()"
      using handshake_welcomed[OF assms(6), of "clock_ns (cn_clock cn)" "[]"] assms(7) by simp
    then show ?thesis using acc Inr by auto
  qed
qed

theorem login_succeeds_exactly_witness:
  "fst (handshake (login ''follower'') \<lparr>cl_input = encode_server_frame (Welcome 2), cl_output = [], cl_open = True\<rparr>) = Inr ()"
proof -
  have c: "handle_connection test_env (test_connection [login_line ''follower'']) test_start =
      (Inr (), encode_server_frame (Welcome 2), test_start\<lparr>st_next_session_id := 2, st_calls := 2\<rparr>)"
    using test_connects[OF _ _ test_idle_session] by (simp add: test_start_def)
  have "clean ''follower''" "clean ''secret''" by (simp_all add: clean_def separator_codes)
  then show ?thesis
    using login_succeeds_exactly[OF c, of "login ''follower''" "[]"
        "\<lparr>cl_input = encode_server_frame (Welcome 2), cl_output = [], cl_open = True\<rparr>"]
    by (auto simp: test_connection_def login_line_def login_def test_start_def config_account_def
        test_config_def test_account_def presents_token_def split: if_splits)
qed

text \<open>
  C38. The agent reads what was sent, up to the first write that is cut. The connection writes the welcome, the
  writer task the frames of the session's channel, until a write fails or the end of the connection aborts it; of
  that frame only the first bytes arrive. Reading frame by frame, the agent gets the welcome, then every
  frame that was written in full, in order and up to the sanitising of their texts, and then at most one more:
  what the parser makes of the cut one. Nothing is lost, doubled or reordered before it.
\<close>

theorem agent_reads_what_was_sent:
  assumes "\<forall>f \<in> set frames. readable f"
    and "cl_input c = encode_server_frame (Welcome now) @ writer_task wr n frames"
  shows "\<exists>k \<le> length frames. (\<forall>i < k. wr (n + i) = None) \<and> (k < length frames \<longrightarrow> wr (n + k) \<noteq> None) \<and>
    fst (read_frames (length frames + 2) c) = Welcome now # map wire_server (take k frames) @
      (if k < length frames then last_frame (take (the (wr (n + k))) (encode_server_frame (frames ! k))) else [])"
proof -
  obtain k where k: "k \<le> length frames" "\<forall>i < k. wr (n + i) = None" "k < length frames \<longrightarrow> wr (n + k) \<noteq> None"
    "writer_task wr n frames = concat (map encode_server_frame (take k frames)) @
       (if k < length frames then take (the (wr (n + k))) (encode_server_frame (frames ! k)) else [])"
    using writer_task_lines by blast
  let ?cut = "if k < length frames then take (the (wr (n + k))) (encode_server_frame (frames ! k)) else []"
  have "\<forall>f \<in> set (Welcome now # take k frames). readable f"
    using assms(1) readable_welcome by (auto dest: in_set_takeD)
  moreover have "cl_input c = concat (map encode_server_frame (Welcome now # take k frames)) @ ?cut"
    using assms(2) k(4) by simp
  moreover have "length frames + 2 = length (Welcome now # take k frames) + Suc (length frames - k)"
    using k(1) by simp
  ultimately have "fst (read_frames (length frames + 2) c) =
      map wire_server (Welcome now # take k frames) @ fst (read_frames (Suc (length frames - k)) (c\<lparr>cl_input := ?cut\<rparr>))"
    by (simp only: read_frames_append)
  moreover have "fst (read_frames (Suc (length frames - k)) (c\<lparr>cl_input := ?cut\<rparr>)) =
      (if k < length frames then last_frame (take (the (wr (n + k))) (encode_server_frame (frames ! k))) else [])"
  proof (cases "k < length frames")
    case True
    then show ?thesis by (simp only: if_True) (rule read_frames_cut, simp)
  next
    case False
    then show ?thesis by (simp add: next_frame_end)
  qed
  ultimately show ?thesis using k(1-3) by (intro exI[of _ k]) simp
qed

theorem agent_reads_what_was_sent_witness:
  "fst (read_frames 4 \<lparr>cl_input = encode_server_frame (Welcome 2) @
       writer_task (\<lambda>i. if i < 1 then None else Some 3) 0 [Welcome 3, Welcome 4], cl_output = [], cl_open = True\<rparr>) =
     [Welcome 2, Welcome 3]"
proof -
  let ?wr = "\<lambda>i :: nat. if i < 1 then None else Some (3 :: nat)"
  let ?r = "fst (read_frames 4 \<lparr>cl_input = encode_server_frame (Welcome 2) @ writer_task ?wr 0 [Welcome 3, Welcome 4],
    cl_output = [], cl_open = True\<rparr>)"
  have four: "length [Welcome 3, Welcome 4] + 2 = 4" by simp
  have two: "length [Welcome 3, Welcome 4] = 2" by simp
  obtain k where k: "k \<le> 2" "\<forall>i < k. ?wr (0 + i) = None" "k < 2 \<longrightarrow> ?wr (0 + k) \<noteq> None"
    "?r = Welcome 2 # map wire_server (take k [Welcome 3, Welcome 4]) @ (if k < 2
       then last_frame (take (the (?wr (0 + k))) (encode_server_frame ([Welcome 3, Welcome 4] ! k))) else [])"
    using agent_reads_what_was_sent[of "[Welcome 3, Welcome 4]"
      "\<lparr>cl_input = encode_server_frame (Welcome 2) @ writer_task ?wr 0 [Welcome 3, Welcome 4],
        cl_output = [], cl_open = True\<rparr>" 2 ?wr 0, unfolded four two] readable_welcome by (force simp del: One_nat_def)
  have "k = 1" using k(1-3) by (cases k) (auto simp: less_Suc_eq split: if_splits)
  moreover have "take 3 (encode_server_frame (Welcome 4)) = ''WEL''" by (simp add: encode_server_frame_def frame_line_def)
  moreover have "last_frame ''WEL'' = []" by code_simp
  ultimately show ?thesis using k(4) by simp
qed

section \<open>A cut command\<close>

lemma join_with_snoc: "ws \<noteq> [] \<Longrightarrow> join_with c (ws @ [w]) = join_with c ws @ c # w"
  by (induction c ws rule: join_with.induct) auto

text \<open>What precedes a byte below 128 is complete.\<close>

lemma utf8_before_ascii: "utf8_bytes (xs @ b # ys) \<Longrightarrow> b < 128 \<Longrightarrow> utf8_bytes xs"
proof (induction "length xs" arbitrary: xs rule: less_induct)
  case less
  have n: "\<not> cont b" using less.prems(2) by (simp add: cont_def)
  have ih: "utf8_bytes zs" if "utf8_bytes (zs @ b # ys)" "length zs < length xs" for zs
    using less.hyps[OF that(2,1) less.prems(2)] .
  consider "xs = []" | a where "xs = [a]" | a c where "xs = [a, c]" | a c d where "xs = [a, c, d]"
    | a c d e zs where "xs = a # c # d # e # zs"
    by (metis list.exhaust)
  then show ?case
  proof cases
    case 2
    then show ?thesis
      using less.prems n
      by (cases ys; cases "tl ys")
        (auto simp del: utf8_bytes.simps simp add: utf8_bytes.simps(1) utf8_bytes.simps(2)[of a] seq3_def seq4_def cont_def
          split: if_splits list.splits)
  next
    case (3 a c)
    then show ?thesis
      using less.prems n ih[of "[c]"]
      by (cases ys) (simp_all del: utf8_bytes.simps add: utf8_bytes.simps(1) utf8_bytes.simps(2)[of a] split: if_splits)
  next
    case (4 a c d)
    then show ?thesis
      using less.prems n ih[of "[c, d]"] ih[of "[d]"]
      by (simp del: utf8_bytes.simps add: utf8_bytes.simps(1) utf8_bytes.simps(2)[of a] split: if_splits)
  next
    case (5 a c d e zs)
    then show ?thesis
      using less.prems ih[of "c # d # e # zs"] ih[of "d # e # zs"] ih[of "e # zs"] ih[of zs]
      by (simp del: utf8_bytes.simps add: utf8_bytes.simps(2)[of a] split: if_splits)
  qed simp
qed

text \<open>The line of a command up to its last tab, which its take profit follows.\<close>

definition command_head :: "execution_command \<Rightarrow> string" where
  "command_head c = join_with tab (butlast (server_fields (Command c))) @ [tab]"

lemma command_line: "encode_server_frame (Command c) = command_head c @ opt_f64 (cmd_take_profit c) @ [newline]"
proof -
  let ?ws = "butlast (server_fields (Command c))"
  have "server_fields (Command c) = ?ws @ [opt_f64 (cmd_take_profit c)]" "?ws \<noteq> []" by simp_all
  then have "join_with tab (server_fields (Command c)) = join_with tab ?ws @ tab # opt_f64 (cmd_take_profit c)"
    using join_with_snoc[of ?ws tab "opt_f64 (cmd_take_profit c)"] by (simp del: server_fields.simps)
  then show ?thesis by (simp add: encode_server_frame_def frame_line_def command_head_def del: server_fields.simps)
qed

lemma parse_command_head:
  assumes "server_frame_ok (Command c)"
  shows "parse_server_line (command_head c) = Inr (Command (wire_command (c\<lparr>cmd_take_profit := None\<rparr>)))"
proof -
  let ?d = "c\<lparr>cmd_take_profit := None\<rparr>"
  have e: "encode_server_frame (Command ?d) = command_head c @ [newline]"
    using command_line[of ?d] by (simp add: command_head_def opt_f64_def opt_enc_def)
  have "strip_line_end (command_head c) = command_head c"
    unfolding strip_line_end_def command_head_def by (rule trim_end_clean[of "[]", simplified]) (simp add: separator_codes)
  moreover have "strip_line_end (command_head c @ [newline]) = command_head c"
    unfolding strip_line_end_def command_head_def by (rule trim_end_clean) (simp_all add: separator_codes)
  ultimately have "parse_server_line (command_head c) = parse_server_line (encode_server_frame (Command ?d))"
    by (simp add: parse_server_line_def e)
  then show ?thesis using parse_encode_server[of "Command ?d"] assms by simp
qed

lemma show_f64_ascii: "c \<in> set (show_f64 x) \<Longrightarrow> (of_char c :: nat) < 128"
  using show_f64_numeric[of x] by (auto simp: list_all_iff numeric_char_def is_digit_def)

lemma opt_f64_ascii: "c \<in> set (opt_f64 x) \<Longrightarrow> (of_char c :: nat) < 128"
  by (cases x) (auto simp: opt_f64_def opt_enc_def show_f64_ascii)

lemma command_head_utf8:
  assumes "readable (Command c)" shows "utf8_valid (command_head c)"
proof -
  obtain d rest where d: "opt_f64 (cmd_take_profit c) @ [newline] = d # rest" by (cases "opt_f64 (cmd_take_profit c)") auto
  then have "d \<in> set (opt_f64 (cmd_take_profit c)) \<or> d = newline" by (metis Un_iff empty_iff empty_set list.set_intros(1) set_ConsD set_append)
  then have "(of_char d :: nat) < 128" using opt_f64_ascii by (auto simp: separator_codes)
  moreover have "utf8_bytes (map of_char (command_head c) @ of_char d # map of_char rest)"
    using assms d unfolding readable_def command_line utf8_valid_def by simp
  ultimately show ?thesis unfolding utf8_valid_def by (blast intro: utf8_before_ascii)
qed

lemma sample_command_readable: "readable (Command sample_command)"
proof -
  have "(of_char c :: nat) < 128" if "c \<in> set w" "w \<in> set (server_fields (Command sample_command))" for c w
    using that by (auto simp: sample_command_def show_version_eq opt_str_def opt_side_def opt_enc_def
        clean_def separator_codes dest: show_f64_ascii opt_f64_ascii)
  moreover have "set (join_with tab ws) \<subseteq> insert tab (\<Union> (set ` set ws))" for ws
    by (induction tab ws rule: join_with.induct) auto
  ultimately have "\<forall>c \<in> set (encode_server_frame (Command sample_command)). (of_char c :: nat) < 128"
    unfolding encode_server_frame_def frame_line_def by (fastforce simp: separator_codes)
  then have "utf8_valid (encode_server_frame (Command sample_command))" by (rule utf8_ascii)
  then show ?thesis by (simp add: readable_def sample_command_def)
qed

text \<open>
  C39. A cut command is executed without its take profit. For every command that has a take profit there is
  a place to cut it, short of its end, such that an agent whose daemon stops writing there reads
  the command as complete, with the same ids, action, volume and stop loss but with no take profit at all. Nothing
  in a frame tells the reader that it is whole, and neither the reader nor the parser insists on the line end.
\<close>

theorem cut_command_loses_take_profit:
  assumes "readable (Command command)" "cmd_take_profit command = Some price"
  shows "\<exists>j < length (encode_server_frame (Command command)).
    fst (read_frames 3 (c\<lparr>cl_input := encode_server_frame (Welcome now) @ writer_task (\<lambda>_. Some j) 0 [Command command]\<rparr>)) =
      [Welcome now, Command (wire_command (command\<lparr>cmd_take_profit := None\<rparr>))]"
proof -
  let ?j = "length (command_head command)"
  let ?cut = "take ?j (encode_server_frame (Command command))"
  have cut: "?cut = command_head command" by (simp add: command_line)
  have "last_frame ?cut = [Command (wire_command (command\<lparr>cmd_take_profit := None\<rparr>))]"
    using parse_command_head[of command] command_head_utf8[OF assms(1)] assms(1)
    by (simp add: cut last_frame_def readable_def) (simp add: command_head_def)
  moreover have "fst (read_frames (length [Welcome now] + 2) (c\<lparr>cl_input := encode_server_frame (Welcome now) @ ?cut\<rparr>)) =
      map wire_server [Welcome now] @ fst (read_frames 2 ((c\<lparr>cl_input := encode_server_frame (Welcome now) @ ?cut\<rparr>)\<lparr>cl_input := ?cut\<rparr>))"
    by (rule read_frames_append) (simp_all add: readable_welcome)
  moreover have "fst (read_frames 2 (c\<lparr>cl_input := ?cut\<rparr>)) = last_frame ?cut"
    unfolding numeral_2_eq_2 by (rule read_frames_cut) simp
  ultimately show ?thesis by (intro exI[of _ ?j]) (simp add: command_line numeral_3_eq_3 numeral_2_eq_2)
qed

theorem cut_command_loses_take_profit_witness:
  "\<exists>j < length (encode_server_frame (Command sample_command)).
    fst (read_frames 3 \<lparr>cl_input = encode_server_frame (Welcome 2) @ writer_task (\<lambda>_. Some j) 0 [Command sample_command],
      cl_output = [], cl_open = True\<rparr>) =
      [Welcome 2, Command (sample_command\<lparr>cmd_target_order_id := None, cmd_take_profit := None, cmd_created_unix_ns := 0\<rparr>)]"
  using cut_command_loses_take_profit[OF sample_command_readable, of _
      2 "\<lparr>cl_input = [], cl_output = [], cl_open = True\<rparr>"]
  by (simp add: sample_command_def wire_command_def wire_opt_def clean_def separator_codes)

end
