(* ===== verification/Spec2Isabelle.thy ===== *)
theory Spec2Isabelle
  imports Program Client
begin

text \<open>
  A verification development for CopierR, a trade copier written in Rust. A daemon accepts trade events
  of master accounts, derives from its copy rules one command per follower, journals the command, sends it
  to the follower's agent or broker, and takes in the acknowledgement. Money is lost when an
  order is sent twice or a position is forgotten, so the development is about these two.

  \<^bold>\<open>Parts and theories.\<close> The theories follow the crates; every definition is a shallow embedding of
  the function it is named after.

  \<^item> \<open>Prelude\<close>: the result monads (\<open>'e + 'a\<close> for \<open>Result\<close>, \<open>'e fault\<close> with \<open>Panicked\<close> for code that
    can panic and \<open>Stuck\<close> for an \<open>await\<close> that never ends, state-passing handlers that keep the state they had reached when they fail), the rules
    \<open>keeps\<close> for invariants of handlers, and the string functions of Rust's library.
  \<^item> \<open>F64_Round\<close>, \<open>F64\<close>, \<open>Num_Text\<close>, \<open>F64_Text\<close>: Rust's \<open>f64\<close> as IEEE binary64 with rounding to nearest
    even, its arithmetic and comparisons, and the printing and parsing of integers and floats.
  \<^item> \<open>Model\<close> (\<open>copier-core/src/model.rs\<close>): enumerations, events, commands, acknowledgements, bindings.
  \<^item> \<open>Protocol\<close> (\<open>copier-core/src/protocol.rs\<close>): the frames, both parsers, both printers.
  \<^item> \<open>Routing\<close> (\<open>copier-core/src/routing.rs\<close>): rules, sizing, \<open>CopyEngine\<close>, command identifiers.
  \<^item> \<open>Config\<close> (\<open>copier-daemon/src/config.rs\<close>): configuration, validation, secrets.
  \<^item> \<open>Journal\<close> (\<open>copier-daemon/src/journal.rs\<close>): records, \<open>ReplayState\<close>, opening and appending.
  \<^item> \<open>Runtime\<close> (\<open>copier-daemon/src/runtime.rs\<close>): \<open>AppState\<close> as the record \<open>app_state\<close>, one
    definition per method. Beside the fields of the code the record has the history of sent frames
    and written records, and a counter that numbers the calls to the environment.
  \<^item> \<open>Daemon\<close>: runs of these operations with restarts (\<open>main.rs\<close>), as lists of \<open>operation\<close>s;
    \<open>Handlers\<close>: what each single handler does.
  \<^item> \<open>Lifetime\<close>: lifetimes, as lists of episodes one after the other (a connection, the life of a cTrader hub
    or of a MetaApi task, a restart), and handler runs, in which the step is one handler of the daemon, whichever
    connection or venue calls it.
  \<^item> \<open>Program\<close> (\<open>main.rs\<close>, \<open>server::run\<close>): the commands, the start of the daemon, accepting connections.
  \<^item> \<open>Server\<close> (\<open>copier-daemon/src/server.rs\<close>): \<open>handle_connection\<close> and its writer task; \<open>Client\<close>
    (\<open>copier-client/src/lib.rs\<close>): the other end.
  \<^item> \<open>Tasks\<close>, \<open>Interleaving\<close>: the same handlers cut at their \<open>await\<close>s into atomic steps, any number of
    connections interleaved, with a crash possible between any two steps.
  \<^item> \<open>Venues\<close> (\<open>venues/mod.rs\<close>), \<open>Json\<close>, \<open>CTrader\<close> (\<open>venues/ctrader.rs\<close>), \<open>MetaApi\<close>
    (\<open>venues/metaapi.rs\<close>): the direct connections to brokers. Their states \<open>hub\<close> and \<open>ma_task\<close> contain the
    \<open>app_state\<close>, on which they call the handlers of \<open>Runtime\<close>.
  \<^item> \<open>Ui\<close> (\<open>copier-daemon/src/ui.rs\<close>): log ring and child process of the control room.

  \<^bold>\<open>What is a parameter.\<close> Code outside the repository is an argument of the definitions. The record
  \<open>environment\<close> holds the clock, the outcome of every write to the journal (all written, part
  written, failed), how a send on a channel ends (delivered, receiver gone, never room; a function of the
  channel and of the number of frames it took before), the iteration order of hash maps, the environment
  variables, SHA-256 and the JSON serialiser of journal records. A \<open>connection\<close> holds what a socket delivers. The
  record \<open>json_api\<close> holds the accessors of \<open>serde_json::Value\<close>, \<open>metaapi_env\<close> the HTTP client,
  \<open>ui_env\<close> the operating system. Theorems assume of them what is documented: the serialiser reads
  back what it wrote without line ends (\<open>serde_ok\<close>), a hash map's iteration visits all its keys
  (\<open>covers\<close>), SHA-256 does not collide on the inputs at hand, a bounded channel with a live receiver takes
  as many frames as its capacity (\<open>channel_open\<close>) and, while nobody reads it, no more (\<open>channel_unread\<close>). Some
  theorems are about the runs in which no write to the journal is torn (\<open>whole_writes\<close>) or all succeed (\<open>reliable_disk\<close>);
  they say so.

  \<^bold>\<open>What the theorems show.\<close>

  \<^item> When one handler runs at a time (\<open>Lifetime\<close>), while connections and venues overlap: no command is sent
    twice, whatever agents and brokers do. Over lifetimes: what is sent was journaled. Over
    interleaved runs (\<open>Interleaving\<close>): a sent command has its record in the journal and every crash can
    be recovered from, but at-most-once fails: a follower that connects at the wrong moment gets an
    order twice. They rest on interfaces stated as locales and interpreted on the program:
    \<open>recoverable_log\<close> and \<open>issued_work\<close> (\<open>Journal\<close>), \<open>served_property\<close> with its special cases
    \<open>handler_property\<close>, \<open>logged_property\<close> and \<open>journal_property\<close> (\<open>Runtime\<close>), \<open>invariant_system\<close>
    (\<open>Daemon\<close>), \<open>harmless_pool\<close> (\<open>Tasks\<close>), \<open>step_guarantees\<close> and \<open>interleaved_property\<close>
    (\<open>Interleaving\<close>). The venues' lemmas are proved once inside \<open>served_property\<close>: they reach the
    daemon's state only through its handlers.
  \<^item> Of a connection: nothing without credentials, only operations of its own account, no session
    left unless a handler panics or hangs, and when it panics one is. The client's handshake succeeds exactly for
    the right credentials, and it reads what was written in order; a command cut by a failing write can be read
    as one without its take profit.
  \<^item> Of the single handlers: authority, duplicates, acknowledgements, disconnection, delivery of what fits
    into the channel.
  \<^item> Of the data: round trips of both wire formats, validation, sizing bounds, identifiers.
  \<^item> Of the program: a valid daemon starts with the state of its journal and serves every direct account; the
    control room never has two daemons.
  \<^item> Of the venues: copied positions are not copied back, an uncertain outcome is never
    reported as certain (MetaApi), and where it is (cTrader, a rejected protection). A MetaApi account
    with more queued commands than its channel holds never starts.

  \<^bold>\<open>Bounds.\<close> Integers keep their width (\<open>i64\<close>, \<open>u64\<close> as words). No fuel is used in the program: every loop is
  structural over the lines, messages, events or routes that are there, a stream that never ends being the
  prefixes of it; the 24 attempts of \<open>ensure_account\<close> are counted. Only \<open>read_frames\<close>, the reader
  of the theorem about the client, has a number of reads: one per frame, the welcome and the end.

  \<^bold>\<open>Not modelled.\<close> The command line parser and logging of \<open>main.rs\<close>; the HTTP router and browser page of the
  control room; time-outs and intervals, which only decide when an event occurs. The steps of the venue tasks are not cut at their \<open>await\<close>s: they
  run in sequence on the state, not in the pool of \<open>Interleaving\<close>, and so do the episodes of a lifetime. The receiving
  end of a session's channel is not a task of the pool: when it makes room is part of the environment. A send
  that waits and then succeeds is one that takes its step later.
\<close>

end
